(* ===== verification/Prelude.thy ===== *)
theory Prelude
  imports Main "HOL-Library.Word"
begin

text \<open>
  The computation monad every component of the stack is written in, with the rules that
  carry the proofs about it, and the machine-integer types.

  A C++ function with effects is a value of type \<open>('w, 'a) M\<close>: a function of the
  state \<open>'w\<close> of the program. Its result is \<open>None\<close> when the code never returns,
  \<open>Some (Inl e)\<close> when it stops with the fault \<open>e\<close> (an access the language leaves
  undefined, a lock acquired twice by its holder, a wait nobody ends, an exception), and
  \<open>Some (Inr (x, w'))\<close> when it returns \<open>x\<close> in the state \<open>w'\<close>.
\<close>

section \<open>Machine integers\<close>

type_synonym u8 = "8 word"
type_synonym u16 = "16 word"
type_synonym u32 = "32 word"
type_synonym ptr = "64 word"

abbreviation null :: ptr where
  "null \<equiv> 0"

section \<open>Faults and computations\<close>

datatype fault =
    NullDeref
  | BadAccess
  | OutOfBounds
  | BadFree
  | Overflow
  | Deadlock
  | Blocked
  | BadAlloc
  | NotOwner
  | Exit
  | Throw string

type_synonym ('w, 'a) M = "'w \<Rightarrow> (fault + 'a \<times> 'w) option"

abbreviation Ok :: "'a \<Rightarrow> 'w \<Rightarrow> (fault + 'a \<times> 'w) option" where
  "Ok x w \<equiv> Some (Inr (x, w))"

abbreviation Err :: "fault \<Rightarrow> (fault + 'a \<times> 'w) option" where
  "Err e \<equiv> Some (Inl e)"

definition ret :: "'a \<Rightarrow> ('w, 'a) M" where
  "ret x = (\<lambda>w. Ok x w)"

definition fail :: "fault \<Rightarrow> ('w, 'a) M" where
  "fail e = (\<lambda>w. Err e)"

definition andthen :: "(fault + 'a \<times> 'w) option \<Rightarrow> ('a \<Rightarrow> ('w, 'b) M) \<Rightarrow> (fault + 'b \<times> 'w) option" where
  "andthen r f = (case r of None \<Rightarrow> None
     | Some v \<Rightarrow> (case v of Inl e \<Rightarrow> Err e | Inr (x, w) \<Rightarrow> f x w))"

definition bnd :: "('w, 'a) M \<Rightarrow> ('a \<Rightarrow> ('w, 'b) M) \<Rightarrow> ('w, 'b) M" where
  "bnd m f = (\<lambda>w. andthen (m w) f)"

abbreviation sq :: "('w, 'a) M \<Rightarrow> ('w, 'b) M \<Rightarrow> ('w, 'b) M" where
  "sq m n \<equiv> bnd m (\<lambda>_. n)"

definition get :: "('w \<Rightarrow> 'a) \<Rightarrow> ('w, 'a) M" where
  "get f = (\<lambda>w. Ok (f w) w)"

definition upd :: "('w \<Rightarrow> 'w) \<Rightarrow> ('w, unit) M" where
  "upd g = (\<lambda>w. Ok () (g w))"

abbreviation skip :: "('w, unit) M" where
  "skip \<equiv> ret ()"

definition onlyif :: "bool \<Rightarrow> ('w, unit) M \<Rightarrow> ('w, unit) M" where
  "onlyif c m = (if c then m else skip)"

fun iterate :: "nat \<Rightarrow> ('w, unit) M \<Rightarrow> ('w, unit) M" where
  "iterate 0 m = skip"
| "iterate (Suc n) m = sq (iterate n m) m"

section \<open>Running a computation\<close>

named_theorems run "equations that run a computation one step"

lemma run_basic [run]:
  "ret x w = Ok x w"
  "fail e w = Err e"
  "get f w = Ok (f w) w"
  by (simp_all add: ret_def fail_def get_def)

text \<open>
  Each component adds the equation of its own fields, in the form
  \<open>upd (field_update f) w = Ok () (w\<lparr>field := f (field w)\<rparr>)\<close>, by this lemma.
\<close>

lemma upd_apply: "upd g w = Ok () (g w)"
  by (simp add: upd_def)

lemma andthen_run [run, simp]:
  "andthen (Ok x w) f = f x w"
  "andthen (Err e) f = Err e"
  "andthen None f = None"
  by (simp_all add: andthen_def)

lemma andthen_andthen [run]: "andthen (andthen r f) g = andthen r (\<lambda>x. bnd (f x) g)"
  by (auto simp: andthen_def bnd_def split: option.splits sum.splits prod.splits)

lemma andthen_cong [cong]: "r = r' \<Longrightarrow> andthen r f = andthen r' f"
  by simp

lemma bnd_run [run]: "bnd m f w = andthen (m w) f"
  by (simp add: bnd_def)

lemma onlyif_run [run]: "onlyif c m w = (if c then m w else Ok () w)"
  by (simp add: onlyif_def ret_def)

lemma bnd_assoc: "bnd (bnd m f) g = bnd m (\<lambda>x. bnd (f x) g)"
  by (rule ext) (simp add: bnd_def andthen_def split: option.splits sum.splits prod.splits)

lemma bnd_ret [simp]: "bnd (ret x) f = f x"
  by (rule ext) (simp add: run)

lemma bnd_ret_right [simp]: "bnd m ret = m"
  by (rule ext) (simp add: ret_def bnd_def andthen_def split: option.splits sum.splits prod.splits)

lemma bnd_fail [simp]: "bnd (fail e) f = fail e"
  by (rule ext) (simp add: run)

lemma bnd_cong [fundef_cong]:
  assumes "m w = m' w'" and "w = w'" and "\<And>x u. m' w' = Ok x u \<Longrightarrow> f x u = f' x u"
  shows "bnd m f w = bnd m' f' w'"
  using assms by (auto simp: bnd_def andthen_def split: option.splits sum.splits prod.splits)

lemma bnd_OkD:
  assumes "bnd m f w = Ok y w'"
  shows "\<exists>x u. m w = Ok x u \<and> f x u = Ok y w'"
  using assms by (auto simp: bnd_def andthen_def split: option.splits sum.splits prod.splits)

lemma bnd_OkE [elim!]:
  assumes "bnd m f w = Ok y w'"
  obtains x u where "m w = Ok x u" and "f x u = Ok y w'"
  using bnd_OkD [OF assms] by blast

lemma bnd_Ok_iff: "bnd m f w = Ok y w' \<longleftrightarrow> (\<exists>x u. m w = Ok x u \<and> f x u = Ok y w')"
  by (auto simp: bnd_def andthen_def split: option.splits sum.splits prod.splits)

lemma bnd_mono [partial_function_mono]:
  fixes B :: "('x \<Rightarrow> 'y option) \<Rightarrow> ('w, 'a) M"
    and C :: "('x \<Rightarrow> 'y option) \<Rightarrow> 'a \<Rightarrow> ('w, 'b) M"
  assumes "\<And>w. monotone (fun_ord option_ord) option_ord (\<lambda>f. B f w)"
    and "\<And>x w. monotone (fun_ord option_ord) option_ord (\<lambda>f. C f x w)"
  shows "monotone (fun_ord option_ord) option_ord (\<lambda>f. bnd (B f) (C f) w)"
proof (rule monotoneI)
  fix f g :: "'x \<Rightarrow> 'y option"
  assume fg: "fun_ord option_ord f g"
  have B: "option_ord (B f w) (B g w)"
    using assms(1) [THEN monotoneD, OF fg] .
  have C: "option_ord (C f x u) (C g x u)" for x u
    using assms(2) [THEN monotoneD, OF fg] .
  show "option_ord (bnd (B f) (C f) w) (bnd (B g) (C g) w)"
  proof (cases "B f w")
    case None
    then show ?thesis by (simp add: bnd_def andthen_def flat_ord_def)
  next
    case (Some r)
    with B have "B g w = Some r" by (simp add: flat_ord_def)
    with Some C show ?thesis
      by (auto simp: bnd_def andthen_def flat_ord_def split: sum.splits)
  qed
qed

lemma if_app_mono [partial_function_mono]:
  assumes "monotone (fun_ord option_ord) option_ord (\<lambda>f. B f w)"
    and "monotone (fun_ord option_ord) option_ord (\<lambda>f. C f w)"
  shows "monotone (fun_ord option_ord) option_ord (\<lambda>f. (if c then B f else C f) w)"
  using assms by (cases c) simp_all

text \<open>Signed 32-bit arithmetic: a result outside the range of \<open>int\<close> is undefined.\<close>

definition arith :: "int \<Rightarrow> ('w, int) M" where
  "arith i = (if - (2 ^ 31) \<le> i \<and> i < 2 ^ 31 then ret i else fail Overflow)"

lemma arith_run [run]: "- 2147483648 \<le> i \<Longrightarrow> i < 2147483648 \<Longrightarrow> arith i w = Ok i w"
  by (simp add: arith_def ret_def)

text \<open>
  Early returns: a part of a function that may return by itself gives \<open>Some\<close> of the
  value returned, and \<open>None\<close> to go on.
\<close>

definition unless_returned :: "('w, 'a option) M \<Rightarrow> ('w, 'a) M \<Rightarrow> ('w, 'a) M" where
  "unless_returned m k = bnd m (\<lambda>r. case r of Some x \<Rightarrow> ret x | None \<Rightarrow> k)"

section \<open>What a computation keeps\<close>

text \<open>
  \<open>keeps R m\<close>: whenever \<open>m\<close> returns, its start and end states are related by
  \<open>R\<close>. With a reflexive and transitive \<open>R\<close> (some components of the state are
  unchanged, some invariant is kept) the rules below follow the shape of the code.
\<close>

definition keeps :: "('w \<Rightarrow> 'w \<Rightarrow> bool) \<Rightarrow> ('w, 'a) M \<Rightarrow> bool" where
  "keeps R m \<longleftrightarrow> (\<forall>w x w'. m w = Ok x w' \<longrightarrow> R w w')"

definition same :: "('w \<Rightarrow> 'b) \<Rightarrow> 'w \<Rightarrow> 'w \<Rightarrow> bool" where
  "same f w w' \<longleftrightarrow> f w' = f w"

definition upholds :: "('w \<Rightarrow> bool) \<Rightarrow> 'w \<Rightarrow> 'w \<Rightarrow> bool" where
  "upholds I w w' \<longleftrightarrow> (I w \<longrightarrow> I w')"

named_theorems keep "rules that follow a computation's shape to show what it keeps"

lemma keepsI: "(\<And>w x w'. m w = Ok x w' \<Longrightarrow> R w w') \<Longrightarrow> keeps R m"
  by (simp add: keeps_def)

lemma keepsD: "keeps R m \<Longrightarrow> m w = Ok x w' \<Longrightarrow> R w w'"
  by (simp add: keeps_def)

lemma keeps_ret [keep]: "reflp R \<Longrightarrow> keeps R (ret x)"
  by (simp add: run keeps_def reflp_def)

lemma keeps_fail [keep]: "keeps R (fail e)"
  by (simp add: run keeps_def)

lemma keeps_get [keep]: "reflp R \<Longrightarrow> keeps R (get f)"
  by (simp add: run keeps_def reflp_def)

lemma keeps_upd: "(\<And>w. R w (g w)) \<Longrightarrow> keeps R (upd g)"
  by (simp add: upd_apply keeps_def)

lemma keeps_bnd [keep]:
  assumes "transp R" and "keeps R m" and "\<And>x. keeps R (f x)"
  shows "keeps R (bnd m f)"
proof (rule keepsI)
  fix w y w'
  assume "bnd m f w = Ok y w'"
  then obtain x u where "m w = Ok x u" and "f x u = Ok y w'" by (rule bnd_OkE)
  with assms(2,3) have "R w u" and "R u w'" by (auto dest: keepsD)
  with assms(1) show "R w w'" by (rule transpD)
qed

lemma keeps_onlyif [keep]: "reflp R \<Longrightarrow> (c \<Longrightarrow> keeps R m) \<Longrightarrow> keeps R (onlyif c m)"
  by (simp add: onlyif_def keeps_ret)

lemma keeps_if [keep]: "(c \<Longrightarrow> keeps R m) \<Longrightarrow> (\<not> c \<Longrightarrow> keeps R n) \<Longrightarrow> keeps R (if c then m else n)"
  by simp

lemma keeps_option [keep]:
  "keeps R m \<Longrightarrow> (\<And>x. keeps R (f x)) \<Longrightarrow> keeps R (case z of None \<Rightarrow> m | Some x \<Rightarrow> f x)"
  by (cases z) simp_all

lemma keeps_prod [keep]: "(\<And>x y. keeps R (f x y)) \<Longrightarrow> keeps R (case z of (x, y) \<Rightarrow> f x y)"
  by (cases z) simp

lemma keeps_list [keep]:
  "keeps R m \<Longrightarrow> (\<And>x xs. keeps R (f x xs)) \<Longrightarrow> keeps R (case z of [] \<Rightarrow> m | x # xs \<Rightarrow> f x xs)"
  by (cases z) simp_all

lemma keeps_arith [keep]: "reflp R \<Longrightarrow> keeps R (arith i)"
  by (simp add: arith_def keeps_ret keeps_fail)

lemma keeps_unless_returned [keep]:
  "reflp R \<Longrightarrow> transp R \<Longrightarrow> keeps R m \<Longrightarrow> keeps R k \<Longrightarrow> keeps R (unless_returned m k)"
  unfolding unless_returned_def by (auto intro!: keep)

lemma keeps_Let [keep]: "keeps R (f v) \<Longrightarrow> keeps R (let x = v in f x)"
  by (simp add: Let_def)

lemma reflp_same [keep, simp]: "reflp (same f)"
  by (simp add: reflp_def same_def)

lemma transp_same [keep, simp]: "transp (same f)"
  by (simp add: transp_def same_def)

lemma reflp_upholds [keep, simp]: "reflp (upholds I)"
  by (simp add: reflp_def upholds_def)

lemma transp_upholds [keep, simp]: "transp (upholds I)"
  by (simp add: transp_def upholds_def)

section \<open>Heaps\<close>

text \<open>
  Objects of one class live in a map from addresses. \<open>load\<close> is the access
  \<open>p->\<dots>\<close>: it faults on the null pointer and on an address where no live object of
  that class is.
\<close>

definition load :: "('w \<Rightarrow> ptr \<rightharpoonup> 'o) \<Rightarrow> ptr \<Rightarrow> ('w, 'o) M" where
  "load h p = (\<lambda>w. if p = null then Err NullDeref
     else (case h w p of None \<Rightarrow> Err BadAccess | Some v \<Rightarrow> Ok v w))"

lemma load_run [run]:
  "load h null w = Err NullDeref"
  "p \<noteq> null \<Longrightarrow> h w p = None \<Longrightarrow> load h p w = Err BadAccess"
  "p \<noteq> null \<Longrightarrow> h w p = Some v \<Longrightarrow> load h p w = Ok v w"
  by (simp_all add: load_def)

lemma load_Ok_iff [simp]: "load h p w = Ok v w' \<longleftrightarrow> p \<noteq> null \<and> h w p = Some v \<and> w' = w"
  by (auto simp: load_def split: option.splits)

lemma keeps_load [keep]: "reflp R \<Longrightarrow> keeps R (load h p)"
  by (simp add: keeps_def reflp_def)

section \<open>Lists\<close>

lemma takeWhile_dropWhile_first:
  assumes "\<exists>x \<in> set xs. P x"
  obtains ys y zs where "xs = ys @ y # zs" and "P y" and "\<forall>x \<in> set ys. \<not> P x"
  using assms split_list_first_prop [of xs P] by auto

lemma find_split:
  assumes "find P xs = Some x"
  obtains ys zs where "xs = ys @ x # zs" and "P x" and "\<forall>y \<in> set ys. \<not> P y"
  using assms
proof (induction xs arbitrary: thesis)
  case (Cons a xs)
  show ?case
  proof (cases "P a")
    case True
    with Cons.prems(2) Cons.prems(1) [of "[]" xs] show ?thesis by simp
  next
    case False
    with Cons.prems(2) have "find P xs = Some x" by simp
    with Cons.IH obtain ys zs where "xs = ys @ x # zs" "P x" "\<forall>y \<in> set ys. \<not> P y" by blast
    with False Cons.prems(1) [of "a # ys" zs] show ?thesis by simp
  qed
qed simp

end
