(* ===== verification/Intrusive_Queue.thy ===== *)
theory Intrusive_Queue
  imports Prelude
begin

text \<open>
  The intrusive doubly linked queue of \<open>include/intrusive_queue.hpp\<close>, at the level of
  its pointers, and its refinement to lists.

  A \<open>list_head\<close> lives at an address; \<open>nodes\<close> maps the address of every live
  \<open>list_head\<close> (the head of a queue, or the node embedded in a queued object) to its two
  links. An \<open>IntrusiveQueue\<close> object starts with its head, so the address of the queue
  is the address of its head; its other two fields are in \<open>queues\<close>. The captured
  variables of a C++ lambda that a traversal calls are threaded through it as a value
  \<open>'s\<close>.
\<close>

section \<open>State\<close>

record list_head =
  lprev :: ptr
  lnext :: ptr

record queue_meta =
  qlen :: ptr
  qoffset :: ptr

record qworld =
  nodes :: "ptr \<rightharpoonup> list_head"
  queues :: "ptr \<rightharpoonup> queue_meta"

definition set_prev :: "ptr \<Rightarrow> ptr \<Rightarrow> ('w qworld_scheme, unit) M" where
  "set_prev p v = bnd (load nodes p) (\<lambda>n. upd (nodes_update (\<lambda>h. h(p \<mapsto> n\<lparr>lprev := v\<rparr>))))"

definition set_next :: "ptr \<Rightarrow> ptr \<Rightarrow> ('w qworld_scheme, unit) M" where
  "set_next p v = bnd (load nodes p) (\<lambda>n. upd (nodes_update (\<lambda>h. h(p \<mapsto> n\<lparr>lnext := v\<rparr>))))"

definition set_len :: "ptr \<Rightarrow> (ptr \<Rightarrow> ptr) \<Rightarrow> ('w qworld_scheme, unit) M" where
  "set_len q f = bnd (load queues q) (\<lambda>m. upd (queues_update (\<lambda>h. h(q \<mapsto> m\<lparr>qlen := f (qlen m)\<rparr>))))"

lemma upd_queues_run [run]:
  "upd (nodes_update f) w = Ok () (w\<lparr>nodes := f (nodes w)\<rparr>)"
  "upd (queues_update g) w = Ok () (w\<lparr>queues := g (queues w)\<rparr>)"
  by (simp_all add: upd_apply)

section \<open>Operations\<close>

definition init_node :: "ptr \<Rightarrow> ('w qworld_scheme, unit) M" where
  "init_node p = upd (nodes_update (\<lambda>h. h(p \<mapsto> \<lparr>lprev = p, lnext = p\<rparr>)))"

definition queue_init :: "ptr \<Rightarrow> ptr \<Rightarrow> ('w qworld_scheme, unit) M" where
  "queue_init q off =
     sq (init_node q) (upd (queues_update (\<lambda>h. h(q \<mapsto> \<lparr>qlen = 0, qoffset = off\<rparr>))))"

definition list_entry :: "ptr \<Rightarrow> ptr \<Rightarrow> ptr" where
  "list_entry p off = p - off"

partial_function (option) list_for_each_from ::
    "ptr \<Rightarrow> ptr \<Rightarrow> (ptr \<Rightarrow> 's \<Rightarrow> ('w qworld_scheme, bool \<times> 's) M) \<Rightarrow> 's \<Rightarrow> ('w qworld_scheme, 's) M" where
  "list_for_each_from head pos f s w =
     (if pos = head then Ok s w
      else bnd (f pos s) (\<lambda>(brk, s'). if brk then ret s'
             else bnd (load nodes pos) (\<lambda>n. list_for_each_from head (lnext n) f s')) w)"

declare list_for_each_from.simps [code]

definition list_for_each ::
    "ptr \<Rightarrow> (ptr \<Rightarrow> 's \<Rightarrow> ('w qworld_scheme, bool \<times> 's) M) \<Rightarrow> 's \<Rightarrow> ('w qworld_scheme, 's) M" where
  "list_for_each head f s = bnd (load nodes head) (\<lambda>n. list_for_each_from head (lnext n) f s)"

partial_function (option) list_for_each_safe_from ::
    "ptr \<Rightarrow> ptr \<Rightarrow> ptr \<Rightarrow> (ptr \<Rightarrow> 's \<Rightarrow> ('w qworld_scheme, bool \<times> 's) M) \<Rightarrow> 's \<Rightarrow> ('w qworld_scheme, 's) M" where
  "list_for_each_safe_from head pos p f s w =
     (if pos = head then Ok s w
      else bnd (f pos s) (\<lambda>(brk, s'). if brk then ret s'
             else bnd (load nodes p) (\<lambda>n. list_for_each_safe_from head p (lnext n) f s')) w)"

declare list_for_each_safe_from.simps [code]

definition list_for_each_safe ::
    "ptr \<Rightarrow> (ptr \<Rightarrow> 's \<Rightarrow> ('w qworld_scheme, bool \<times> 's) M) \<Rightarrow> 's \<Rightarrow> ('w qworld_scheme, 's) M" where
  "list_for_each_safe head f s =
     bnd (load nodes head) (\<lambda>h. bnd (load nodes (lnext h)) (\<lambda>n.
       list_for_each_safe_from head (lnext h) (lnext n) f s))"

definition list_add :: "ptr \<Rightarrow> ptr \<Rightarrow> ptr \<Rightarrow> ptr \<Rightarrow> ('w qworld_scheme, unit) M" where
  "list_add q new prv nxt =
     sq (set_prev nxt new) (sq (set_next new nxt) (sq (set_prev new prv)
       (sq (set_next prv new) (set_len q (\<lambda>n. n + 1)))))"

definition isEmpty :: "ptr \<Rightarrow> ('w qworld_scheme, bool) M" where
  "isEmpty q = bnd (load nodes q) (\<lambda>h. ret (q = lnext h))"

definition queue_size :: "ptr \<Rightarrow> ('w qworld_scheme, int) M" where
  "queue_size q = bnd (load queues q) (\<lambda>m. ret (sint (ucast (qlen m) :: 32 word)))"

definition queue_first_entry :: "ptr \<Rightarrow> ('w qworld_scheme, ptr) M" where
  "queue_first_entry q = bnd (isEmpty q) (\<lambda>e. if e then ret null
     else bnd (load nodes q) (\<lambda>h. bnd (load queues q) (\<lambda>m.
       ret (list_entry (lnext h) (qoffset m)))))"

definition queue_add :: "ptr \<Rightarrow> ptr \<Rightarrow> ('w qworld_scheme, unit) M" where
  "queue_add q new = bnd (load nodes q) (\<lambda>h. list_add q new q (lnext h))"

definition queue_add_tail :: "ptr \<Rightarrow> ptr \<Rightarrow> ('w qworld_scheme, unit) M" where
  "queue_add_tail q new = bnd (load nodes q) (\<lambda>h. list_add q new (lprev h) q)"

definition queue_add_before :: "ptr \<Rightarrow> ptr \<Rightarrow> ptr \<Rightarrow> ('w qworld_scheme, unit) M" where
  "queue_add_before q new target = bnd (load nodes target) (\<lambda>t. list_add q new (lprev t) target)"

definition queue_del :: "ptr \<Rightarrow> ptr \<Rightarrow> ('w qworld_scheme, unit) M" where
  "queue_del q del = bnd (load nodes del) (\<lambda>d.
     sq (set_next (lprev d) (lnext d)) (sq (set_prev (lnext d) (lprev d))
       (sq (set_next del null) (sq (set_prev del null) (set_len q (\<lambda>n. n - 1))))))"

definition dequeue :: "ptr \<Rightarrow> ('w qworld_scheme, ptr) M" where
  "dequeue q = bnd (queue_first_entry q) (\<lambda>e.
     if e \<noteq> null
     then bnd (load nodes q) (\<lambda>h. sq (queue_del q (lnext h)) (ret e))
     else ret e)"

partial_function (option) clear_queue ::
    "ptr \<Rightarrow> (ptr \<Rightarrow> ('w qworld_scheme, unit) M) \<Rightarrow> ('w qworld_scheme, unit) M" where
  "clear_queue q cleaner w =
     bnd (dequeue q) (\<lambda>e. if e \<noteq> null then sq (cleaner e) (clear_queue q cleaner) else ret ()) w"

declare clear_queue.simps [code]

section \<open>What the operations touch\<close>

text \<open>Everything a queue operation changes is in \<open>nodes\<close> and \<open>queues\<close>.\<close>

definition outside_queues :: "'w qworld_scheme \<Rightarrow> 'w qworld_scheme" where
  "outside_queues w = w\<lparr>nodes := Map.empty, queues := Map.empty\<rparr>"

abbreviation queue_frame :: "'w qworld_scheme \<Rightarrow> 'w qworld_scheme \<Rightarrow> bool" where
  "queue_frame \<equiv> same outside_queues"

lemma keeps_queue_upd [keep]:
  "keeps queue_frame (upd (nodes_update f))"
  "keeps queue_frame (upd (queues_update g))"
  by (rule keeps_upd, simp add: same_def outside_queues_def)+

lemma keeps_set_links [keep]:
  "keeps queue_frame (set_prev p v)"
  "keeps queue_frame (set_next p v)"
  "keeps queue_frame (set_len q f)"
  unfolding set_prev_def set_next_def set_len_def
  by (auto intro!: keep)

lemma keeps_queue_ops [keep]:
  "keeps queue_frame (list_add q x p n)"
  "keeps queue_frame (isEmpty q)"
  "keeps queue_frame (queue_size q)"
  "keeps queue_frame (queue_first_entry q)"
  "keeps queue_frame (queue_add q x)"
  "keeps queue_frame (queue_add_tail q x)"
  "keeps queue_frame (queue_add_before q x t)"
  "keeps queue_frame (queue_del q x)"
  "keeps queue_frame (dequeue q)"
  unfolding list_add_def isEmpty_def queue_size_def queue_first_entry_def queue_add_def
    queue_add_tail_def queue_add_before_def queue_del_def dequeue_def
  by (auto intro!: keep)

section \<open>Links\<close>

definition nx :: "(ptr \<rightharpoonup> list_head) \<Rightarrow> ptr \<rightharpoonup> ptr" where
  "nx N p = map_option lnext (N p)"

definition pv :: "(ptr \<rightharpoonup> list_head) \<Rightarrow> ptr \<rightharpoonup> ptr" where
  "pv N p = map_option lprev (N p)"

definition linked :: "(ptr \<rightharpoonup> list_head) \<Rightarrow> ptr \<Rightarrow> ptr \<Rightarrow> bool" where
  "linked N a b \<longleftrightarrow> nx N a = Some b \<and> pv N b = Some a"

text \<open>
  \<open>qrep w q xs\<close>: the queue at \<open>q\<close> is well formed and holds exactly the nodes
  \<open>xs\<close>, in this order. Every class of the stack puts its \<open>list_head\<close> first, so
  the offset of a queue is 0.
\<close>

definition qrep :: "'w qworld_scheme \<Rightarrow> ptr \<Rightarrow> ptr list \<Rightarrow> bool" where
  "qrep w q xs \<longleftrightarrow> distinct (q # xs) \<and> null \<notin> set (q # xs)
     \<and> successively (linked (nodes w)) (q # xs @ [q])
     \<and> queues w q = Some \<lparr>qlen = of_nat (length xs), qoffset = 0\<rparr>"

definition detached :: "'w qworld_scheme \<Rightarrow> ptr \<Rightarrow> bool" where
  "detached w p \<longleftrightarrow> p \<noteq> null \<and> nodes w p \<noteq> None"

lemma nx_pv_simps [simp]:
  "nx (N(p \<mapsto> n)) r = (if r = p then Some (lnext n) else nx N r)"
  "pv (N(p \<mapsto> n)) r = (if r = p then Some (lprev n) else pv N r)"
  by (simp_all add: nx_def pv_def)

lemma successively_links_mono:
  assumes "successively (linked N) L"
    and "\<And>a. a \<in> set (butlast L) \<Longrightarrow> nx N' a = nx N a"
    and "\<And>b. b \<in> set (tl L) \<Longrightarrow> pv N' b = pv N b"
  shows "successively (linked N') L"
  using assms
proof (induction L rule: induct_list012)
  case (3 a b L)
  have "linked N' a b"
    using "3.prems" by (simp add: linked_def)
  moreover have "successively (linked N') (b # L)"
  proof (rule "3.IH")
    show "successively (linked N) (b # L)" using "3.prems"(1) by simp
    show "nx N' c = nx N c" if "c \<in> set (butlast (b # L))" for c
      using "3.prems"(2) [of c] that by simp
    show "pv N' c = pv N c" if "c \<in> set (tl (b # L))" for c
      using "3.prems"(3) [of c] that by simp
  qed
  ultimately show ?case by simp
qed simp_all

lemma qrep_cong:
  assumes "qrep w q xs"
    and "\<And>a. a \<in> set (q # xs) \<Longrightarrow> nodes w' a = nodes w a" and "queues w' q = queues w q"
  shows "qrep w' q xs"
proof -
  have same_links: "nx (nodes w') a = nx (nodes w) a" "pv (nodes w') a = pv (nodes w) a"
    if "a \<in> set (q # xs)" for a
    using assms(2) [OF that] by (simp_all add: nx_def pv_def)
  have "successively (linked (nodes w')) (q # xs @ [q])"
  proof (rule successively_links_mono)
    show "successively (linked (nodes w)) (q # xs @ [q])"
      using assms(1) by (simp add: qrep_def)
    show "nx (nodes w') a = nx (nodes w) a" if "a \<in> set (butlast (q # xs @ [q]))" for a
      using that same_links(1) [of a] by (auto dest: in_set_butlastD)
    show "pv (nodes w') b = pv (nodes w) b" if "b \<in> set (tl (q # xs @ [q]))" for b
      using that same_links(2) [of b] by auto
  qed
  with assms(1,3) show ?thesis by (simp add: qrep_def)
qed

lemma qrep_only:
  "nodes w' = nodes w \<Longrightarrow> queues w' = queues w \<Longrightarrow> qrep w' q xs = qrep w q xs"
  by (simp add: qrep_def)

lemma qrepD:
  assumes "qrep w q xs"
  shows "q \<noteq> null" and "distinct xs" and "q \<notin> set xs" and "null \<notin> set xs"
    and "queues w q = Some \<lparr>qlen = of_nat (length xs), qoffset = 0\<rparr>"
  using assms by (auto simp: qrep_def)

lemma qrep_linked:
  assumes "qrep w q (ys @ zs)"
  shows "linked (nodes w) (last (q # ys)) (hd (zs @ [q]))"
proof -
  have "successively (linked (nodes w)) ((q # ys) @ (zs @ [q]))"
    using assms by (simp add: qrep_def)
  then show ?thesis
    unfolding successively_append_iff by simp
qed

lemma linked_node:
  "linked N a b \<Longrightarrow> \<exists>n m. N a = Some n \<and> lnext n = b \<and> N b = Some m \<and> lprev m = a"
  by (auto simp: linked_def nx_def pv_def)

lemma qrep_head:
  assumes "qrep w q xs"
  obtains h where "nodes w q = Some h" and "lnext h = hd (xs @ [q])" and "lprev h = last (q # xs)"
proof -
  from qrep_linked [of w q "[]" xs] assms
  have "nx (nodes w) q = Some (hd (xs @ [q]))" by (simp add: linked_def)
  moreover from qrep_linked [of w q xs "[]"] assms
  have "pv (nodes w) q = Some (last (q # xs))" by (simp add: linked_def)
  ultimately show ?thesis using that by (auto simp: nx_def pv_def)
qed

lemma qrep_node:
  assumes "qrep w q (ys @ x # zs)"
  obtains n where "nodes w x = Some n" and "lnext n = hd (zs @ [q])" and "lprev n = last (q # ys)"
proof -
  from qrep_linked [of w q "ys @ [x]" zs] assms
  have "nx (nodes w) x = Some (hd (zs @ [q]))" by (simp add: linked_def)
  moreover from qrep_linked [of w q ys "x # zs"] assms
  have "pv (nodes w) x = Some (last (q # ys))" by (simp add: linked_def)
  ultimately show ?thesis using that by (auto simp: nx_def pv_def)
qed

lemma qrep_live: "qrep w q xs \<Longrightarrow> x \<in> set (q # xs) \<Longrightarrow> nodes w x \<noteq> None"
  by (metis option.distinct(1) qrep_head qrep_node set_ConsD split_list)

section \<open>Insertion and deletion on well-formed queues\<close>

text \<open>
  \<open>touches q X w w'\<close>: a step on the queue \<open>q\<close> changed no node outside \<open>q\<close> and
  \<open>X\<close>, no other queue's length, no \<open>list_head\<close>'s liveness and nothing outside the
  queues.
\<close>

definition touches :: "ptr \<Rightarrow> ptr set \<Rightarrow> 'w qworld_scheme \<Rightarrow> 'w qworld_scheme \<Rightarrow> bool" where
  "touches q X w w' \<longleftrightarrow> outside_queues w' = outside_queues w
     \<and> (\<forall>r. r \<notin> insert q X \<longrightarrow> nodes w' r = nodes w r)
     \<and> (\<forall>r. r \<noteq> q \<longrightarrow> queues w' r = queues w r)
     \<and> dom (nodes w') = dom (nodes w)"

lemma touches_refl [simp]: "touches q X w w"
  by (simp add: touches_def)

lemma touches_trans: "touches q X w u \<Longrightarrow> touches q X u w' \<Longrightarrow> touches q X w w'"
  by (simp add: touches_def)

lemma touches_mono: "touches q X w w' \<Longrightarrow> X \<subseteq> Y \<Longrightarrow> touches q Y w w'"
  by (auto simp: touches_def)

lemma touches_detached: "touches q X w w' \<Longrightarrow> detached w' p = detached w p"
  by (auto simp: touches_def detached_def dom_def)

lemma touches_outside: "touches q X w w' \<Longrightarrow> outside_queues w' = outside_queues w"
  by (simp add: touches_def)

lemma touches_eq:
  assumes "touches q X w w'"
  shows "w' = w\<lparr>nodes := nodes w', queues := queues w'\<rparr>"
proof -
  have "w' = (outside_queues w')\<lparr>nodes := nodes w', queues := queues w'\<rparr>"
    by (simp add: outside_queues_def)
  also have "\<dots> = (outside_queues w)\<lparr>nodes := nodes w', queues := queues w'\<rparr>"
    using touches_outside [OF assms] by simp
  also have "\<dots> = w\<lparr>nodes := nodes w', queues := queues w'\<rparr>"
    by (simp add: outside_queues_def)
  finally show ?thesis .
qed

text \<open>A queue whose nodes a step does not touch stays as it is.\<close>

lemma touches_other_queue:
  assumes "touches q X w w'" and "qrep w r zs" and "r \<noteq> q"
    and "set (r # zs) \<inter> insert q X = {}"
  shows "qrep w' r zs"
  using assms(2)
proof (rule qrep_cong)
  show "nodes w' a = nodes w a" if "a \<in> set (r # zs)" for a
    using assms(1,4) that unfolding touches_def by blast
  show "queues w' r = queues w r"
    using assms(1,3) by (simp add: touches_def)
qed

lemma set_links_run:
  "nodes w p = Some n \<Longrightarrow> p \<noteq> null \<Longrightarrow>
     set_prev p v w = Ok () (w\<lparr>nodes := (nodes w)(p \<mapsto> n\<lparr>lprev := v\<rparr>)\<rparr>)"
  "nodes w p = Some n \<Longrightarrow> p \<noteq> null \<Longrightarrow>
     set_next p v w = Ok () (w\<lparr>nodes := (nodes w)(p \<mapsto> n\<lparr>lnext := v\<rparr>)\<rparr>)"
  "queues w q = Some m \<Longrightarrow> q \<noteq> null \<Longrightarrow>
     set_len q f w = Ok () (w\<lparr>queues := (queues w)(q \<mapsto> m\<lparr>qlen := f (qlen m)\<rparr>)\<rparr>)"
  by (simp_all add: set_prev_def set_next_def set_len_def run)

lemma list_add_run:
  assumes "null \<notin> {q, p, n, x}" and "x \<noteq> p" and "x \<noteq> n"
    and live: "nodes w p \<noteq> None" "nodes w n \<noteq> None" "nodes w x \<noteq> None"
    and q: "queues w q = Some m"
  shows "\<exists>w'. list_add q x p n w = Ok () w' \<and> touches q {p, n, x} w w'
    \<and> nx (nodes w') = (nx (nodes w))(x \<mapsto> n, p \<mapsto> x)
    \<and> pv (nodes w') = (pv (nodes w))(x \<mapsto> p, n \<mapsto> x)
    \<and> queues w' q = Some (m\<lparr>qlen := qlen m + 1\<rparr>)"
proof -
  from live obtain np nn nx' where
    "nodes w p = Some np" "nodes w n = Some nn" "nodes w x = Some nx'" by auto
  moreover from this have "nx (nodes w) n = Some (lnext nn)" "pv (nodes w) p = Some (lprev np)"
    by (simp_all add: nx_def pv_def)
  ultimately show ?thesis
    using assms(1-3) q by (cases "p = n")
      (auto simp: list_add_def run set_links_run touches_def outside_queues_def fun_eq_iff)
qed

lemma splice_sides:
  assumes d: "distinct (q # ys @ zs)" and x: "x \<notin> set (q # ys @ zs)"
    and left: "successively (linked N) (q # ys)" and right: "successively (linked N) (zs @ [q])"
    and nx: "\<And>a. a \<noteq> last (q # ys) \<Longrightarrow> a \<noteq> x \<Longrightarrow> nx N' a = nx N a"
    and pv: "\<And>b. b \<noteq> hd (zs @ [q]) \<Longrightarrow> b \<noteq> x \<Longrightarrow> pv N' b = pv N b"
  shows "successively (linked N') (q # ys)" and "successively (linked N') (zs @ [q])"
proof -
  have p: "last (q # ys) \<in> set (q # ys)" by (rule last_in_set) simp
  show "successively (linked N') (q # ys)"
  proof (rule successively_links_mono [OF left])
    have "last (q # ys) \<notin> set (butlast (q # ys))"
      using d by (metis append_Cons append_butlast_last_id distinct_append list.distinct(1)
          not_distinct_conv_prefix)
    then show "nx N' a = nx N a" if "a \<in> set (butlast (q # ys))" for a
      using that x in_set_butlastD [OF that] by (intro nx) auto
    have "hd (zs @ [q]) \<notin> set ys"
      using d by (cases zs) auto
    then show "pv N' b = pv N b" if "b \<in> set (tl (q # ys))" for b
      using that x by (intro pv) auto
  qed
  show "successively (linked N') (zs @ [q])"
  proof (rule successively_links_mono [OF right])
    have "last (q # ys) \<notin> set zs"
      using d p by (auto simp del: last.simps)
    then show "nx N' a = nx N a" if "a \<in> set (butlast (zs @ [q]))" for a
      using that x by (intro nx) (auto simp del: last.simps)
    have "hd (zs @ [q]) \<notin> set (tl (zs @ [q]))"
      using d by (cases zs) auto
    then show "pv N' b = pv N b" if "b \<in> set (tl (zs @ [q]))" for b
      using that x list.set_sel(2) [of "zs @ [q]" b] by (intro pv) auto
  qed
qed

lemma list_add_between:
  assumes rep: "qrep w q (ys @ zs)" and x: "detached w x" "x \<notin> set (q # ys @ zs)"
  shows "\<exists>w'. list_add q x (last (q # ys)) (hd (zs @ [q])) w = Ok () w'
    \<and> qrep w' q (ys @ x # zs) \<and> touches q (insert x (set (ys @ zs))) w w'"
proof -
  let ?p = "last (q # ys)" and ?n = "hd (zs @ [q])"
  have p: "?p \<in> set (q # ys)" by (rule last_in_set) simp
  have n: "?n \<in> set (zs @ [q])" by (rule hd_in_set) simp
  from p n have pn: "?p \<in> set (q # ys @ zs)" "?n \<in> set (q # ys @ zs)" by auto
  have q: "queues w q = Some \<lparr>qlen = of_nat (length (ys @ zs)), qoffset = 0\<rparr>"
    using rep by (rule qrepD)
  have ok: "null \<notin> {q, ?p, ?n, x}" "x \<noteq> ?p" "x \<noteq> ?n"
    using rep x pn by (auto simp: qrep_def detached_def)
  have live: "nodes w ?p \<noteq> None" "nodes w ?n \<noteq> None" "nodes w x \<noteq> None"
    using qrep_live [OF rep pn(1)] qrep_live [OF rep pn(2)] x(1) by (auto simp: detached_def)
  obtain w' where run: "list_add q x ?p ?n w = Ok () w'" and t: "touches q {?p, ?n, x} w w'"
    and nx: "nx (nodes w') = (nx (nodes w))(x \<mapsto> ?n, ?p \<mapsto> x)"
    and pv: "pv (nodes w') = (pv (nodes w))(x \<mapsto> ?p, ?n \<mapsto> x)"
    and len: "queues w' q = Some \<lparr>qlen = of_nat (length (ys @ zs)) + 1, qoffset = 0\<rparr>"
    using list_add_run [OF ok live q] by (auto simp del: last.simps)
  have d: "distinct (q # ys @ zs)" using rep by (simp add: qrep_def)
  have links: "successively (linked (nodes w)) ((q # ys) @ zs @ [q])"
    using rep by (simp add: qrep_def)
  have "successively (linked (nodes w)) (q # ys)" "successively (linked (nodes w)) (zs @ [q])"
    using links unfolding successively_append_iff by simp_all
  then have left: "successively (linked (nodes w')) (q # ys)"
    and right: "successively (linked (nodes w')) (zs @ [q])"
    by (rule splice_sides [OF d x(2)]; simp add: nx pv del: last.simps)+
  have join: "linked (nodes w') ?p x" "linked (nodes w') x ?n"
    using ok(2,3) by (simp_all add: linked_def nx pv del: last.simps)
  have "successively (linked (nodes w')) (x # zs @ [q])"
    unfolding successively_Cons using right join(2) by blast
  with left join(1) have "successively (linked (nodes w')) ((q # ys) @ x # zs @ [q])"
    by (simp only: successively_append_iff list.sel simp_thms)
  then have "qrep w' q (ys @ x # zs)"
    using d x rep len by (auto simp: qrep_def detached_def)
  moreover have "touches q (insert x (set (ys @ zs))) w w'"
    using t p n by (auto simp: touches_def simp del: last.simps)
  ultimately show ?thesis using run by blast
qed

lemma queue_add_run:
  assumes "qrep w q xs" and "detached w x" and "x \<notin> set (q # xs)"
  shows "\<exists>w'. queue_add q x w = Ok () w' \<and> qrep w' q (x # xs) \<and> touches q (insert x (set xs)) w w'"
proof -
  from qrep_head [OF assms(1)] obtain h where "nodes w q = Some h" "lnext h = hd (xs @ [q])"
    by metis
  with qrepD(1) [OF assms(1)] list_add_between [of w q "[]" xs x] assms show ?thesis
    by (auto simp: queue_add_def run)
qed

lemma queue_add_tail_run:
  assumes "qrep w q xs" and "detached w x" and "x \<notin> set (q # xs)"
  shows "\<exists>w'. queue_add_tail q x w = Ok () w' \<and> qrep w' q (xs @ [x])
    \<and> touches q (insert x (set xs)) w w'"
proof -
  from qrep_head [OF assms(1)] obtain h where "nodes w q = Some h" "lprev h = last (q # xs)"
    by metis
  with qrepD(1) [OF assms(1)] list_add_between [of w q xs "[]" x] assms show ?thesis
    by (auto simp: queue_add_tail_def run simp del: last.simps)
qed

lemma queue_add_before_run:
  assumes "qrep w q (ys @ t # zs)" and "detached w x" and "x \<notin> set (q # ys @ t # zs)"
  shows "\<exists>w'. queue_add_before q x t w = Ok () w' \<and> qrep w' q (ys @ x # t # zs)
    \<and> touches q (insert x (set (ys @ t # zs))) w w'"
proof -
  from qrep_node [OF assms(1)] obtain n where "nodes w t = Some n" "lprev n = last (q # ys)"
    by metis
  moreover have "t \<noteq> null" using assms(1) by (auto simp: qrep_def)
  ultimately show ?thesis
    using list_add_between [of w q ys "t # zs" x] assms
    by (auto simp: queue_add_before_def run simp del: last.simps)
qed

lemma queue_del_links:
  assumes "null \<notin> {q, p, n, x}" and "x \<noteq> p" and "x \<noteq> n"
    and x: "nodes w x = Some d" "lprev d = p" "lnext d = n"
    and live: "nodes w p \<noteq> None" "nodes w n \<noteq> None"
    and q: "queues w q = Some m"
  shows "\<exists>w'. queue_del q x w = Ok () w' \<and> touches q {p, n, x} w w'
    \<and> nx (nodes w') = (nx (nodes w))(p \<mapsto> n, x \<mapsto> null)
    \<and> pv (nodes w') = (pv (nodes w))(n \<mapsto> p, x \<mapsto> null)
    \<and> queues w' q = Some (m\<lparr>qlen := qlen m - 1\<rparr>)"
proof -
  obtain np where np: "nodes w p = Some np" using live by auto
  let ?M = "(nodes w)(p \<mapsto> np\<lparr>lnext := n\<rparr>)"
  obtain nn where nn: "?M n = Some nn" using live by (cases "?M n") (auto split: if_splits)
  let ?N = "?M(n \<mapsto> nn\<lparr>lprev := p\<rparr>)"
  let ?L = "?N(x \<mapsto> d\<lparr>lnext := null, lprev := null\<rparr>)"
  let ?w = "w\<lparr>nodes := ?L, queues := (queues w)(q \<mapsto> m\<lparr>qlen := qlen m - 1\<rparr>)\<rparr>"
  have dx: "?N x = Some d" using assms(2,3) x by simp
  have "queue_del q x w = Ok () ?w"
    unfolding queue_del_def using assms(1) x np nn dx q
    by (simp only: run set_links_run simp_thms load_run insert_iff) (simp add: run set_links_run)
  moreover have "nx ?L = (nx (nodes w))(p \<mapsto> n, x \<mapsto> null)"
    using nn assms(2,3) np by (intro ext) (auto simp: nx_def)
  moreover have "pv ?L = (pv (nodes w))(n \<mapsto> p, x \<mapsto> null)"
    using nn assms(2,3) np by (intro ext) (auto simp: pv_def)
  moreover have "touches q {p, n, x} w ?w"
    using np nn live x by (auto simp: touches_def outside_queues_def)
  ultimately show ?thesis by simp
qed

lemma queue_del_run:
  assumes rep: "qrep w q (ys @ x # zs)"
  shows "\<exists>w'. queue_del q x w = Ok () w' \<and> qrep w' q (ys @ zs) \<and> detached w' x
    \<and> touches q (set (ys @ x # zs)) w w'"
proof -
  let ?p = "last (q # ys)" and ?n = "hd (zs @ [q])"
  have p: "?p \<in> set (q # ys)" by (rule last_in_set) simp
  have n: "?n \<in> set (zs @ [q])" by (rule hd_in_set) simp
  from p n have pn: "?p \<in> set (q # ys @ x # zs)" "?n \<in> set (q # ys @ x # zs)" by auto
  have d: "distinct (q # ys @ x # zs)" using rep by (simp add: qrep_def)
  then have x: "x \<notin> set (q # ys @ zs)" and d': "distinct (q # ys @ zs)" by auto
  have ok: "null \<notin> {q, ?p, ?n, x}" "x \<noteq> ?p" "x \<noteq> ?n"
  proof -
    have "null \<notin> set (q # ys @ x # zs)" using rep by (simp add: qrep_def)
    with pn show "null \<notin> {q, ?p, ?n, x}" by (simp del: last.simps) (metis (no_types))
    have "set (q # ys) \<union> set (zs @ [q]) \<subseteq> set (q # ys @ zs)" by auto
    with p n x show "x \<noteq> ?p" "x \<noteq> ?n" by blast+
  qed
  from qrep_node [OF rep] obtain m where m: "nodes w x = Some m" "lprev m = ?p" "lnext m = ?n"
    by metis
  obtain w' where run: "queue_del q x w = Ok () w'" and t: "touches q {?p, ?n, x} w w'"
    and nx: "nx (nodes w') = (nx (nodes w))(?p \<mapsto> ?n, x \<mapsto> null)"
    and pv: "pv (nodes w') = (pv (nodes w))(?n \<mapsto> ?p, x \<mapsto> null)"
    and len: "queues w' q = Some \<lparr>qlen = of_nat (length (ys @ x # zs)) - 1, qoffset = 0\<rparr>"
    using queue_del_links [OF ok m qrep_live [OF rep pn(1)] qrep_live [OF rep pn(2)] qrepD(5) [OF rep]]
    by (elim exE conjE) (rule that, simp_all del: last.simps)
  have links: "successively (linked (nodes w)) ((q # ys) @ x # zs @ [q])"
    using rep by (simp add: qrep_def)
  have "successively (linked (nodes w)) (q # ys)"
    using links unfolding successively_append_iff by simp
  moreover have "successively (linked (nodes w)) (zs @ [q])"
    using links by (cases zs) (auto simp: successively_append_iff successively_Cons)
  ultimately have left: "successively (linked (nodes w')) (q # ys)"
    and right: "successively (linked (nodes w')) (zs @ [q])"
    by (rule splice_sides [OF d' x]; simp add: nx pv del: last.simps)+
  have "linked (nodes w') ?p ?n"
    using ok(2,3) by (simp add: linked_def nx pv del: last.simps)
  with left right have "successively (linked (nodes w')) ((q # ys) @ zs @ [q])"
    by (simp only: successively_append_iff simp_thms)
  then have "qrep w' q (ys @ zs)"
    using d rep len by (auto simp: qrep_def)
  moreover have "touches q (set (ys @ x # zs)) w w'"
    using t p n by (auto simp: touches_def simp del: last.simps)
  moreover have "detached w' x"
    using touches_detached [OF t, of x] m(1) ok(1) by (simp add: detached_def)
  ultimately show ?thesis using run by blast
qed

lemma queue_first_entry_run:
  assumes "qrep w q xs"
  shows "queue_first_entry q w = Ok (case xs of [] \<Rightarrow> null | x # _ \<Rightarrow> x) w"
proof -
  from qrep_head [OF assms] obtain h where "nodes w q = Some h" "lnext h = hd (xs @ [q])"
    by metis
  with qrepD [OF assms] show ?thesis
    by (cases xs) (auto simp: queue_first_entry_def isEmpty_def list_entry_def run)
qed

lemma isEmpty_run:
  assumes "qrep w q xs"
  shows "isEmpty q w = Ok (xs = []) w"
proof -
  from qrep_head [OF assms] obtain h where "nodes w q = Some h" "lnext h = hd (xs @ [q])"
    by metis
  with qrepD [OF assms] show ?thesis
    by (cases xs) (auto simp: isEmpty_def run)
qed

lemma dequeue_empty_run: "qrep w q [] \<Longrightarrow> dequeue q w = Ok null w"
  by (simp add: dequeue_def run queue_first_entry_run)

lemma dequeue_run:
  assumes "qrep w q (x # xs)"
  shows "\<exists>w'. dequeue q w = Ok x w' \<and> qrep w' q xs \<and> detached w' x
    \<and> touches q (set (x # xs)) w w'"
proof -
  from qrep_head [OF assms] obtain h where h: "nodes w q = Some h" "lnext h = x"
    by (metis append_Cons list.sel(1))
  from queue_del_run [of w q "[]" x xs] assms obtain w' where
    del: "queue_del q x w = Ok () w'" and rest: "qrep w' q xs" "detached w' x" "touches q (set (x # xs)) w w'"
    by auto
  have "x \<noteq> null" and "q \<noteq> null" using assms by (auto simp: qrep_def)
  with h del queue_first_entry_run [OF assms] have "dequeue q w = Ok x w'"
    by (simp add: dequeue_def run)
  with rest show ?thesis by blast
qed

end
