(* ===== verification/Queue_Interface.thy ===== *)
theory Queue_Interface
  imports Intrusive_Queue
begin

text \<open>
  What the clients of the intrusive queue rest on: proof rules for its two traversals and
  for \<open>clear_queue\<close>, and the interface of a first-in first-out queue as a locale,
  interpreted on the pointer-level operations.
\<close>

section \<open>Traversals\<close>

text \<open>
  A traversal with early exit, over a list. \<open>scan g xs s\<close> is what a read-only loop body
  \<open>g\<close> computes.
\<close>

fun scan :: "('x \<Rightarrow> 's \<Rightarrow> bool \<times> 's) \<Rightarrow> 'x list \<Rightarrow> 's \<Rightarrow> 's" where
  "scan g [] s = s"
| "scan g (x # xs) s = (case g x s of (brk, s') \<Rightarrow> if brk then s' else scan g xs s')"

lemma list_for_each_from_rule:
  assumes step: "\<And>ys x zs s w. xs = ys @ x # zs \<Longrightarrow> I ys s w \<Longrightarrow>
      \<exists>b s' w'. f x s w = Ok (b, s') w' \<and>
        (if b then Q s' w' else I (ys @ [x]) s' w' \<and> nx (nodes w') x = Some (hd (zs @ [q])))"
    and finish: "\<And>s w. I xs s w \<Longrightarrow> Q s w"
    and wf: "q \<notin> set xs" "null \<notin> set xs"
  shows "xs = ys @ zs \<Longrightarrow> I ys s w \<Longrightarrow>
    \<exists>s' w'. list_for_each_from q (hd (zs @ [q])) f s w = Ok s' w' \<and> Q s' w'"
proof (induction zs arbitrary: ys s w)
  case Nil
  with finish show ?case by (subst list_for_each_from.simps) auto
next
  case (Cons x zs)
  from step [OF Cons.prems] obtain b s' w' where
    f: "f x s w = Ok (b, s') w'"
    and next_: "if b then Q s' w' else I (ys @ [x]) s' w' \<and> nx (nodes w') x = Some (hd (zs @ [q]))"
    by blast
  have x: "x \<noteq> q" "x \<noteq> null" using Cons.prems(1) wf by auto
  show ?case
  proof (cases b)
    case True
    with f next_ x show ?thesis by (subst list_for_each_from.simps) (auto simp: run)
  next
    case False
    with next_ have inv: "I (ys @ [x]) s' w'" and nx: "nx (nodes w') x = Some (hd (zs @ [q]))" by auto
    from Cons.IH [OF _ inv] Cons.prems(1) obtain s'' w'' where
      "list_for_each_from q (hd (zs @ [q])) f s' w' = Ok s'' w''" "Q s'' w''" by auto
    moreover from nx obtain n where "nodes w' x = Some n" "lnext n = hd (zs @ [q])"
      by (auto simp: nx_def)
    ultimately show ?thesis
      using f False x by (subst list_for_each_from.simps) (auto simp: run)
  qed
qed

lemma list_for_each_rule:
  assumes rep: "qrep w q xs" and start: "I [] s w"
    and step: "\<And>ys x zs s w. xs = ys @ x # zs \<Longrightarrow> I ys s w \<Longrightarrow>
      \<exists>b s' w'. f x s w = Ok (b, s') w' \<and>
        (if b then Q s' w' else I (ys @ [x]) s' w' \<and> nx (nodes w') x = Some (hd (zs @ [q])))"
    and finish: "\<And>s w. I xs s w \<Longrightarrow> Q s w"
  shows "\<exists>s' w'. list_for_each q f s w = Ok s' w' \<and> Q s' w'"
proof -
  from qrep_head [OF rep] obtain h where "nodes w q = Some h" "lnext h = hd (xs @ [q])" by metis
  with list_for_each_from_rule [of xs I f Q q "[]" xs s w] assms qrepD [OF rep] show ?thesis
    by (simp add: list_for_each_def run)
qed

text \<open>A loop body that reads only computes \<open>scan\<close> and leaves the state as it is.\<close>

lemma list_for_each_pure:
  assumes rep: "qrep w q xs"
    and step: "\<And>x s. x \<in> set xs \<Longrightarrow> f x s w = Ok (g x s) w"
  shows "list_for_each q f s w = Ok (scan g xs s) w"
proof -
  have "\<exists>s' w'. list_for_each q f s w = Ok s' w' \<and> s' = scan g xs s \<and> w' = w"
  proof (rule list_for_each_rule [OF rep, where
        I = "\<lambda>ys t u. u = w \<and> (\<exists>zs. xs = ys @ zs \<and> scan g zs t = scan g xs s)"])
    show "w = w \<and> (\<exists>zs. xs = [] @ zs \<and> scan g zs s = scan g xs s)" by simp
  next
    fix ys x zs t u
    assume xs: "xs = ys @ x # zs"
      and inv: "u = w \<and> (\<exists>zs. xs = ys @ zs \<and> scan g zs t = scan g xs s)"
    then have u: "u = w" and t: "scan g (x # zs) t = scan g xs s" by auto
    obtain b t' where g: "g x t = (b, t')" by (cases "g x t")
    have "f x t u = Ok (b, t') w" using step [of x t] xs u g by simp
    moreover have "nx (nodes w) x = Some (hd (zs @ [q]))"
      using qrep_linked [of w q "ys @ [x]" zs] rep xs by (simp add: linked_def)
    ultimately show "\<exists>b t' u'. f x t u = Ok (b, t') u' \<and>
        (if b then t' = scan g xs s \<and> u' = w
         else (u' = w \<and> (\<exists>zs. xs = (ys @ [x]) @ zs \<and> scan g zs t' = scan g xs s))
           \<and> nx (nodes u') x = Some (hd (zs @ [q])))"
      using xs t g by auto
  qed auto
  then show ?thesis by blast
qed

lemma list_for_each_first:
  assumes rep: "qrep w q (ys @ x # zs)" and pass: "\<And>y. y \<in> set ys \<Longrightarrow> f y s w = Ok (False, s) w"
    and hit: "f x s w = Ok (True, s') w'"
  shows "list_for_each q f s w = Ok s' w'"
proof -
  have "\<exists>r v. list_for_each q f s w = Ok r v \<and> r = s' \<and> v = w'"
  proof (rule list_for_each_rule [OF rep, where I = "\<lambda>as u v. v = w \<and> u = s \<and> length as \<le> length ys"])
    fix as b bs u v
    assume as: "ys @ x # zs = as @ b # bs" and inv: "v = w \<and> u = s \<and> length as \<le> length ys"
    have nx: "nx (nodes w) b = Some (hd (bs @ [q]))"
      using qrep_linked [of w q "as @ [b]" bs] rep as by (simp add: linked_def)
    show "\<exists>r t v'. f b u v = Ok (r, t) v' \<and> (if r then t = s' \<and> v' = w'
        else (v' = w \<and> t = s \<and> length (as @ [b]) \<le> length ys) \<and> nx (nodes v') b = Some (hd (bs @ [q])))"
    proof (cases "length as < length ys")
      case True
      have "(ys @ x # zs) ! length as = b" using as by simp
      then have "b \<in> set ys" using True by (metis nth_append nth_mem)
      with pass inv True nx show ?thesis by (intro exI [of _ False] exI [of _ s] exI [of _ w]) simp
    next
      case False
      with inv have "length as = length ys" by simp
      with as have "b = x" by (simp add: append_eq_append_conv)
      with hit inv show ?thesis by (intro exI [of _ True] exI [of _ s'] exI [of _ w']) simp
    qed
  qed auto
  then show ?thesis by blast
qed

lemma list_for_each_safe_from_rule:
  assumes step: "\<And>ys x zs s w. xs = ys @ x # zs \<Longrightarrow> I ys s w \<Longrightarrow>
      \<exists>b s' w'. f x s w = Ok (b, s') w' \<and>
        (if b then Q s' w' else I (ys @ [x]) s' w'
           \<and> (\<forall>a \<in> set zs. nx (nodes w') a = nx (nodes w) a) \<and> nodes w' q \<noteq> None)"
    and finish: "\<And>s w. I xs s w \<Longrightarrow> Q s w"
    and wf: "q \<notin> set xs" "null \<notin> set xs" "q \<noteq> null" "distinct xs"
  shows "xs = ys @ zs \<Longrightarrow> I ys s w \<Longrightarrow> nodes w q \<noteq> None \<Longrightarrow>
    (\<forall>as a bs. zs = as @ a # bs \<longrightarrow> nx (nodes w) a = Some (hd (bs @ [q]))) \<Longrightarrow>
    nx (nodes w) (hd (zs @ [q])) = Some p \<Longrightarrow>
    \<exists>s' w'. list_for_each_safe_from q (hd (zs @ [q])) p f s w = Ok s' w' \<and> Q s' w'"
proof (induction zs arbitrary: ys s w p)
  case Nil
  with finish show ?case by (subst list_for_each_safe_from.simps) auto
next
  case (Cons x zs)
  have p: "p = hd (zs @ [q])"
    using Cons.prems(4) [rule_format, of "[]" x zs] Cons.prems(5) by simp
  from step [OF Cons.prems(1,2)] obtain b s' w' where
    f: "f x s w = Ok (b, s') w'"
    and next_: "if b then Q s' w' else I (ys @ [x]) s' w'
           \<and> (\<forall>a \<in> set zs. nx (nodes w') a = nx (nodes w) a) \<and> nodes w' q \<noteq> None"
    by blast
  have x: "x \<noteq> q" "x \<noteq> null" using Cons.prems(1) wf by auto
  show ?case
  proof (cases b)
    case True
    with f next_ x show ?thesis by (subst list_for_each_safe_from.simps) (auto simp: run)
  next
    case False
    with next_ have inv: "I (ys @ [x]) s' w'"
      and same_nx: "\<And>a. a \<in> set zs \<Longrightarrow> nx (nodes w') a = nx (nodes w) a"
      and q: "nodes w' q \<noteq> None" by auto
    have links: "\<forall>as a bs. zs = as @ a # bs \<longrightarrow> nx (nodes w') a = Some (hd (bs @ [q]))"
    proof (intro allI impI)
      fix as a bs
      assume "zs = as @ a # bs"
      then show "nx (nodes w') a = Some (hd (bs @ [q]))"
        using Cons.prems(4) [rule_format, of "x # as" a bs] same_nx [of a] by simp
    qed
    have "p \<noteq> null" using Cons.prems(1) wf p by (cases zs) auto
    have "nodes w' p \<noteq> None"
      using q links [rule_format, of "[]"] p by (cases zs) (auto simp: nx_def)
    then obtain n where n: "nodes w' p = Some n" by auto
    have "\<exists>s'' w''. list_for_each_safe_from q (hd (zs @ [q])) (lnext n) f s' w' = Ok s'' w'' \<and> Q s'' w''"
      by (rule Cons.IH [OF _ inv q links]) (use Cons.prems(1) n p in \<open>simp_all add: nx_def\<close>)
    then show ?thesis
      using f False x n \<open>p \<noteq> null\<close> p by (subst list_for_each_safe_from.simps) (auto simp: run)
  qed
qed

text \<open>
  The safe traversal: the body may take the current node out of the queue, so long as it
  leaves the links of the nodes still to come.
\<close>

lemma list_for_each_safe_rule:
  assumes rep: "qrep w q xs" and start: "I [] s w"
    and step: "\<And>ys x zs s w. xs = ys @ x # zs \<Longrightarrow> I ys s w \<Longrightarrow>
      \<exists>b s' w'. f x s w = Ok (b, s') w' \<and>
        (if b then Q s' w' else I (ys @ [x]) s' w'
           \<and> (\<forall>a \<in> set zs. nx (nodes w') a = nx (nodes w) a) \<and> nodes w' q \<noteq> None)"
    and finish: "\<And>s w. I xs s w \<Longrightarrow> Q s w"
  shows "\<exists>s' w'. list_for_each_safe q f s w = Ok s' w' \<and> Q s' w'"
proof -
  from qrep_head [OF rep] obtain h where h: "nodes w q = Some h" "lnext h = hd (xs @ [q])" by metis
  have links: "\<forall>as a bs. xs = as @ a # bs \<longrightarrow> nx (nodes w) a = Some (hd (bs @ [q]))"
  proof (intro allI impI)
    fix as a bs
    assume "xs = as @ a # bs"
    then show "nx (nodes w) a = Some (hd (bs @ [q]))"
      using qrep_linked [of w q "as @ [a]" bs] rep by (simp add: linked_def)
  qed
  have "lnext h \<in> set (q # xs)" using h(2) by (cases xs) auto
  with qrep_live [OF rep] obtain n where n: "nodes w (lnext h) = Some n" by blast
  have "lnext h \<noteq> null" using \<open>lnext h \<in> set (q # xs)\<close> rep unfolding qrep_def by metis
  have "\<exists>s' w'. list_for_each_safe_from q (hd (xs @ [q])) (lnext n) f s w = Ok s' w' \<and> Q s' w'"
    by (rule list_for_each_safe_from_rule
        [where I = I and Q = Q and q = q and xs = xs and ys = "[]", OF step finish])
      (use qrepD [OF rep] start links h n in \<open>auto simp: nx_def\<close>)
  with h n \<open>lnext h \<noteq> null\<close> qrepD(1) [OF rep] show ?thesis
    by (simp add: list_for_each_safe_def run)
qed

lemma qrep_suffix_nx:
  assumes "qrep w q (ys @ zs)" and "qrep w' q (ys' @ zs)" and "a \<in> set zs"
  shows "nx (nodes w') a = nx (nodes w) a"
proof -
  from assms(3) obtain as bs where zs: "zs = as @ a # bs" by (auto dest: split_list)
  have "nx (nodes w) a = Some (hd (bs @ [q]))"
    using qrep_linked [of w q "ys @ as @ [a]" bs] assms(1) zs by (simp add: linked_def)
  moreover have "nx (nodes w') a = Some (hd (bs @ [q]))"
    using qrep_linked [of w' q "ys' @ as @ [a]" bs] assms(2) zs by (simp add: linked_def)
  ultimately show ?thesis by simp
qed

text \<open>The same rule for an invariant that says which nodes of the queue are left.\<close>

lemma list_for_each_safe_filter:
  assumes rep: "qrep w q xs" and start: "I [] s w"
    and queue: "\<And>ys zs s w. xs = ys @ zs \<Longrightarrow> I ys s w \<Longrightarrow> \<exists>left. qrep w q (left @ zs)"
    and step: "\<And>ys x zs s w. xs = ys @ x # zs \<Longrightarrow> I ys s w \<Longrightarrow>
      \<exists>b s' w'. f x s w = Ok (b, s') w' \<and> (if b then Q s' w' else I (ys @ [x]) s' w')"
    and finish: "\<And>s w. I xs s w \<Longrightarrow> Q s w"
  shows "\<exists>s' w'. list_for_each_safe q f s w = Ok s' w' \<and> Q s' w'"
proof (rule list_for_each_safe_rule [where I = I, OF rep start _ finish])
  fix ys x zs s w
  assume xs: "xs = ys @ x # zs" and inv: "I ys s w"
  from step [OF xs inv] obtain b s' w' where
    f: "f x s w = Ok (b, s') w'" "if b then Q s' w' else I (ys @ [x]) s' w'" by blast
  show "\<exists>b s' w'. f x s w = Ok (b, s') w' \<and>
      (if b then Q s' w' else I (ys @ [x]) s' w'
         \<and> (\<forall>a \<in> set zs. nx (nodes w') a = nx (nodes w) a) \<and> nodes w' q \<noteq> None)"
  proof (cases b)
    case True
    with f show ?thesis by auto
  next
    case False
    from queue [OF xs inv] obtain l where "qrep w q ((l @ [x]) @ zs)" by auto
    moreover from queue [of "ys @ [x]" zs s' w'] xs f(2) False
    obtain l' where l': "qrep w' q (l' @ zs)" by auto
    ultimately have "\<forall>a \<in> set zs. nx (nodes w') a = nx (nodes w) a"
      using qrep_suffix_nx by blast
    moreover have "nodes w' q \<noteq> None" using qrep_live [OF l', of q] by simp
    ultimately show ?thesis using f False by auto
  qed
qed

text \<open>
  A traversal whose body leaves the links alone is a recursion over the queue's nodes, with
  the same faults and the same divergence.
\<close>

fun scan_m :: "('x \<Rightarrow> 's \<Rightarrow> ('w, bool \<times> 's) M) \<Rightarrow> 'x list \<Rightarrow> 's \<Rightarrow> ('w, 's) M" where
  "scan_m f [] s = ret s"
| "scan_m f (x # xs) s = bnd (f x s) (\<lambda>(brk, s'). if brk then ret s' else scan_m f xs s')"

lemma list_for_each_safe_from_scan_m:
  assumes rep: "qrep w q xs" and f: "\<And>x s. keeps (same nodes) (f x s)"
  shows "xs = ys @ zs \<Longrightarrow> nodes u = nodes w \<Longrightarrow> (zs \<noteq> [] \<longrightarrow> p = hd (tl zs @ [q])) \<Longrightarrow>
    list_for_each_safe_from q (hd (zs @ [q])) p f s u = scan_m f zs s u"
proof (induction zs arbitrary: ys s u p)
  case Nil
  then show ?case by (subst list_for_each_safe_from.simps) (simp add: run)
next
  case (Cons x zs)
  have x: "x \<noteq> q" using Cons.prems(1) rep by (auto simp: qrep_def)
  have p: "p = hd (zs @ [q])" using Cons.prems(3) by simp
  have inset: "p \<in> set (q # xs)"
    using p Cons.prems(1) by (cases zs) auto
  with qrep_live [OF rep] obtain n where n: "nodes w p = Some n" by blast
  have "p \<noteq> null" using inset rep unfolding qrep_def by metis
  have tail: "list_for_each_safe_from q p (lnext n) f s' u' = scan_m f zs s' u'"
    if "nodes u' = nodes w" for s' u'
  proof -
    have "zs \<noteq> [] \<longrightarrow> lnext n = hd (tl zs @ [q])"
    proof
      assume "zs \<noteq> []"
      then have "xs = (ys @ [x]) @ p # tl zs" using Cons.prems(1) p by (cases zs) auto
      then have "linked (nodes w) p (hd (tl zs @ [q]))"
        using qrep_linked [of w q "ys @ [x] @ [p]" "tl zs"] rep by simp
      then show "lnext n = hd (tl zs @ [q])" using n by (simp add: linked_def nx_def)
    qed
    then show ?thesis
      using Cons.IH [of "ys @ [x]" u' "lnext n" s'] Cons.prems(1) that p by simp
  qed
  have step: "bnd (f x s) (\<lambda>(brk, s'). if brk then ret s'
      else bnd (load nodes p) (\<lambda>n. list_for_each_safe_from q p (lnext n) f s')) u
    = bnd (f x s) (\<lambda>(brk, s'). if brk then ret s' else scan_m f zs s') u"
  proof (rule bnd_cong [OF refl refl])
    fix r u'
    assume "f x s u = Ok r u'"
    with keepsD [OF f] have "nodes u' = nodes u" by (simp add: same_def)
    then show "(case r of (brk, s') \<Rightarrow> if brk then ret s'
        else bnd (load nodes p) (\<lambda>n. list_for_each_safe_from q p (lnext n) f s')) u'
      = (case r of (brk, s') \<Rightarrow> if brk then ret s' else scan_m f zs s') u'"
      using Cons.prems(2) n \<open>p \<noteq> null\<close> tail [of u'] by (auto simp: run split: prod.split)
  qed
  show ?case
    using x step by (subst list_for_each_safe_from.simps) simp
qed

lemma list_for_each_safe_scan_m:
  assumes rep: "qrep w q xs" and f: "\<And>x s. keeps (same nodes) (f x s)"
  shows "list_for_each_safe q f s w = scan_m f xs s w"
proof -
  from qrep_head [OF rep] obtain h where h: "nodes w q = Some h" "lnext h = hd (xs @ [q])" by metis
  have inset: "lnext h \<in> set (q # xs)" using h(2) by (cases xs) auto
  with qrep_live [OF rep] obtain n where n: "nodes w (lnext h) = Some n" by blast
  have nz: "lnext h \<noteq> null" "q \<noteq> null" using inset rep unfolding qrep_def by auto
  have "xs \<noteq> [] \<longrightarrow> lnext n = hd (tl xs @ [q])"
  proof
    assume "xs \<noteq> []"
    then have "xs = [] @ lnext h # tl xs" using h(2) by (cases xs) auto
    then have "linked (nodes w) (lnext h) (hd (tl xs @ [q]))"
      using qrep_linked [of w q "[lnext h]" "tl xs"] rep by simp
    then show "lnext n = hd (tl xs @ [q])" using n by (simp add: linked_def nx_def)
  qed
  then show ?thesis
    using list_for_each_safe_from_scan_m [where ys = "[]" and zs = xs and u = w and p = "lnext n" and s = s, OF rep f] h n nz
    by (simp add: list_for_each_safe_def run)
qed

text \<open>A traversal that only looks at the nodes before the one it stops at, and one that only looks.\<close>

lemma list_for_each_safe_first:
  assumes rep: "qrep w q (ys @ x # zs)" and pass: "\<And>y. y \<in> set ys \<Longrightarrow> f y s w = Ok (False, s) w"
    and hit: "f x s w = Ok (True, s') w'"
  shows "list_for_each_safe q f s w = Ok s' w'"
proof -
  have "\<exists>r v. list_for_each_safe q f s w = Ok r v \<and> r = s' \<and> v = w'"
  proof (rule list_for_each_safe_rule [OF rep, where I = "\<lambda>as u v. v = w \<and> u = s \<and> length as \<le> length ys"])
    fix as b bs u v
    assume as: "ys @ x # zs = as @ b # bs" and inv: "v = w \<and> u = s \<and> length as \<le> length ys"
    have h: "nodes w q \<noteq> None" using qrep_live [OF rep, of q] by simp
    show "\<exists>r t v'. f b u v = Ok (r, t) v' \<and> (if r then t = s' \<and> v' = w'
        else (v' = w \<and> t = s \<and> length (as @ [b]) \<le> length ys)
          \<and> (\<forall>a \<in> set bs. nx (nodes v') a = nx (nodes v) a) \<and> nodes v' q \<noteq> None)"
    proof (cases "length as < length ys")
      case True
      have "(ys @ x # zs) ! length as = b" using as by simp
      then have "ys ! length as = b" using True by (simp add: nth_append)
      then have "b \<in> set ys" using True nth_mem by blast
      with pass inv True h show ?thesis by (intro exI [of _ False] exI [of _ s] exI [of _ w]) simp
    next
      case False
      with inv have "length as = length ys" by simp
      with as have "b = x" by (simp add: append_eq_append_conv)
      with hit inv show ?thesis by (intro exI [of _ True] exI [of _ s'] exI [of _ w']) simp
    qed
  qed auto
  then show ?thesis by blast
qed

lemma list_for_each_safe_none:
  assumes rep: "qrep w q xs" and pass: "\<And>y. y \<in> set xs \<Longrightarrow> f y s w = Ok (False, s) w"
  shows "list_for_each_safe q f s w = Ok s w"
proof -
  have "\<exists>r v. list_for_each_safe q f s w = Ok r v \<and> r = s \<and> v = w"
  proof (rule list_for_each_safe_filter [OF rep, where I = "\<lambda>ys u v. v = w \<and> u = s"])
    show "\<exists>b t v'. f x u v = Ok (b, t) v' \<and> (if b then t = s \<and> v' = w else v' = w \<and> t = s)"
      if "xs = ys @ x # zs" "v = w \<and> u = s" for ys x zs u v
      using pass [of x] that by (intro exI [of _ False] exI [of _ s] exI [of _ w]) simp
  qed (use rep in auto)
  then show ?thesis by blast
qed

text \<open>\<open>clear_queue\<close> empties a well-formed queue, front to back, and returns.\<close>

lemma clear_queue_rule:
  assumes step: "\<And>x xs w. qrep w q xs \<Longrightarrow> I (x # xs) w \<Longrightarrow>
      \<exists>w'. cleaner x w = Ok () w' \<and> qrep w' q xs \<and> I xs w'"
    and del: "\<And>x xs w w'. qrep w q (x # xs) \<Longrightarrow> I (x # xs) w \<Longrightarrow> detached w' x \<Longrightarrow>
      touches q (set (x # xs)) w w' \<Longrightarrow> I (x # xs) w'"
  shows "qrep w q xs \<Longrightarrow> I xs w \<Longrightarrow> \<exists>w'. clear_queue q cleaner w = Ok () w' \<and> qrep w' q [] \<and> I [] w'"
proof (induction xs arbitrary: w)
  case Nil
  then show ?case by (subst clear_queue.simps) (simp add: run dequeue_empty_run)
next
  case (Cons x xs)
  from dequeue_run [OF Cons.prems(1)] obtain w1 where
    deq: "dequeue q w = Ok x w1" "qrep w1 q xs" "detached w1 x" "touches q (set (x # xs)) w w1" by blast
  from del [OF Cons.prems deq(3,4)] have "I (x # xs) w1" .
  from step [OF deq(2) this] obtain w2 where
    clean: "cleaner x w1 = Ok () w2" "qrep w2 q xs" "I xs w2" by blast
  from Cons.IH [OF clean(2,3)] obtain w' where
    "clear_queue q cleaner w2 = Ok () w'" "qrep w' q []" "I [] w'" by blast
  moreover have "x \<noteq> null" using Cons.prems(1) by (auto simp: qrep_def)
  ultimately show ?case
    using deq(1) clean(1) by (subst clear_queue.simps) (simp add: run)
qed

text \<open>A cleaner that deletes the object of each node leaves none of the queue's objects.\<close>

lemma clear_queue_frees:
  assumes rep: "qrep w q xs" and live: "\<forall>x \<in> set xs. obj w x \<noteq> None"
    and clean: "\<And>x u. x \<noteq> null \<Longrightarrow> obj u x \<noteq> None \<Longrightarrow> \<exists>u'. cleaner x u = Ok () u'
      \<and> obj u' = (obj u)(x := None) \<and> nodes u' = (nodes u)(x := None) \<and> queues u' = queues u"
    and frame: "\<And>X u u'. touches q X u u' \<Longrightarrow> obj u' = obj u"
  shows "\<exists>w'. clear_queue q cleaner w = Ok () w' \<and> qrep w' q []
    \<and> (\<forall>p. obj w' p = (if p \<in> set xs then None else obj w p))"
proof -
  define I where "I = (\<lambda>ys u. \<exists>zs. xs = zs @ ys \<and> (\<forall>p. obj u p = (if p \<in> set zs then None else obj w p)))"
  have "\<exists>w'. clear_queue q cleaner w = Ok () w' \<and> qrep w' q [] \<and> I [] w'"
  proof (rule clear_queue_rule [where I = I, OF _ _ rep])
    fix x ys u
    assume q: "qrep u q ys" and "I (x # ys) u"
    then obtain zs where xs: "xs = zs @ x # ys" and obj: "\<And>p. obj u p = (if p \<in> set zs then None else obj w p)"
      unfolding I_def by blast
    have x: "x \<noteq> null" "x \<notin> set (q # ys)" "x \<notin> set zs" using rep xs by (auto simp: qrep_def)
    then have "obj u x \<noteq> None" using live xs obj by simp
    from clean [OF x(1) this] obtain u' where u': "cleaner x u = Ok () u'" "obj u' = (obj u)(x := None)"
      "nodes u' = (nodes u)(x := None)" "queues u' = queues u" by blast
    then have "qrep u' q ys" using x(2) by (intro qrep_cong [OF q]) auto
    moreover have "I ys u'" unfolding I_def using xs u'(2) obj by (intro exI [of _ "zs @ [x]"]) auto
    ultimately show "\<exists>u'. cleaner x u = Ok () u' \<and> qrep u' q ys \<and> I ys u'" using u'(1) by blast
  qed (auto simp: I_def dest: frame)
  then show ?thesis by (auto simp: I_def)
qed

section \<open>The queue as an interface\<close>

text \<open>
  What the stack relies on: a queue whose abstract value is a list, with insertion at the
  tail and removal at the head. \<open>ready w x\<close> is what a node must satisfy to be inserted.
\<close>

fun each :: "('x \<Rightarrow> ('w, unit) M) \<Rightarrow> 'x list \<Rightarrow> ('w, unit) M" where
  "each f [] = skip"
| "each f (x # xs) = sq (f x) (each f xs)"

fun drain :: "('w, ptr) M \<Rightarrow> nat \<Rightarrow> ('w, ptr list) M" where
  "drain d 0 = ret []"
| "drain d (Suc n) = bnd d (\<lambda>x. if x = null then ret [] else bnd (drain d n) (\<lambda>xs. ret (x # xs)))"

locale fifo =
  fixes rep :: "'w \<Rightarrow> ptr \<Rightarrow> ptr list \<Rightarrow> bool"
    and ready :: "'w \<Rightarrow> ptr \<Rightarrow> bool"
    and enq :: "ptr \<Rightarrow> ptr \<Rightarrow> ('w, unit) M"
    and deq :: "ptr \<Rightarrow> ('w, ptr) M"
  assumes rep_null: "rep w q xs \<Longrightarrow> null \<notin> set xs"
    and enq: "rep w q xs \<Longrightarrow> ready w x \<Longrightarrow> x \<notin> set (q # xs) \<Longrightarrow>
      \<exists>w'. enq q x w = Ok () w' \<and> rep w' q (xs @ [x]) \<and> (\<forall>y. ready w y \<longrightarrow> ready w' y)"
    and deq_empty: "rep w q [] \<Longrightarrow> deq q w = Ok null w"
    and deq: "rep w q (x # xs) \<Longrightarrow>
      \<exists>w'. deq q w = Ok x w' \<and> rep w' q xs \<and> ready w' x \<and> (\<forall>y. ready w y \<longrightarrow> ready w' y)"
begin

lemma enq_all:
  "rep w q xs \<Longrightarrow> \<forall>y \<in> set ys. ready w y \<Longrightarrow> distinct (q # xs @ ys) \<Longrightarrow>
    \<exists>w'. each (enq q) ys w = Ok () w' \<and> rep w' q (xs @ ys)"
proof (induction ys arbitrary: xs w)
  case Nil
  then show ?case by (simp add: run)
next
  case (Cons y ys)
  from enq [OF Cons.prems(1), of y] Cons.prems(2,3) obtain w1 where
    "enq q y w = Ok () w1" "rep w1 q (xs @ [y])" "\<forall>z. ready w z \<longrightarrow> ready w1 z" by auto
  moreover from this Cons.IH [of w1 "xs @ [y]"] Cons.prems(2,3)
  obtain w' where "each (enq q) ys w1 = Ok () w'" "rep w' q ((xs @ [y]) @ ys)" by auto
  ultimately show ?case by (simp add: run)
qed

lemma drain_all:
  "rep w q xs \<Longrightarrow> length xs \<le> n \<Longrightarrow> \<exists>w'. drain (deq q) n w = Ok xs w' \<and> rep w' q []"
proof (induction n arbitrary: xs w)
  case 0
  then show ?case by (simp add: run)
next
  case (Suc n)
  show ?case
  proof (cases xs)
    case Nil
    with Suc.prems show ?thesis by (simp add: run deq_empty)
  next
    case (Cons x xs')
    with deq Suc.prems(1) obtain w1 where w1: "deq q w = Ok x w1" "rep w1 q xs'" by blast
    with Suc.IH [of w1 xs'] Suc.prems(2) Cons obtain w' where
      "drain (deq q) n w1 = Ok xs' w'" "rep w' q []" by auto
    with w1 Cons rep_null [OF Suc.prems(1)] show ?thesis by (simp add: run)
  qed
qed

lemma fifo_order:
  assumes "rep w q xs" and "\<forall>y \<in> set ys. ready w y" and "distinct (q # xs @ ys)"
    and "length xs + length ys \<le> n"
  shows "\<exists>w'. sq (each (enq q) ys) (drain (deq q) n) w = Ok (xs @ ys) w' \<and> rep w' q []"
proof -
  from enq_all [OF assms(1-3)] obtain w1 where
    "each (enq q) ys w = Ok () w1" "rep w1 q (xs @ ys)" by blast
  moreover from drain_all [OF this(2), of n] assms(4) obtain w' where
    "drain (deq q) n w1 = Ok (xs @ ys) w'" "rep w' q []" by auto
  ultimately show ?thesis by (simp add: run)
qed

end

interpretation iq: fifo qrep detached queue_add_tail dequeue
proof
  show "null \<notin> set xs" if "qrep w q xs" for w :: "'w qworld_scheme" and q xs
    using qrepD(4) [OF that] .
  show "\<exists>w'. queue_add_tail q x w = Ok () w' \<and> qrep w' q (xs @ [x])
      \<and> (\<forall>y. detached w y \<longrightarrow> detached w' y)"
    if "qrep w q xs" "detached w x" "x \<notin> set (q # xs)" for w :: "'w qworld_scheme" and q xs x
    using queue_add_tail_run [OF that] touches_detached by blast
  show "dequeue q w = Ok null w" if "qrep w q []" for w :: "'w qworld_scheme" and q
    using that by (rule dequeue_empty_run)
  show "\<exists>w'. dequeue q w = Ok x w' \<and> qrep w' q xs \<and> detached w' x
      \<and> (\<forall>y. detached w y \<longrightarrow> detached w' y)"
    if "qrep w q (x # xs)" for w :: "'w qworld_scheme" and q x xs
    using dequeue_run [OF that] touches_detached by blast
qed

end
