(* ===== verification/Queue_Refinement.thy ===== *)
theory Queue_Refinement
  imports Queue_Interface
begin

text \<open>
  The intrusive queue implements a list: every sequence of its operations that respects
  their contract answers what the same operations on a list of nodes answer, and leaves the
  list's representation.
\<close>

section \<open>The specification\<close>

datatype queue_op =
    Push ptr
  | Append ptr
  | Insert ptr ptr
  | Delete ptr
  | Dequeue
  | First
  | Empty

datatype outcome = Done | Node ptr | Flag bool

definition front :: "ptr list \<Rightarrow> ptr" where
  "front xs = (case xs of [] \<Rightarrow> null | x # _ \<Rightarrow> x)"

text \<open>\<open>None\<close>: the operation's contract is violated.\<close>

fun list_op :: "queue_op \<Rightarrow> ptr list \<Rightarrow> (outcome \<times> ptr list) option" where
  "list_op (Push x) xs = (if x \<in> set xs then None else Some (Done, x # xs))"
| "list_op (Append x) xs = (if x \<in> set xs then None else Some (Done, xs @ [x]))"
| "list_op (Insert x t) xs = (if x \<in> set xs \<or> t \<notin> set xs then None
     else Some (Done, takeWhile (\<lambda>y. y \<noteq> t) xs @ x # dropWhile (\<lambda>y. y \<noteq> t) xs))"
| "list_op (Delete x) xs = (if x \<in> set xs then Some (Done, remove1 x xs) else None)"
| "list_op Dequeue xs = Some (Node (front xs), tl xs)"
| "list_op First xs = Some (Node (front xs), xs)"
| "list_op Empty xs = Some (Flag (xs = []), xs)"

fun list_ops :: "queue_op list \<Rightarrow> ptr list \<Rightarrow> (outcome list \<times> ptr list) option" where
  "list_ops [] xs = Some ([], xs)"
| "list_ops (p # ps) xs = (case list_op p xs of None \<Rightarrow> None | Some (r, ys) \<Rightarrow>
     (case list_ops ps ys of None \<Rightarrow> None | Some (rs, zs) \<Rightarrow> Some (r # rs, zs)))"

section \<open>The implementation\<close>

fun code_op :: "ptr \<Rightarrow> queue_op \<Rightarrow> ('w qworld_scheme, outcome) M" where
  "code_op q (Push x) = sq (queue_add q x) (ret Done)"
| "code_op q (Append x) = sq (queue_add_tail q x) (ret Done)"
| "code_op q (Insert x t) = sq (queue_add_before q x t) (ret Done)"
| "code_op q (Delete x) = sq (queue_del q x) (ret Done)"
| "code_op q Dequeue = bnd (dequeue q) (\<lambda>x. ret (Node x))"
| "code_op q First = bnd (queue_first_entry q) (\<lambda>x. ret (Node x))"
| "code_op q Empty = bnd (isEmpty q) (\<lambda>b. ret (Flag b))"

fun code_ops :: "ptr \<Rightarrow> queue_op list \<Rightarrow> ('w qworld_scheme, outcome list) M" where
  "code_ops q [] = ret []"
| "code_ops q (p # ps) = bnd (code_op q p) (\<lambda>r. bnd (code_ops q ps) (\<lambda>rs. ret (r # rs)))"

fun inserted :: "queue_op \<Rightarrow> ptr set" where
  "inserted (Push x) = {x}"
| "inserted (Append x) = {x}"
| "inserted (Insert x t) = {x}"
| "inserted _ = {}"

section \<open>The simulation\<close>

lemma split_at_first:
  assumes "t \<in> set xs"
  shows "takeWhile (\<lambda>y. y \<noteq> t) xs @ t # tl (dropWhile (\<lambda>y. y \<noteq> t) xs) = xs"
    and "dropWhile (\<lambda>y. y \<noteq> t) xs = t # tl (dropWhile (\<lambda>y. y \<noteq> t) xs)"
  using assms by (induction xs) auto

lemma code_op_simulates:
  assumes rep: "qrep w q xs" and fresh: "\<forall>x \<in> inserted p. detached w x \<and> x \<noteq> q"
    and spec: "list_op p xs = Some (r, ys)"
  shows "\<exists>w'. code_op q p w = Ok r w' \<and> qrep w' q ys \<and> touches q (set xs \<union> inserted p) w w'"
  using spec
proof (cases p)
  case (Push x)
  with spec fresh queue_add_run [OF rep, of x] show ?thesis by (auto simp: run split: if_splits)
next
  case (Append x)
  with spec fresh queue_add_tail_run [OF rep, of x] show ?thesis by (auto simp: run split: if_splits)
next
  case (Insert x t)
  let ?l = "takeWhile (\<lambda>y. y \<noteq> t) xs" and ?r = "tl (dropWhile (\<lambda>y. y \<noteq> t) xs)"
  have x: "x \<notin> set xs" "detached w x" "x \<noteq> q" and t: "t \<in> set xs"
    and r: "r = Done" "ys = ?l @ x # dropWhile (\<lambda>y. y \<noteq> t) xs"
    using spec fresh Insert by (auto split: if_splits)
  note xs = split_at_first [OF t]
  have "qrep w q (?l @ t # ?r)" "x \<notin> set (q # ?l @ t # ?r)"
    using rep x(1,3) unfolding xs(1) by simp_all
  from queue_add_before_run [OF this(1) x(2) this(2)] Insert r show ?thesis
    unfolding xs(1) by (auto simp: run xs(2) [symmetric])
next
  case (Delete x)
  then obtain as bs where xs: "xs = as @ x # bs" using spec by (auto dest: split_list split: if_splits)
  then have "remove1 x xs = as @ bs" using qrepD(2) [OF rep] by (simp add: remove1_append)
  with queue_del_run [of w q as x bs] rep spec Delete xs show ?thesis by (auto simp: run)
next
  case Dequeue
  with spec rep show ?thesis
    by (cases xs) (auto simp: run front_def dequeue_empty_run dest: dequeue_run)
qed (use spec rep in \<open>auto simp: run front_def queue_first_entry_run isEmpty_run\<close>)

lemma code_ops_simulates:
  assumes "qrep w q xs" and "\<forall>p \<in> set ps. \<forall>x \<in> inserted p. detached w x \<and> x \<noteq> q"
    and "list_ops ps xs = Some (rs, ys)"
  shows "\<exists>w'. code_ops q ps w = Ok rs w' \<and> qrep w' q ys"
  using assms
proof (induction ps arbitrary: xs rs w)
  case Nil
  then show ?case by (simp add: run)
next
  case (Cons p ps)
  then obtain r us rs' where spec: "list_op p xs = Some (r, us)" "list_ops ps us = Some (rs', ys)"
    and rs: "rs = r # rs'" by (auto split: option.splits prod.splits)
  from code_op_simulates [OF Cons.prems(1) _ spec(1)] Cons.prems(2) obtain w1 where
    w1: "code_op q p w = Ok r w1" "qrep w1 q us" and t: "touches q (set xs \<union> inserted p) w w1" by auto
  have "\<forall>p \<in> set ps. \<forall>x \<in> inserted p. detached w1 x \<and> x \<noteq> q"
    using Cons.prems(2) touches_detached [OF t] by simp
  from Cons.IH [OF w1(2) this spec(2)] w1(1) rs show ?case by (auto simp: run)
qed

text \<open>
  C1. The intrusive queue refines a list of nodes: whatever sequence of insertions (at the
  head, at the tail, before a node), deletions, removals from the head and queries is run
  on a well-formed queue, as long as only live nodes that are not in the queue are inserted
  and only nodes that are in it are deleted, the code never faults, every answer is the
  list's, and the queue represents the resulting list.
\<close>

theorem queue_refines_list:
  assumes "qrep w q xs"
    and "\<forall>p \<in> set ps. \<forall>x \<in> inserted p. detached w x \<and> x \<noteq> q"
    and "list_ops ps xs = Some (rs, ys)"
  shows "\<exists>w'. code_ops q ps w = Ok rs w' \<and> qrep w' q ys"
  using assms by (rule code_ops_simulates)

definition three_nodes :: "qworld" where
  "three_nodes = \<lparr>nodes = [8 \<mapsto> \<lparr>lprev = 8, lnext = 8\<rparr>, 16 \<mapsto> \<lparr>lprev = 16, lnext = 16\<rparr>,
     24 \<mapsto> \<lparr>lprev = 24, lnext = 24\<rparr>, 32 \<mapsto> \<lparr>lprev = 32, lnext = 32\<rparr>],
     queues = [8 \<mapsto> \<lparr>qlen = 0, qoffset = 0\<rparr>]\<rparr>"

theorem queue_refines_list_witness:
  "\<exists>w'. code_ops 8 [Append 16, Push 24, Insert 32 16, First, Delete 24, Dequeue, Empty, Dequeue, Empty] three_nodes
      = Ok [Done, Done, Done, Node 24, Done, Node 32, Flag False, Node 16, Flag True] w' \<and> qrep w' 8 []"
proof (rule queue_refines_list)
  show "qrep three_nodes 8 []"
    by (simp add: three_nodes_def qrep_def linked_def nx_def pv_def)
qed (simp_all add: three_nodes_def detached_def front_def)

end
