(* ===== verification/Bytes.thy ===== *)
theory Bytes
  imports Prelude
begin

text \<open>
  Bytes in memory as the little-endian host of the stack reads them, the byte-order
  conversions of the standard library, and the Internet checksum of
  \<open>include/utils.hpp\<close> with what RFC 1071 asks of it.
\<close>

unbundle bit_operations_syntax

section \<open>Byte order\<close>

definition le16 :: "u8 \<Rightarrow> u8 \<Rightarrow> u16" where
  "le16 a b = ucast a + 256 * ucast b"

definition lo8 :: "u16 \<Rightarrow> u8" where
  "lo8 v = ucast v"

definition hi8 :: "u16 \<Rightarrow> u8" where
  "hi8 v = ucast (drop_bit 8 v)"

definition le32 :: "u16 \<Rightarrow> u16 \<Rightarrow> u32" where
  "le32 a b = ucast a + 65536 * ucast b"

definition lo16 :: "u32 \<Rightarrow> u16" where
  "lo16 v = ucast v"

definition hi16 :: "u32 \<Rightarrow> u16" where
  "hi16 v = ucast (drop_bit 16 v)"

definition htons :: "u16 \<Rightarrow> u16" where
  "htons v = le16 (hi8 v) (lo8 v)"

definition htonl :: "u32 \<Rightarrow> u32" where
  "htonl v = le32 (htons (hi16 v)) (htons (lo16 v))"

abbreviation ntohs :: "u16 \<Rightarrow> u16" where
  "ntohs \<equiv> htons"

abbreviation ntohl :: "u32 \<Rightarrow> u32" where
  "ntohl \<equiv> htonl"

lemma unat_le16: "unat (le16 a b) = unat a + 256 * unat b"
proof -
  have "unat a < 256" "unat b < 256"
    using unsigned_less [of a, where ?'a = nat] unsigned_less [of b, where ?'a = nat] by simp_all
  then show ?thesis
    by (simp add: le16_def unat_word_ariths unsigned_ucast_eq take_bit_eq_mod)
qed

lemma unat_le32: "unat (le32 a b) = unat a + 65536 * unat b"
proof -
  have "unat a < 65536" "unat b < 65536"
    using unsigned_less [of a, where ?'a = nat] unsigned_less [of b, where ?'a = nat] by simp_all
  then show ?thesis
    by (simp add: le32_def unat_word_ariths unsigned_ucast_eq take_bit_eq_mod)
qed

lemma unat_halves:
  "unat (lo8 v) = unat v mod 256" "unat (hi8 v) = unat v div 256"
  "unat (lo16 u) = unat u mod 65536" "unat (hi16 u) = unat u div 65536"
proof -
  have v: "unat v < 65536" using unsigned_less [of v, where ?'a = nat] by simp
  have u: "unat u < 4294967296" using unsigned_less [of u, where ?'a = nat] by simp
  show "unat (lo8 v) = unat v mod 256" "unat (lo16 u) = unat u mod 65536"
    by (simp_all add: lo8_def lo16_def unsigned_ucast_eq take_bit_eq_mod)
  show "unat (hi8 v) = unat v div 256" "unat (hi16 u) = unat u div 65536"
    using v u by (simp_all add: hi8_def hi16_def unsigned_ucast_eq take_bit_eq_mod unat_div drop_bit_eq_div)
qed

lemma le_halves [simp]:
  "lo8 (le16 a b) = a" "hi8 (le16 a b) = b" "le16 (lo8 v) (hi8 v) = v"
  "lo16 (le32 c d) = c" "hi16 (le32 c d) = d" "le32 (lo16 u) (hi16 u) = u"
proof -
  have "unat a < 256" "unat c < 65536"
    using unsigned_less [of a, where ?'a = nat] unsigned_less [of c, where ?'a = nat] by simp_all
  then show "lo8 (le16 a b) = a" "hi8 (le16 a b) = b" "lo16 (le32 c d) = c" "hi16 (le32 c d) = d"
    by (simp_all add: word_unat_eq_iff unat_halves unat_le16 unat_le32)
  show "le16 (lo8 v) (hi8 v) = v" "le32 (lo16 u) (hi16 u) = u"
    by (simp_all add: word_unat_eq_iff unat_halves unat_le16 unat_le32)
qed

lemma hton_hton [simp]: "htons (htons v) = v" "htonl (htonl u) = u"
  by (simp_all add: htons_def htonl_def)

section \<open>Loads and stores\<close>

definition get16 :: "u8 list \<Rightarrow> nat \<Rightarrow> u16" where
  "get16 bs i = le16 (bs ! i) (bs ! Suc i)"

definition put16 :: "u8 list \<Rightarrow> nat \<Rightarrow> u16 \<Rightarrow> u8 list" where
  "put16 bs i v = bs[i := lo8 v, Suc i := hi8 v]"

definition get32 :: "u8 list \<Rightarrow> nat \<Rightarrow> u32" where
  "get32 bs i = le32 (get16 bs i) (get16 bs (i + 2))"

definition put32 :: "u8 list \<Rightarrow> nat \<Rightarrow> u32 \<Rightarrow> u8 list" where
  "put32 bs i v = put16 (put16 bs i (lo16 v)) (i + 2) (hi16 v)"

lemma length_put [simp]: "length (put16 bs i v) = length bs" "length (put32 bs i u) = length bs"
  by (simp_all add: put16_def put32_def)

lemma get16_put16 [simp]: "Suc i < length bs \<Longrightarrow> get16 (put16 bs i v) i = v"
  by (simp add: get16_def put16_def)

lemma get16_put16_other [simp]: "j + 1 < i \<or> i + 1 < j \<Longrightarrow> get16 (put16 bs i v) j = get16 bs j"
  by (auto simp: get16_def put16_def)

lemma get32_put32 [simp]: "i + 3 < length bs \<Longrightarrow> get32 (put32 bs i v) i = v"
  by (simp add: get32_def put32_def)

section \<open>The checksum\<close>

text \<open>
  \<open>sum_every_16_bits ans bs\<close> is the loop over the bytes still to come, with the sum so
  far; the sum wraps at 32 bits, as the code's does.
\<close>

fun sum_every_16_bits :: "u32 \<Rightarrow> u8 list \<Rightarrow> u32" where
  "sum_every_16_bits ans (a # b # bs) = sum_every_16_bits (ans + ucast (le16 a b)) bs"
| "sum_every_16_bits ans [a] = ans + ucast a"
| "sum_every_16_bits ans [] = ans"

function fold_carries :: "u32 \<Rightarrow> u32" where
  "fold_carries ans =
     (if drop_bit 16 ans \<noteq> 0 then fold_carries ((ans AND 0xffff) + drop_bit 16 ans) else ans)"
  by pat_completeness auto

lemma unat_fold_step:
  "unat ((ans AND 0xffff) + drop_bit 16 (ans :: u32)) = unat ans mod 65536 + unat ans div 65536"
proof -
  have "ans AND 0xffff = take_bit 16 ans"
    by (simp add: take_bit_eq_mask mask_eq_exp_minus_1)
  then have "unat (ans AND 0xffff) = unat ans mod 65536"
    by (simp add: unat_mod take_bit_eq_mod)
  moreover have "unat (drop_bit 16 ans) = unat ans div 65536"
    by (simp add: unat_div drop_bit_eq_div)
  moreover have "unat ans div 65536 < 65536"
    using unsigned_less [of ans, where ?'a = nat] by simp
  ultimately show ?thesis by (simp add: unat_word_ariths)
qed

lemma drop_bit_16_zero: "drop_bit 16 (ans :: u32) = 0 \<longleftrightarrow> unat ans < 65536"
proof -
  have "unat (drop_bit 16 ans) = unat ans div 65536"
    by (simp add: unat_div drop_bit_eq_div)
  then show ?thesis by (metis div_eq_0_iff unat_eq_zero zero_neq_numeral)
qed

termination fold_carries
proof (relation "measure unat")
  fix ans :: u32
  assume "drop_bit 16 ans \<noteq> 0"
  then have "65536 \<le> unat ans" by (simp add: drop_bit_16_zero)
  then have "unat ans mod 65536 + unat ans div 65536 < unat ans"
    by (metis add.commute add_less_cancel_right div_greater_zero_iff div_mult_mod_eq mult.commute
        mult_less_cancel2 nat_mult_1 one_less_numeral_iff semiring_norm(76) zero_less_numeral)
  then show "((ans AND 0xffff) + drop_bit 16 ans, ans) \<in> measure unat"
    by (simp only: in_measure unat_fold_step)
qed simp

declare fold_carries.simps [simp del]

definition checksum :: "u8 list \<Rightarrow> u32 \<Rightarrow> u16" where
  "checksum bs start_sum = ucast (NOT (fold_carries (sum_every_16_bits start_sum bs)))"

text \<open>
  The end-around-carry sum of RFC 1071: 0 only for 0, and otherwise the representative of
  the sum modulo \<open>2^16 - 1\<close> in \<open>1 \<dots> 2^16 - 1\<close>.
\<close>

definition ones_sum :: "nat \<Rightarrow> nat" where
  "ones_sum n = (if n = 0 then 0 else (n - 1) mod 65535 + 1)"

lemma ones_sum_step:
  assumes "65536 \<le> n"
  shows "ones_sum (n mod 65536 + n div 65536) = ones_sum n"
proof -
  define a b where "a = n div 65536" and "b = n mod 65536"
  have n: "n = 65536 * a + b" by (simp add: a_def b_def)
  have "a > 0" using assms by (simp add: a_def div_greater_zero_iff)
  then have "n - 1 = 65535 * a + (b + a - 1)" using n by simp
  then have "(n - 1) mod 65535 = (b + a - 1) mod 65535" by simp
  with \<open>a > 0\<close> assms show ?thesis by (simp add: ones_sum_def a_def b_def)
qed

lemma ones_sum_bound: "ones_sum n < 65536" "n > 0 \<Longrightarrow> ones_sum n > 0"
  by (simp_all add: ones_sum_def less_Suc_eq_le)

lemma fold_carries_ones_sum: "unat (fold_carries ans) = ones_sum (unat ans)"
proof (induction ans rule: fold_carries.induct)
  case (1 ans)
  show ?case
  proof (cases "drop_bit 16 ans = 0")
    case True
    then have small: "unat ans < 65536" by (simp add: drop_bit_16_zero)
    have "unat ans = ones_sum (unat ans)"
    proof (cases "unat ans = 0")
      case False
      with small have "(unat ans - 1) mod 65535 = unat ans - 1" by simp
      with False show ?thesis by (simp add: ones_sum_def)
    qed (simp add: ones_sum_def)
    with True show ?thesis by (subst fold_carries.simps) simp
  next
    case False
    then have "65536 \<le> unat ans" by (simp add: drop_bit_16_zero)
    with False 1 show ?thesis
      by (subst fold_carries.simps) (simp add: unat_fold_step ones_sum_step)
  qed
qed

lemma unat_checksum:
  "unat (checksum bs s) = 65535 - ones_sum (unat (sum_every_16_bits s bs))"
proof -
  let ?f = "fold_carries (sum_every_16_bits s bs)"
  have small: "unat ?f < 65536" by (simp add: fold_carries_ones_sum ones_sum_bound)
  have "NOT ?f = - 1 - ?f" by (simp add: not_eq_complement)
  moreover have "unat (- 1 - ?f) = unat (- 1 :: u32) - unat ?f"
    by (rule unat_sub) (rule word_order.extremum)
  moreover have "unat (- 1 :: u32) = 4294967295"
    by (simp add: unsigned_minus_1_eq_mask mask_eq_exp_minus_1)
  ultimately have "unat (NOT ?f) = 4294967295 - unat ?f" by simp
  then have "unat (checksum bs s) = (4294967295 - unat ?f) mod 65536"
    by (simp add: checksum_def unsigned_ucast_eq take_bit_eq_mod)
  also have "4294967295 - unat ?f = 65535 - unat ?f + 65535 * 65536"
    using small by simp
  also have "(65535 - unat ?f + 65535 * 65536) mod 65536 = (65535 - unat ?f) mod 65536"
    by (rule mod_mult_self1)
  also have "\<dots> = 65535 - unat ?f" by simp
  finally show ?thesis by (simp add: fold_carries_ones_sum)
qed

section \<open>Sums over bytes\<close>

fun nat_sum16 :: "u8 list \<Rightarrow> nat" where
  "nat_sum16 (a # b # bs) = unat (le16 a b) + nat_sum16 bs"
| "nat_sum16 [a] = unat a"
| "nat_sum16 [] = 0"

lemma nat_sum16_bound: "nat_sum16 bs \<le> 65535 * ((length bs + 1) div 2)"
proof (induction bs rule: nat_sum16.induct)
  case (1 a b bs)
  have "unat (le16 a b) \<le> 65535"
    using unsigned_less [of "le16 a b", where ?'a = nat] by simp
  with 1 show ?case by simp
next
  case (2 a)
  then show ?case using unsigned_less [of a, where ?'a = nat] by simp
qed simp

lemma unat_sum_every_16_bits:
  "unat (sum_every_16_bits s bs) = (unat s + nat_sum16 bs) mod 4294967296"
proof (induction s bs rule: sum_every_16_bits.induct)
  case (1 ans a b bs)
  have "unat (ucast (le16 a b) :: u32) = unat (le16 a b)"
    using unsigned_less [of "le16 a b", where ?'a = nat]
    by (simp add: unsigned_ucast_eq take_bit_eq_mod)
  with 1 show ?case by (simp add: unat_word_ariths mod_simps add.assoc)
next
  case (2 ans a)
  have "unat (ucast a :: u32) = unat a"
    using unsigned_less [of a, where ?'a = nat] by (simp add: unsigned_ucast_eq take_bit_eq_mod)
  then show ?case by (simp add: unat_word_ariths)
next
  case (3 ans)
  then show ?case using unsigned_less [of ans, where ?'a = nat] by simp
qed

lemma nat_sum16_put16:
  "even i \<Longrightarrow> Suc i < length bs \<Longrightarrow>
    nat_sum16 (put16 bs i v) + unat (get16 bs i) = nat_sum16 bs + unat v"
proof (induction bs arbitrary: i rule: nat_sum16.induct)
  case (1 a b bs)
  show ?case
  proof (cases i)
    case 0
    then show ?thesis by (simp add: put16_def get16_def)
  next
    case (Suc j)
    with "1.prems" obtain k where k: "i = Suc (Suc k)" "even k" by (cases j) auto
    with "1.prems" "1.IH" [of k] show ?thesis by (simp add: put16_def get16_def)
  qed
qed simp_all

text \<open>
  \<open>short_enough\<close>: the sum cannot wrap at 32 bits, which is so for every IPv4 datagram
  with a start sum below \<open>2^31\<close>.
\<close>

definition short_enough :: "u8 list \<Rightarrow> u32 \<Rightarrow> bool" where
  "short_enough bs s \<longleftrightarrow> unat s + 65535 * ((length bs + 1) div 2) < 4294967296"

lemma unat_sum_short:
  "short_enough bs s \<Longrightarrow> unat (sum_every_16_bits s bs) = unat s + nat_sum16 bs"
  using nat_sum16_bound [of bs] by (simp add: unat_sum_every_16_bits short_enough_def)

lemma short_enough_put16 [simp]: "short_enough (put16 bs i v) s = short_enough bs s"
  by (simp add: short_enough_def)

lemma ones_sum_full: "ones_sum n = 65535 \<longleftrightarrow> 0 < n \<and> n mod 65535 = 0"
proof (cases "n = 0")
  case False
  then obtain m where n: "n = Suc m" by (cases n) auto
  have "m mod 65535 + 1 = 65535 \<longleftrightarrow> Suc m mod 65535 = 0" by (simp add: mod_Suc)
  with n show ?thesis by (simp add: ones_sum_def)
qed (simp add: ones_sum_def)

lemma checksum_zero_iff:
  assumes "short_enough bs s"
  shows "checksum bs s = 0 \<longleftrightarrow> 0 < unat s + nat_sum16 bs \<and> (unat s + nat_sum16 bs) mod 65535 = 0"
proof -
  have "checksum bs s = 0 \<longleftrightarrow> ones_sum (unat s + nat_sum16 bs) = 65535"
    using ones_sum_bound(1) [of "unat s + nat_sum16 bs"]
    by (simp add: unat_eq_zero [symmetric] unat_checksum unat_sum_short [OF assms] del: unat_eq_zero unsigned_0)
      arith
  then show ?thesis by (simp add: ones_sum_full)
qed

section \<open>Checksummed data verifies, and one corrupted word is noticed\<close>

lemma checksum_field_sums:
  assumes "short_enough bs s"
  shows "\<exists>k. unat s + nat_sum16 bs + unat (checksum bs s) = 65535 * Suc k"
proof (cases "unat s + nat_sum16 bs")
  case 0
  then have "unat (checksum bs s) = 65535"
    by (simp add: unat_checksum unat_sum_short [OF assms] ones_sum_def)
  with 0 show ?thesis by (intro exI [of _ 0]) simp
next
  case (Suc m)
  have "m mod 65535 \<le> 65534" by (rule less_Suc_eq_le [THEN iffD1]) simp
  then have "unat (checksum bs s) = 65534 - m mod 65535"
    using Suc by (simp add: unat_checksum unat_sum_short [OF assms] ones_sum_def)
  moreover obtain k r where "m = 65535 * k + r" "m mod 65535 = r"
    by (metis mult_div_mod_eq)
  ultimately have "unat s + nat_sum16 bs + unat (checksum bs s) = 65535 * Suc k"
    using Suc \<open>m mod 65535 \<le> 65534\<close> by simp
  then show ?thesis by blast
qed

text \<open>
  C6. The Internet checksum verifies what it was computed over: if the 16-bit checksum
  field (at an even offset) is zero while the checksum is taken and the result is then
  stored there, as \<open>icmpv4_reply\<close> and \<open>tcp_transmit_skb\<close> do, a receiver that sums
  the same bytes with the same pseudo-header sum gets 0, the value \<open>ip_rcv\<close> accepts.
\<close>

theorem checksum_verifies:
  assumes "even i" and "Suc i < length bs" and "get16 bs i = 0" and "short_enough bs s"
  shows "checksum (put16 bs i (checksum bs s)) s = 0"
proof -
  let ?c = "checksum bs s"
  have "nat_sum16 (put16 bs i ?c) = nat_sum16 bs + unat ?c"
    using nat_sum16_put16 [OF assms(1,2), of ?c] assms(3) by simp
  moreover obtain k where "unat s + nat_sum16 bs + unat ?c = 65535 * Suc k"
    using checksum_field_sums [OF assms(4)] by blast
  ultimately have "unat s + nat_sum16 (put16 bs i ?c) = 65535 * Suc k" by simp
  then show ?thesis using assms(4) by (subst checksum_zero_iff) simp_all
qed

theorem checksum_verifies_witness:
  "checksum (put16 [0x45, 0, 0, 0x14, 0, 0, 0x40, 0, 64, 6] 4
      (checksum [0x45, 0, 0, 0x14, 0, 0, 0x40, 0, 64, 6] 0)) 0 = 0"
  by (rule checksum_verifies) (simp_all add: get16_def le16_def short_enough_def)

lemma mod_65535: "n < 65536 \<Longrightarrow> n mod 65535 = (if n = 65535 then 0 else n)" for n :: nat
  by auto

text \<open>
  C26. A single corrupted 16-bit word is noticed: if the bytes verify and one word is
  replaced by a different one, they no longer verify, except that \<open>0x0000\<close> and
  \<open>0xffff\<close> (the two zeros of one's complement) cannot be told apart.
\<close>

theorem checksum_detects:
  assumes "even i" and "Suc i < length bs" and "short_enough bs s"
    and "checksum bs s = 0" and "v \<noteq> get16 bs i" and "{v, get16 bs i} \<noteq> {0, 0xffff}"
  shows "checksum (put16 bs i v) s \<noteq> 0"
proof
  let ?n = "unat s + nat_sum16 bs" and ?n' = "unat s + nat_sum16 (put16 bs i v)"
  let ?g = "unat (get16 bs i)" and ?v = "unat v"
  assume "checksum (put16 bs i v) s = 0"
  then have "?n' mod 65535 = 0" using assms(3) by (simp add: checksum_zero_iff)
  moreover have "?n mod 65535 = 0" using assms(3,4) by (simp add: checksum_zero_iff)
  moreover have "?n' + ?g = ?n + ?v" using nat_sum16_put16 [OF assms(1,2), of v] by simp
  ultimately have "?g mod 65535 = ?v mod 65535"
    by (metis add.left_neutral mod_add_left_eq)
  moreover have "?g < 65536" "?v < 65536"
    using unsigned_less [of "get16 bs i", where ?'a = nat] unsigned_less [of v, where ?'a = nat]
    by simp_all
  moreover have "?g \<noteq> ?v" using assms(5) by (simp add: word_unat_eq_iff)
  ultimately have "?g = 0 \<and> ?v = 65535 \<or> ?g = 65535 \<and> ?v = 0"
    by (simp only: mod_65535) (metis zero_neq_numeral)
  then have "{v, get16 bs i} = {0, 0xffff}" by (auto simp: word_unat_eq_iff)
  with assms(6) show False ..
qed

theorem checksum_detects_witness:
  "checksum (put16 [0xff, 0xff, 0x12, 0x34, 0xed, 0xcb] 2 0x3413) 0 \<noteq> 0"
  by (rule checksum_detects)
    (simp_all add: get16_def le16_def short_enough_def checksum_zero_iff doubleton_eq_iff)

end
