(* ===== verification/Sk_Buff.thy ===== *)
theory Sk_Buff
  imports Queue_Interface Bytes
begin

text \<open>
  Socket buffers: class \<open>SkBuff\<close> of \<open>include/socket_buffer.hpp\<close> and
  \<open>src/socket_buffer.cpp\<close>, its reference count and the release of a queue of them.

  The byte buffer is \<open>buf\<close>; the pointers \<open>data\<close> and \<open>payload\<close> into it are kept
  as offsets from \<open>head\<close>, which never moves, and \<open>end\<close> is the buffer's length. The
  embedded \<open>list_node\<close> is the first member, so the address of a buffer is the address
  of its node in \<open>nodes\<close>. \<open>pool\<close> holds the addresses \<open>operator new\<close> will return,
  and \<open>raw_ptr\<close> what an uninitialised pointer member happens to contain.
\<close>

record skbuff =
  skb_rt :: ptr
  skb_dev :: ptr
  refcnt :: int
  protocol :: u16
  len :: u32
  data_len :: u32
  seq :: u32
  end_seq :: u32
  data :: int
  payload :: "int option"
  buf :: "u8 list"

record skb_world = qworld +
  skbs :: "ptr \<rightharpoonup> skbuff"
  pool :: "ptr list"
  raw_ptr :: ptr

lemma upd_skbs_run [run]:
  "upd (skbs_update f) w = Ok () (w\<lparr>skbs := f (skbs w)\<rparr>)"
  "upd (pool_update g) w = Ok () (w\<lparr>pool := g (pool w)\<rparr>)"
  by (simp_all add: upd_apply)

lemma qrep_skbs_upd [simp]:
  "qrep (skbs_update f w) q xs = qrep w q xs"
  "qrep (pool_update g w) q xs = qrep w q xs"
  by (rule qrep_only; simp)+

section \<open>Allocation and access\<close>

definition new_addr :: "('w skb_world_scheme, ptr) M" where
  "new_addr = bnd (get pool) (\<lambda>ps. case ps of [] \<Rightarrow> fail BadAlloc
     | p # ps' \<Rightarrow> sq (upd (pool_update (\<lambda>_. ps'))) (ret p))"

definition upd_skb :: "ptr \<Rightarrow> (skbuff \<Rightarrow> skbuff) \<Rightarrow> ('w skb_world_scheme, unit) M" where
  "upd_skb p f = bnd (load skbs p) (\<lambda>s. upd (skbs_update (\<lambda>h. h(p \<mapsto> f s))))"

definition in_buf :: "skbuff \<Rightarrow> int \<Rightarrow> nat \<Rightarrow> bool" where
  "in_buf s off n \<longleftrightarrow> 0 \<le> off \<and> off + int n \<le> int (length (buf s))"

definition read_buf :: "ptr \<Rightarrow> int \<Rightarrow> nat \<Rightarrow> ('w skb_world_scheme, u8 list) M" where
  "read_buf p off n = bnd (load skbs p) (\<lambda>s.
     if in_buf s off n then ret (take n (drop (nat off) (buf s))) else fail OutOfBounds)"

definition splice :: "u8 list \<Rightarrow> nat \<Rightarrow> u8 list \<Rightarrow> u8 list" where
  "splice bs i new = take i bs @ new @ drop (i + length new) bs"

definition write_buf :: "ptr \<Rightarrow> int \<Rightarrow> u8 list \<Rightarrow> ('w skb_world_scheme, unit) M" where
  "write_buf p off bs = bnd (load skbs p) (\<lambda>s.
     if in_buf s off (length bs)
     then upd (skbs_update (\<lambda>h. h(p \<mapsto> s\<lparr>buf := splice (buf s) (nat off) bs\<rparr>)))
     else fail OutOfBounds)"

section \<open>The class\<close>

definition SkBuff_init :: "ptr \<Rightarrow> nat \<Rightarrow> skbuff" where
  "SkBuff_init raw n = \<lparr>skb_rt = raw, skb_dev = raw, refcnt = 0, protocol = 0, len = 0,
     data_len = 0, seq = 0, end_seq = 0, data = 0, payload = None, buf = replicate n 0\<rparr>"

definition SkBuff_new :: "nat \<Rightarrow> ('w skb_world_scheme, ptr) M" where
  "SkBuff_new n = bnd new_addr (\<lambda>p. bnd (get raw_ptr) (\<lambda>raw.
     sq (init_node p) (sq (upd (skbs_update (\<lambda>h. h(p \<mapsto> SkBuff_init raw n)))) (ret p))))"

text \<open>
  The destructor releases the byte buffer by \<open>delete[] data\<close>, not by its start \<open>head\<close>:
  that is only defined while the two agree.
\<close>

definition SkBuff_delete :: "ptr \<Rightarrow> ('w skb_world_scheme, unit) M" where
  "SkBuff_delete p = bnd (load skbs p) (\<lambda>s.
     if data s \<noteq> 0 then fail BadFree
     else sq (upd (skbs_update (\<lambda>h. h(p := None)))) (upd (nodes_update (\<lambda>h. h(p := None)))))"

definition reserve_headroom :: "ptr \<Rightarrow> int \<Rightarrow> ('w skb_world_scheme, unit) M" where
  "reserve_headroom p n = upd_skb p (\<lambda>s. s\<lparr>data := data s + n\<rparr>)"

definition push :: "ptr \<Rightarrow> int \<Rightarrow> ('w skb_world_scheme, int) M" where
  "push p n = sq (upd_skb p (\<lambda>s. s\<lparr>data := data s - n, len := len s + word_of_int n\<rparr>))
     (bnd (load skbs p) (\<lambda>s. ret (data s)))"

definition reset_header :: "ptr \<Rightarrow> ('w skb_world_scheme, unit) M" where
  "reset_header p = upd_skb p (\<lambda>s.
     s\<lparr>data := int (length (buf s)) - uint (data_len s), len := data_len s\<rparr>)"

definition free_skb :: "ptr \<Rightarrow> ('w skb_world_scheme, unit) M" where
  "free_skb p = bnd (load skbs p) (\<lambda>s. if refcnt s \<le> 1 then SkBuff_delete p
     else upd_skb p (\<lambda>s. s\<lparr>refcnt := refcnt s - 1\<rparr>))"

definition skb_put :: "ptr \<Rightarrow> ('w skb_world_scheme, unit) M" where
  "skb_put p = sq (upd_skb p (\<lambda>s. s\<lparr>refcnt := refcnt s - 1\<rparr>)) (free_skb p)"

definition skb_queue_free :: "ptr \<Rightarrow> ('w skb_world_scheme, unit) M" where
  "skb_queue_free q = clear_queue q skb_put"

section \<open>What the operations touch\<close>

definition outside_skbs :: "'w skb_world_scheme \<Rightarrow> 'w skb_world_scheme" where
  "outside_skbs w = w\<lparr>nodes := Map.empty, queues := Map.empty, skbs := Map.empty, pool := []\<rparr>"

abbreviation skb_frame :: "'w skb_world_scheme \<Rightarrow> 'w skb_world_scheme \<Rightarrow> bool" where
  "skb_frame \<equiv> same outside_skbs"

lemma outside_skbs_queues: "outside_skbs w = (outside_queues w)\<lparr>skbs := Map.empty, pool := []\<rparr>"
  by (simp add: outside_skbs_def outside_queues_def)

lemma keeps_skb_queue: "keeps queue_frame m \<Longrightarrow> keeps skb_frame m"
  by (simp add: keeps_def same_def outside_skbs_queues)

lemmas keeps_skb_queue_ops [keep] = keeps_queue_ops [THEN keeps_skb_queue]

lemma keeps_skb_upd [keep]:
  "keeps skb_frame (upd (nodes_update f1))"
  "keeps skb_frame (upd (skbs_update f2))"
  "keeps skb_frame (upd (pool_update f3))"
  by (rule keeps_upd, simp add: same_def outside_skbs_def)+

lemma keeps_skb_ops [keep]:
  "keeps skb_frame new_addr"
  "keeps skb_frame (upd_skb p f)"
  "keeps skb_frame (read_buf p i n)"
  "keeps skb_frame (write_buf p i bs)"
  "keeps skb_frame (SkBuff_new n)"
  "keeps skb_frame (SkBuff_delete p)"
  "keeps skb_frame (reserve_headroom p i)"
  "keeps skb_frame (push p i)"
  "keeps skb_frame (reset_header p)"
  "keeps skb_frame (free_skb p)"
  "keeps skb_frame (skb_put p)"
  unfolding new_addr_def upd_skb_def read_buf_def write_buf_def SkBuff_new_def SkBuff_delete_def
    init_node_def reserve_headroom_def push_def reset_header_def free_skb_def skb_put_def
  by (auto intro!: keep)

section \<open>Running the operations\<close>

definition live_skb :: "'w skb_world_scheme \<Rightarrow> ptr \<Rightarrow> bool" where
  "live_skb w p \<longleftrightarrow> p \<noteq> null \<and> skbs w p \<noteq> None \<and> nodes w p \<noteq> None"

lemma upd_skb_run [run]:
  "p \<noteq> null \<Longrightarrow> skbs w p = Some s \<Longrightarrow> upd_skb p f w = Ok () (w\<lparr>skbs := (skbs w)(p \<mapsto> f s)\<rparr>)"
  by (simp add: upd_skb_def run)

lemma read_buf_run [run]:
  "p \<noteq> null \<Longrightarrow> skbs w p = Some s \<Longrightarrow> in_buf s off n \<Longrightarrow>
     read_buf p off n w = Ok (take n (drop (nat off) (buf s))) w"
  by (simp add: read_buf_def run)

lemma write_buf_run [run]:
  "p \<noteq> null \<Longrightarrow> skbs w p = Some s \<Longrightarrow> in_buf s off (length bs) \<Longrightarrow>
     write_buf p off bs w = Ok () (w\<lparr>skbs := (skbs w)(p \<mapsto> s\<lparr>buf := splice (buf s) (nat off) bs\<rparr>)\<rparr>)"
  by (simp add: write_buf_def run)

lemma SkBuff_new_run [run]:
  "pool w = p # ps \<Longrightarrow> SkBuff_new n w = Ok p (w\<lparr>pool := ps, nodes := (nodes w)(p \<mapsto> \<lparr>lprev = p, lnext = p\<rparr>),
     skbs := (skbs w)(p \<mapsto> SkBuff_init (raw_ptr w) n)\<rparr>)"
  by (simp add: SkBuff_new_def new_addr_def init_node_def run)

lemma SkBuff_delete_run [run]:
  "p \<noteq> null \<Longrightarrow> skbs w p = Some s \<Longrightarrow>
     SkBuff_delete p w = (if data s \<noteq> 0 then Err BadFree
       else Ok () (w\<lparr>skbs := (skbs w)(p := None), nodes := (nodes w)(p := None)\<rparr>))"
  by (simp add: SkBuff_delete_def run)

lemma free_skb_run [run]:
  assumes "p \<noteq> null" and "skbs w p = Some s"
  shows "free_skb p w = (if refcnt s \<le> 1
      then if data s \<noteq> 0 then Err BadFree
        else Ok () (w\<lparr>skbs := (skbs w)(p := None), nodes := (nodes w)(p := None)\<rparr>)
      else Ok () (w\<lparr>skbs := (skbs w)(p \<mapsto> s\<lparr>refcnt := refcnt s - 1\<rparr>)\<rparr>))"
  using assms by (simp add: free_skb_def run)

lemma skb_put_run [run]:
  assumes "p \<noteq> null" and "skbs w p = Some s"
  shows "skb_put p w = (if refcnt s \<le> 2
      then if data s \<noteq> 0 then Err BadFree
        else Ok () (w\<lparr>skbs := (skbs w)(p := None), nodes := (nodes w)(p := None)\<rparr>)
      else Ok () (w\<lparr>skbs := (skbs w)(p \<mapsto> s\<lparr>refcnt := refcnt s - 2\<rparr>)\<rparr>))"
  using assms by (simp add: skb_put_def run)

lemma splice_length [simp]: "i + length new \<le> length bs \<Longrightarrow> length (splice bs i new) = length bs"
  by (simp add: splice_def)

lemma splice_at [simp]:
  "i + length new \<le> length bs \<Longrightarrow> take (length new) (drop i (splice bs i new)) = new"
  by (simp add: splice_def)

lemma splice_before [simp]:
  "j + n \<le> i \<Longrightarrow> i \<le> length bs \<Longrightarrow> take n (drop j (splice bs i new)) = take n (drop j bs)"
  by (simp add: splice_def drop_take[symmetric] take_drop min_def)

lemma splice_after [simp]:
  "i + length new \<le> j \<Longrightarrow> i + length new \<le> length bs \<Longrightarrow> drop j (splice bs i new) = drop j bs"
  by (simp add: splice_def)

lemma touches_skbs:
  assumes "touches q X w w'"
  shows "skbs w' = skbs w" and "pool w' = pool w" and "outside_skbs w' = outside_skbs w"
proof -
  have "f (outside_queues w') = f (outside_queues w)" for f :: "'a skb_world_scheme \<Rightarrow> 'b"
    using touches_outside [OF assms] by simp
  from this [of skbs] this [of pool] show "skbs w' = skbs w" "pool w' = pool w"
    by (simp_all add: outside_queues_def)
  show "outside_skbs w' = outside_skbs w"
    using touches_outside [OF assms] by (simp add: outside_skbs_queues)
qed

section \<open>Releasing a queue of buffers\<close>

definition put_skb :: "skbuff option \<Rightarrow> skbuff option" where
  "put_skb z = (case z of None \<Rightarrow> None
     | Some s \<Rightarrow> if refcnt s \<le> 2 then None else Some (s\<lparr>refcnt := refcnt s - 2\<rparr>))"

definition putable :: "skbuff option \<Rightarrow> bool" where
  "putable z = (case z of None \<Rightarrow> False | Some s \<Rightarrow> refcnt s \<le> 2 \<longrightarrow> data s = 0)"

lemma skb_put_effect:
  assumes "p \<noteq> null" and "skbs w p = Some s" and "putable (Some s)"
  shows "\<exists>w'. skb_put p w = Ok () w' \<and> skbs w' = (skbs w)(p := put_skb (Some s))"
  using assms by (cases "refcnt s \<le> 2") (simp_all add: skb_put_run put_skb_def putable_def)

lemma skb_put_keeps_queue:
  assumes "p \<noteq> null" and "skbs w p = Some s" and "skb_put p w = Ok () w'"
    and "qrep w q xs" and "p \<notin> set (q # xs)"
  shows "qrep w' q xs"
  by (rule qrep_cong [OF assms(4)]) (use assms in \<open>auto simp: skb_put_run split: if_splits\<close>)

text \<open>
  C25. Releasing a queue of buffers returns, and empties the queue: every buffer in it with
  a count of at most 2 is deleted and every other one keeps two references fewer (the
  cleaner decrements once itself and once more in \<open>free_skb\<close>); no other buffer changes.
  The buffers to delete must have \<open>data\<close> at the start of their bytes.
\<close>

theorem skb_queue_free_run:
  assumes rep: "qrep w q xs" and live: "\<forall>x \<in> set xs. putable (skbs w x)"
  shows "\<exists>w'. skb_queue_free q w = Ok () w' \<and> qrep w' q []
    \<and> (\<forall>p. skbs w' p = (if p \<in> set xs then put_skb (skbs w p) else skbs w p))"
proof -
  define I where "I = (\<lambda>ys (u :: 'a skb_world_scheme). (\<exists>zs. xs = zs @ ys)
     \<and> (\<forall>p. skbs u p = (if p \<in> set xs - set ys then put_skb (skbs w p) else skbs w p)))"
  have d: "distinct xs" and null: "null \<notin> set xs" using rep by (auto simp: qrep_def)
  have "\<exists>w'. clear_queue q skb_put w = Ok () w' \<and> qrep w' q [] \<and> I [] w'"
  proof (rule clear_queue_rule [where I = I, OF _ _ rep])
    show "I xs w" by (simp add: I_def)
  next
    fix x ys and u :: "'a skb_world_scheme"
    assume q: "qrep u q ys" and inv: "I (x # ys) u"
    then have skbs: "\<And>p. skbs u p = (if p \<in> set xs - set (x # ys) then put_skb (skbs w p) else skbs w p)"
      unfolding I_def by blast
    from inv obtain zs where xs: "xs = zs @ x # ys" by (auto simp: I_def)
    have x: "x \<in> set xs" "x \<noteq> null" "x \<notin> set ys" "x \<noteq> q"
      using xs d null rep by (auto simp: qrep_def)
    from live x(1) obtain s where s: "skbs w x = Some s" and put: "putable (Some s)"
      by (cases "skbs w x") (auto simp: putable_def)
    then have ux: "skbs u x = Some s" using skbs [of x] by simp
    from skb_put_effect [OF x(2) ux put] obtain u' where
      u': "skb_put x u = Ok () u'" "skbs u' = (skbs u)(x := put_skb (Some s))" by blast
    have "qrep u' q ys"
      using skb_put_keeps_queue [OF x(2) ux u'(1) q] x(3,4) by simp
    moreover have "skbs u' p = (if p \<in> set xs - set ys then put_skb (skbs w p) else skbs w p)" for p
      using u'(2) skbs [of p] x(1,3) s by auto
    then have "I ys u'"
      unfolding I_def using xs by (intro conjI exI [of _ "zs @ [x]"]) auto
    ultimately show "\<exists>u'. skb_put x u = Ok () u' \<and> qrep u' q ys \<and> I ys u'"
      using u'(1) by blast
  next
    fix x ys and u u' :: "'a skb_world_scheme"
    assume "I (x # ys) u" and "touches q (set (x # ys)) u u'"
    moreover from this(2) have "skbs u' = skbs u" by (rule touches_skbs)
    ultimately show "I (x # ys) u'" by (simp add: I_def)
  qed
  then show ?thesis by (auto simp: skb_queue_free_def I_def)
qed

theorem skb_queue_free_run_witness:
  "\<exists>w' :: unit skb_world_scheme. skb_queue_free 8
     \<lparr>nodes = [8 \<mapsto> \<lparr>lprev = 32, lnext = 16\<rparr>, 16 \<mapsto> \<lparr>lprev = 8, lnext = 32\<rparr>, 32 \<mapsto> \<lparr>lprev = 16, lnext = 8\<rparr>],
      queues = [8 \<mapsto> \<lparr>qlen = 2, qoffset = 0\<rparr>],
      skbs = [16 \<mapsto> SkBuff_init 0 4, 32 \<mapsto> (SkBuff_init 0 4)\<lparr>refcnt := 5\<rparr>], pool = [], raw_ptr = 0\<rparr> = Ok () w'
    \<and> skbs w' 16 = None \<and> skbs w' 32 = Some ((SkBuff_init 0 4)\<lparr>refcnt := 3\<rparr>)"
  (is "\<exists>w'. skb_queue_free 8 ?w = Ok () w' \<and> _")
  using skb_queue_free_run [of ?w 8 "[16, 32]"]
  by (auto simp: qrep_def linked_def nx_def pv_def putable_def put_skb_def SkBuff_init_def)

end
