(* ===== verification/Timers.thy ===== *)
theory Timers
  imports Sk_Buff
begin

text \<open>
  The timers of \<open>include/timer.hpp\<close> and \<open>src/timer.cpp\<close>.

  A handler is the closure a timer was created with: which function of the stack it calls
  and on which object. A thread the timer service starts is an entry of \<open>spawned\<close>, in
  the order they are started; running one is a step of its own. \<open>tick\<close> is the C++
  \<open>int\<close> of that name, so comparisons read it as signed.
\<close>

datatype handler =
    Connect_Rto ptr
  | Retransmission_Timeout ptr
  | Send_Delack ptr
  | Linger ptr
  | User_Timeout ptr
  | Garbage_Collect ptr

datatype timer_type = Trackable | Oneshot

record timer =
  trefcnt :: int
  expires :: u32
  cancelled :: bool
  thandler :: handler

record timer_world = skb_world +
  timers :: "ptr \<rightharpoonup> timer"
  timers_queue :: ptr
  tick :: u32
  spawned :: "handler list"

lemma upd_timers_run [run]:
  "upd (timers_update f) w = Ok () (w\<lparr>timers := f (timers w)\<rparr>)"
  "upd (tick_update g) w = Ok () (w\<lparr>tick := g (tick w)\<rparr>)"
  "upd (spawned_update h) w = Ok () (w\<lparr>spawned := h (spawned w)\<rparr>)"
  by (simp_all add: upd_apply)

lemma qrep_timers_upd [simp]:
  "qrep (timers_update f w) q xs = qrep w q xs"
  "qrep (tick_update g w) q xs = qrep w q xs"
  "qrep (spawned_update h w) q xs = qrep w q xs"
  by (rule qrep_only; simp)+

section \<open>Operations\<close>

definition upd_timer :: "ptr \<Rightarrow> (timer \<Rightarrow> timer) \<Rightarrow> ('w timer_world_scheme, unit) M" where
  "upd_timer p f = bnd (load timers p) (\<lambda>t. upd (timers_update (\<lambda>h. h(p \<mapsto> f t))))"

definition timer_get_tick :: "('w timer_world_scheme, u32) M" where
  "timer_get_tick = get tick"

definition Timer_init :: "u32 \<Rightarrow> u32 \<Rightarrow> handler \<Rightarrow> timer_type \<Rightarrow> timer" where
  "Timer_init now after h ty = \<lparr>trefcnt = (if ty = Oneshot then 0 else 1),
     expires = now + after, cancelled = False, thandler = h\<rparr>"

definition Timer_create :: "u32 \<Rightarrow> handler \<Rightarrow> timer_type \<Rightarrow> ('w timer_world_scheme, ptr) M" where
  "Timer_create after h ty = bnd new_addr (\<lambda>p. bnd timer_get_tick (\<lambda>now.
     sq (init_node p) (sq (upd (timers_update (\<lambda>m. m(p \<mapsto> Timer_init now after h ty))))
       (bnd (get timers_queue) (\<lambda>q. sq (queue_add_tail q p) (ret p))))))"

definition Timer_release :: "ptr \<Rightarrow> ('w timer_world_scheme, unit) M" where
  "Timer_release p = upd_timer p (\<lambda>t.
     if 0 < trefcnt t then t\<lparr>trefcnt := trefcnt t - 1\<rparr> else t)"

definition Timer_cancel :: "ptr \<Rightarrow> ('w timer_world_scheme, unit) M" where
  "Timer_cancel p = upd_timer p (\<lambda>t.
     (if 0 < trefcnt t then t\<lparr>trefcnt := trefcnt t - 1\<rparr> else t)\<lparr>cancelled := True\<rparr>)"

definition timer_free :: "ptr \<Rightarrow> ('w timer_world_scheme, unit) M" where
  "timer_free p = bnd (load timers p) (\<lambda>_.
     sq (upd (timers_update (\<lambda>h. h(p := None)))) (upd (nodes_update (\<lambda>h. h(p := None)))))"

definition fires :: "u32 \<Rightarrow> timer \<Rightarrow> bool" where
  "fires now t \<longleftrightarrow> cancelled t \<and> sint (expires t) < sint now"

definition reaped :: "timer \<Rightarrow> bool" where
  "reaped t \<longleftrightarrow> cancelled t \<and> trefcnt t = 0"

definition timers_tick_body :: "ptr \<Rightarrow> unit \<Rightarrow> ('w timer_world_scheme, bool \<times> unit) M" where
  "timers_tick_body pos u =
     (if pos = null then ret (False, ())
      else bnd (load timers (list_entry pos 0)) (\<lambda>t. bnd (get tick) (\<lambda>now.
        sq (onlyif (fires now t)
              (sq (upd_timer (list_entry pos 0) (\<lambda>t. t\<lparr>cancelled := True\<rparr>))
                  (upd (spawned_update (\<lambda>l. l @ [thandler t])))))
        (sq (onlyif (reaped t)
              (bnd (get timers_queue) (\<lambda>q. sq (queue_del q pos) (timer_free (list_entry pos 0)))))
        (ret (False, ()))))))"

definition timers_tick :: "('w timer_world_scheme, unit) M" where
  "timers_tick = bnd (get timers_queue) (\<lambda>q. list_for_each_safe q timers_tick_body ())"

text \<open>
  One iteration of the endless loop of \<open>timers_start\<close>, up to its debugging output (see
  \<open>timers_start_round\<close> of \<open>System_Calls\<close>).
\<close>

definition timers_start_step :: "('w timer_world_scheme, unit) M" where
  "timers_start_step = sq (upd (tick_update (\<lambda>t. t + 10))) timers_tick"

section \<open>What the operations touch\<close>

definition outside_timers :: "'w timer_world_scheme \<Rightarrow> 'w timer_world_scheme" where
  "outside_timers w = w\<lparr>nodes := Map.empty, queues := Map.empty, skbs := Map.empty, pool := [],
     timers := Map.empty, tick := 0, spawned := []\<rparr>"

abbreviation timer_frame :: "'w timer_world_scheme \<Rightarrow> 'w timer_world_scheme \<Rightarrow> bool" where
  "timer_frame \<equiv> same outside_timers"

lemma outside_timers_skbs:
  "outside_timers w = (outside_skbs w)\<lparr>timers := Map.empty, tick := 0, spawned := []\<rparr>"
  by (simp add: outside_timers_def outside_skbs_def)

lemma keeps_timer_skb: "keeps skb_frame m \<Longrightarrow> keeps timer_frame m"
  by (simp add: keeps_def same_def outside_timers_skbs)

lemmas keeps_timer_skb_ops [keep] =
  keeps_skb_queue_ops [THEN keeps_timer_skb] keeps_skb_ops [THEN keeps_timer_skb]
  keeps_skb_upd [THEN keeps_timer_skb]

lemma keeps_timer_upd [keep]:
  "keeps timer_frame (upd (timers_update f1))"
  "keeps timer_frame (upd (tick_update f2))"
  "keeps timer_frame (upd (spawned_update f3))"
  by (rule keeps_upd, simp add: same_def outside_timers_def)+

lemma keeps_timer_ops [keep]:
  "keeps timer_frame (upd_timer p f)"
  "keeps timer_frame timer_get_tick"
  "keeps timer_frame (Timer_create n h ty)"
  "keeps timer_frame (Timer_release p)"
  "keeps timer_frame (Timer_cancel p)"
  "keeps timer_frame (timer_free p)"
  unfolding upd_timer_def timer_get_tick_def Timer_create_def init_node_def Timer_release_def
    Timer_cancel_def timer_free_def
  by (auto intro!: keep)

section \<open>Running the operations\<close>

lemma upd_timer_run [run]:
  "p \<noteq> null \<Longrightarrow> timers w p = Some t \<Longrightarrow> upd_timer p f w = Ok () (w\<lparr>timers := (timers w)(p \<mapsto> f t)\<rparr>)"
  "upd_timer null f w = Err NullDeref"
  by (simp_all add: upd_timer_def run)

lemma timer_ops_null [run]:
  "Timer_release null w = Err NullDeref"
  "Timer_cancel null w = Err NullDeref"
  by (simp_all add: Timer_release_def Timer_cancel_def run)

definition put_timer :: "timer \<Rightarrow> timer" where
  "put_timer t = (if 0 < trefcnt t then t\<lparr>trefcnt := trefcnt t - 1\<rparr> else t)"

lemma Timer_release_run [run]:
  "p \<noteq> null \<Longrightarrow> timers w p = Some t \<Longrightarrow>
     Timer_release p w = Ok () (w\<lparr>timers := (timers w)(p \<mapsto> put_timer t)\<rparr>)"
  by (simp add: Timer_release_def put_timer_def run)

lemma Timer_cancel_run [run]:
  "p \<noteq> null \<Longrightarrow> timers w p = Some t \<Longrightarrow>
     Timer_cancel p w = Ok () (w\<lparr>timers := (timers w)(p \<mapsto> (put_timer t)\<lparr>cancelled := True\<rparr>)\<rparr>)"
  by (simp add: Timer_cancel_def put_timer_def run)

lemma timer_free_run [run]:
  "p \<noteq> null \<Longrightarrow> timers w p = Some t \<Longrightarrow>
     timer_free p w = Ok () (w\<lparr>timers := (timers w)(p := None), nodes := (nodes w)(p := None)\<rparr>)"
  by (simp add: timer_free_def run)

lemma touches_timers:
  assumes "touches q X w w'"
  shows "timers w' = timers w" and "tick w' = tick w" and "spawned w' = spawned w"
    and "timers_queue w' = timers_queue w"
proof -
  have "f (outside_queues w') = f (outside_queues w)" for f :: "'a timer_world_scheme \<Rightarrow> 'b"
    using touches_outside [OF assms] by simp
  from this [of timers] this [of tick] this [of spawned] this [of timers_queue]
  show "timers w' = timers w" "tick w' = tick w" "spawned w' = spawned w"
    "timers_queue w' = timers_queue w"
    by (simp_all add: outside_queues_def)
qed

text \<open>Creating a timer appends it to the timers' queue, armed, and returns its address.\<close>

lemma Timer_create_run:
  assumes rep: "qrep w (timers_queue w) xs" and new: "pool w = p # ps"
    and fresh: "p \<noteq> null" "p \<notin> set (timers_queue w # xs)"
  shows "\<exists>w'. Timer_create n h ty w = Ok p w' \<and> qrep w' (timers_queue w) (xs @ [p])
    \<and> timers w' = (timers w)(p \<mapsto> Timer_init (tick w) n h ty) \<and> pool w' = ps
    \<and> skbs w' = skbs w \<and> tick w' = tick w \<and> spawned w' = spawned w
    \<and> (\<forall>r. r \<notin> set (timers_queue w # p # xs) \<longrightarrow> nodes w' r = nodes w r)
    \<and> (\<forall>r. r \<noteq> timers_queue w \<longrightarrow> queues w' r = queues w r)"
proof -
  let ?q = "timers_queue w"
  let ?w1 = "w\<lparr>pool := ps, nodes := (nodes w)(p \<mapsto> \<lparr>lprev = p, lnext = p\<rparr>),
    timers := (timers w)(p \<mapsto> Timer_init (tick w) n h ty)\<rparr>"
  have "qrep ?w1 ?q xs"
    by (rule qrep_cong [OF rep]) (use fresh in auto)
  moreover have "detached ?w1 p" using fresh by (simp add: detached_def)
  ultimately obtain w' where w': "queue_add_tail ?q p ?w1 = Ok () w'"
    "qrep w' ?q (xs @ [p])" "touches ?q (insert p (set xs)) ?w1 w'"
    using queue_add_tail_run [of ?w1 ?q xs p] fresh by blast
  have "Timer_create n h ty w = Ok p w'"
    using new w'(1) by (simp add: Timer_create_def new_addr_def timer_get_tick_def init_node_def run)
  moreover have "nodes w' r = nodes w r" if "r \<notin> set (?q # p # xs)" for r
    using w'(3) that by (auto simp: touches_def)
  moreover have "queues w' r = queues w r" if "r \<noteq> ?q" for r
    using w'(3) that by (auto simp: touches_def)
  ultimately show ?thesis
    using w'(2) touches_timers [OF w'(3)] touches_skbs [OF w'(3)] by auto
qed

section \<open>One tick of the timer service\<close>

text \<open>What one round of the tick does to the timer it looks at.\<close>

lemma timers_tick_body_run:
  assumes u: "qrep u (timers_queue u) (ys @ x # zs)" and tx: "timers u x = Some t"
  shows "\<exists>w'. timers_tick_body x s u = Ok (False, ()) w'
    \<and> qrep w' (timers_queue u) (ys @ (if reaped t then zs else x # zs))
    \<and> spawned w' = spawned u @ (if fires (tick u) t then [thandler t] else [])
    \<and> timers w' = (if reaped t then (timers u)(x := None) else timers u)
    \<and> tick w' = tick u \<and> timers_queue w' = timers_queue u"
proof -
  let ?q = "timers_queue u"
  have x: "x \<noteq> null" using u by (auto simp: qrep_def)
  define v where "v = (if fires (tick u) t
    then u\<lparr>timers := (timers u)(x \<mapsto> t\<lparr>cancelled := True\<rparr>), spawned := spawned u @ [thandler t]\<rparr> else u)"
  have v: "qrep v ?q (ys @ x # zs)" by (rule qrep_cong [OF u]) (simp_all add: v_def)
  have fields: "timers v = timers u" "tick v = tick u" "timers_queue v = ?q"
    "spawned v = spawned u @ (if fires (tick u) t then [thandler t] else [])"
    using tx by (auto simp: v_def fires_def fun_eq_iff)
  have body: "timers_tick_body x s u = (if reaped t
      then andthen (queue_del ?q x v) (\<lambda>_. sq (timer_free x) (ret (False, ()))) else Ok (False, ()) v)"
    using x tx by (simp add: timers_tick_body_def run list_entry_def v_def)
  show ?thesis
  proof (cases "reaped t")
    case False
    with body v fields show ?thesis by simp
  next
    case True
    from queue_del_run [OF v] obtain d where d: "queue_del ?q x v = Ok () d"
      "qrep d ?q (ys @ zs)" "touches ?q (set (ys @ x # zs)) v d" by blast
    let ?d = "d\<lparr>timers := (timers d)(x := None), nodes := (nodes d)(x := None)\<rparr>"
    note same = touches_timers [OF d(3)]
    have "timers_tick_body x s u = Ok (False, ()) ?d"
      using body True d(1) timer_free_run [OF x, of d t] same fields tx by (simp add: run)
    moreover have "qrep ?d ?q (ys @ zs)"
      by (rule qrep_cong [OF d(2)]) (use v in \<open>auto simp: qrep_def\<close>)
    ultimately show ?thesis using same fields True by simp
  qed
qed





end
