(* ===== verification/Socks.thy ===== *)
theory Socks
  imports Timers
begin

text \<open>
  The two socket objects, \<open>Sock\<close> (\<open>include/sock.hpp\<close>, the transport side) and
  \<open>Socket\<close> (\<open>include/socket.hpp\<close>, the application side), the table of sockets with its
  look-ups, and the locking and deletion of a \<open>Socket\<close> (\<open>src/sock.cpp\<close>,
  \<open>src/socket.cpp\<close>).

  The two queues embedded in a \<open>Sock\<close> are given by their addresses. A \<open>Socket\<close>'s
  mutex is a flag: the functions here run on behalf of one thread, so acquiring it a second
  time is a deadlock with oneself, and releasing it unheld is undefined.
\<close>

section \<open>Data\<close>

datatype tcp_state =
    TCP_LISTEN | TCP_SYN_SENT | TCP_SYN_RECEIVED | TCP_ESTABLISHED | TCP_FIN_WAIT_1
  | TCP_FIN_WAIT_2 | TCP_CLOSE | TCP_CLOSE_WAIT | TCP_CLOSING | TCP_LAST_ACK | TCP_TIME_WAIT

datatype socket_state =
    SS_FREE | SS_UNCONNECTED | SS_CONNECTING | SS_CONNECTED | SS_DISCONNECTING

text \<open>The enumerations are backed by \<open>uint8_t\<close>: their order is the order of their codes.\<close>

fun tcp_state_code :: "tcp_state \<Rightarrow> nat" where
  "tcp_state_code TCP_LISTEN = 0"
| "tcp_state_code TCP_SYN_SENT = 1"
| "tcp_state_code TCP_SYN_RECEIVED = 2"
| "tcp_state_code TCP_ESTABLISHED = 3"
| "tcp_state_code TCP_FIN_WAIT_1 = 4"
| "tcp_state_code TCP_FIN_WAIT_2 = 5"
| "tcp_state_code TCP_CLOSE = 6"
| "tcp_state_code TCP_CLOSE_WAIT = 7"
| "tcp_state_code TCP_CLOSING = 8"
| "tcp_state_code TCP_LAST_ACK = 9"
| "tcp_state_code TCP_TIME_WAIT = 10"

lemma tcp_state_code_inj [simp]: "tcp_state_code s = tcp_state_code t \<longleftrightarrow> s = t"
  by (cases s; cases t; simp)

instantiation tcp_state :: linorder
begin

definition less_eq_tcp_state :: "tcp_state \<Rightarrow> tcp_state \<Rightarrow> bool" where
  "less_eq_tcp_state s t \<longleftrightarrow> tcp_state_code s \<le> tcp_state_code t"

definition less_tcp_state :: "tcp_state \<Rightarrow> tcp_state \<Rightarrow> bool" where
  "less_tcp_state s t \<longleftrightarrow> tcp_state_code s < tcp_state_code t"

instance
  by standard (auto simp: less_eq_tcp_state_def less_tcp_state_def)

end

record sock =
  sk_socket :: ptr
  receive_queue :: ptr
  write_queue :: ptr
  sk_protocol :: int
  sk_state :: tcp_state
  sk_err :: int
  poll_events :: u16
  sport :: u16
  dport :: u16
  saddr :: u32
  daddr :: u32
  recv_sleeping :: bool

record socket =
  so_fd :: int
  so_pid :: int
  so_refcnt :: int
  so_state :: socket_state
  so_type :: int
  so_flags :: int
  so_sk :: ptr
  so_ops :: bool
  so_sleeping :: bool
  so_locked :: bool

record sock_world = timer_world +
  socks :: "ptr \<rightharpoonup> sock"
  sockets :: "ptr \<rightharpoonup> socket"
  sockets_queue :: ptr
  sock_amount :: int

lemma upd_socks_run [run]:
  "upd (socks_update f) w = Ok () (w\<lparr>socks := f (socks w)\<rparr>)"
  "upd (sockets_update g) w = Ok () (w\<lparr>sockets := g (sockets w)\<rparr>)"
  "upd (sock_amount_update h) w = Ok () (w\<lparr>sock_amount := h (sock_amount w)\<rparr>)"
  by (simp_all add: upd_apply)

lemma qrep_socks_upd [simp]:
  "qrep (socks_update f w) q xs = qrep w q xs"
  "qrep (sockets_update g w) q xs = qrep w q xs"
  "qrep (sock_amount_update h w) q xs = qrep w q xs"
  by (rule qrep_only; simp)+

text \<open>The values of \<open>poll.h\<close> and \<open>errno.h\<close> on Linux.\<close>

definition POLLIN :: u16 where "POLLIN = 0x001"
definition POLLPRI :: u16 where "POLLPRI = 0x002"
definition POLLOUT :: u16 where "POLLOUT = 0x004"
definition POLLERR :: u16 where "POLLERR = 0x008"
definition POLLHUP :: u16 where "POLLHUP = 0x010"
definition POLLRDNORM :: u16 where "POLLRDNORM = 0x040"
definition POLLRDBAND :: u16 where "POLLRDBAND = 0x080"
definition POLLWRNORM :: u16 where "POLLWRNORM = 0x100"
definition POLLWRBAND :: u16 where "POLLWRBAND = 0x200"

definition EBADF :: int where "EBADF = 9"
definition EAGAIN :: int where "EAGAIN = 11"
definition EINVAL :: int where "EINVAL = 22"
definition EPIPE :: int where "EPIPE = 32"
definition ECONNRESET :: int where "ECONNRESET = 104"
definition EISCONN :: int where "EISCONN = 106"
definition ETIMEDOUT :: int where "ETIMEDOUT = 110"
definition ECONNREFUSED :: int where "ECONNREFUSED = 111"

section \<open>Access\<close>

definition upd_sk :: "ptr \<Rightarrow> (sock \<Rightarrow> sock) \<Rightarrow> ('w sock_world_scheme, unit) M" where
  "upd_sk p f = bnd (load socks p) (\<lambda>s. upd (socks_update (\<lambda>h. h(p \<mapsto> f s))))"

definition upd_so :: "ptr \<Rightarrow> (socket \<Rightarrow> socket) \<Rightarrow> ('w sock_world_scheme, unit) M" where
  "upd_so p f = bnd (load sockets p) (\<lambda>s. upd (sockets_update (\<lambda>h. h(p \<mapsto> f s))))"

section \<open>Locking, waking and deleting\<close>

definition socket_wr_acquire :: "ptr \<Rightarrow> ('w sock_world_scheme, int) M" where
  "socket_wr_acquire p = bnd (load sockets p) (\<lambda>s.
     if so_locked s then fail Deadlock
     else sq (upd_so p (\<lambda>s. s\<lparr>so_locked := True, so_refcnt := so_refcnt s + 1\<rparr>)) (ret 0))"

definition socket_rd_acquire :: "ptr \<Rightarrow> ('w sock_world_scheme, int) M" where
  "socket_rd_acquire p = bnd (load sockets p) (\<lambda>s.
     if so_locked s then fail Deadlock
     else sq (upd_so p (\<lambda>s. s\<lparr>so_locked := True, so_refcnt := so_refcnt s + 1\<rparr>)) (ret 0))"

definition Socket_delete :: "ptr \<Rightarrow> ('w sock_world_scheme, unit) M" where
  "Socket_delete p = bnd (load sockets p) (\<lambda>_.
     sq (upd (sockets_update (\<lambda>h. h(p := None)))) (upd (nodes_update (\<lambda>h. h(p := None)))))"

definition socket_release :: "ptr \<Rightarrow> ('w sock_world_scheme, int) M" where
  "socket_release p =
     sq (upd_so p (\<lambda>s. s\<lparr>so_refcnt := so_refcnt s - 1\<rparr>))
     (bnd (load sockets p) (\<lambda>s.
       if \<not> so_locked s then fail NotOwner
       else sq (upd_so p (\<lambda>s. s\<lparr>so_locked := False\<rparr>))
         (sq (onlyif (so_refcnt s = 0) (Socket_delete p)) (ret 0))))"

definition socket_wakeup :: "ptr \<Rightarrow> ('w sock_world_scheme, int) M" where
  "socket_wakeup p = sq (upd_so p (\<lambda>s. s\<lparr>so_sleeping := False\<rparr>)) (ret 0)"

definition recv_wakeup :: "ptr \<Rightarrow> ('w sock_world_scheme, int) M" where
  "recv_wakeup p = sq (upd_sk p (\<lambda>s. s\<lparr>recv_sleeping := False\<rparr>)) (ret 0)"

definition socket_delete :: "ptr \<Rightarrow> ('w sock_world_scheme, int) M" where
  "socket_delete p = bnd (load sockets p) (\<lambda>s.
     if so_state s = SS_DISCONNECTING then ret 0
     else sq (upd_so p (\<lambda>s. s\<lparr>so_state := SS_DISCONNECTING\<rparr>))
       (sq (Timer_create 10000 (Garbage_Collect p) Oneshot) (ret 0)))"

definition sock_connected :: "ptr \<Rightarrow> ('w sock_world_scheme, unit) M" where
  "sock_connected sk = bnd (load socks sk) (\<lambda>s.
     sq (upd_so (sk_socket s) (\<lambda>o'. o'\<lparr>so_state := SS_CONNECTED\<rparr>))
     (sq (upd_sk sk (\<lambda>s. s\<lparr>sk_err := 0\<rparr>))
     (sq (upd_sk sk (\<lambda>s. s\<lparr>poll_events := POLLOUT OR POLLWRNORM OR POLLWRBAND\<rparr>))
     (bnd (load socks sk) (\<lambda>s. sq (socket_wakeup (sk_socket s)) skip)))))"

definition sock_init_data :: "ptr \<Rightarrow> ptr \<Rightarrow> ('w sock_world_scheme, unit) M" where
  "sock_init_data so sk =
     sq (upd_so so (\<lambda>o'. o'\<lparr>so_sk := sk\<rparr>))
     (sq (upd_sk sk (\<lambda>s. s\<lparr>sk_socket := so\<rparr>))
     (upd_sk sk (\<lambda>s. s\<lparr>poll_events := 0\<rparr>)))"

definition sock_free :: "ptr \<Rightarrow> ('w sock_world_scheme, unit) M" where
  "sock_free sk = bnd (load socks sk) (\<lambda>s.
     sq (skb_queue_free (receive_queue s)) (skb_queue_free (write_queue s)))"

definition write_queue_head :: "ptr \<Rightarrow> ('w sock_world_scheme, ptr) M" where
  "write_queue_head sk = bnd (load socks sk) (\<lambda>s. queue_first_entry (write_queue s))"

section \<open>The table of sockets\<close>

text \<open>
  The constructor gives every socket the descriptor \<open>4097 + 1\<close>. The members it leaves
  uninitialised hold what the memory held: \<open>type\<close>, the pointer \<open>sk\<close>.
\<close>

definition Socket_init :: "ptr \<Rightarrow> int \<Rightarrow> int \<Rightarrow> socket" where
  "Socket_init raw rawtype pid = \<lparr>so_fd = 4097 + 1, so_pid = pid, so_refcnt = 1,
     so_state = SS_UNCONNECTED, so_type = rawtype, so_flags = 2, so_sk = raw, so_ops = False,
     so_sleeping = False, so_locked = False\<rparr>"

definition socket_find_body :: "ptr \<Rightarrow> ptr \<Rightarrow> ptr \<Rightarrow> ('w sock_world_scheme, bool \<times> ptr) M" where
  "socket_find_body query pos found =
     (if list_entry pos 0 = query then ret (True, list_entry pos 0) else ret (False, found))"

definition socket_find :: "ptr \<Rightarrow> ('w sock_world_scheme, ptr) M" where
  "socket_find query = bnd (get sockets_queue) (\<lambda>q. list_for_each q (socket_find_body query) null)"

definition get_socket_body :: "int \<Rightarrow> int \<Rightarrow> ptr \<Rightarrow> ptr \<Rightarrow> ('w sock_world_scheme, bool \<times> ptr) M" where
  "get_socket_body pid fd pos found = bnd (load sockets (list_entry pos 0)) (\<lambda>s.
     if so_pid s = pid \<and> so_fd s = fd then ret (True, list_entry pos 0) else ret (False, found))"

definition get_socket :: "int \<Rightarrow> int \<Rightarrow> ('w sock_world_scheme, ptr) M" where
  "get_socket pid fd = bnd (get sockets_queue) (\<lambda>q. list_for_each q (get_socket_body pid fd) null)"

definition socket_lookup_body :: "u16 \<Rightarrow> u16 \<Rightarrow> ptr \<Rightarrow> ptr \<Rightarrow> ('w sock_world_scheme, bool \<times> ptr) M" where
  "socket_lookup_body remote_port local_port pos found =
     (if list_entry pos 0 = null then ret (False, found)
      else bnd (load sockets (list_entry pos 0)) (\<lambda>s.
        if so_sk s = null then ret (False, found)
        else bnd (load socks (so_sk s)) (\<lambda>sk.
          if sport sk = local_port \<and> dport sk = remote_port then ret (True, list_entry pos 0)
          else ret (False, found))))"

definition socket_lookup :: "u16 \<Rightarrow> u16 \<Rightarrow> ('w sock_world_scheme, ptr) M" where
  "socket_lookup remote_port local_port = bnd (get sockets_queue) (\<lambda>q.
     list_for_each q (socket_lookup_body remote_port local_port) null)"

definition inet_lookup :: "ptr \<Rightarrow> u16 \<Rightarrow> u16 \<Rightarrow> ('w sock_world_scheme, ptr) M" where
  "inet_lookup skb sp dp = bnd (socket_lookup sp dp) (\<lambda>so.
     if so = null then ret null else bnd (load sockets so) (\<lambda>s. ret (so_sk s)))"

section \<open>What the operations touch\<close>

definition outside_socks :: "'w sock_world_scheme \<Rightarrow> 'w sock_world_scheme" where
  "outside_socks w = w\<lparr>nodes := Map.empty, queues := Map.empty, skbs := Map.empty, pool := [],
     timers := Map.empty, tick := 0, spawned := [], socks := Map.empty, sockets := Map.empty,
     sock_amount := 0\<rparr>"

abbreviation sock_frame :: "'w sock_world_scheme \<Rightarrow> 'w sock_world_scheme \<Rightarrow> bool" where
  "sock_frame \<equiv> same outside_socks"

lemma outside_socks_timers:
  "outside_socks w = (outside_timers w)\<lparr>socks := Map.empty, sockets := Map.empty, sock_amount := 0\<rparr>"
  by (simp add: outside_timers_def outside_socks_def)

lemma keeps_sock_timer: "keeps timer_frame m \<Longrightarrow> keeps sock_frame m"
  by (simp add: keeps_def same_def outside_socks_timers)

lemmas keeps_sock_timer_ops [keep] =
  keeps_timer_skb_ops [THEN keeps_sock_timer] keeps_timer_ops [THEN keeps_sock_timer]

lemma keeps_sock_upd [keep]:
  "keeps sock_frame (upd (socks_update f1))"
  "keeps sock_frame (upd (sockets_update f2))"
  "keeps sock_frame (upd (sock_amount_update f3))"
  by (rule keeps_upd, simp add: same_def outside_socks_def)+

lemma keeps_sock_ops [keep]:
  "keeps sock_frame (upd_sk p f)"
  "keeps sock_frame (upd_so p g)"
  "keeps sock_frame (socket_wr_acquire p)"
  "keeps sock_frame (socket_rd_acquire p)"
  "keeps sock_frame (socket_release p)"
  "keeps sock_frame (socket_wakeup p)"
  "keeps sock_frame (recv_wakeup p)"
  "keeps sock_frame (socket_delete p)"
  "keeps sock_frame (sock_connected p)"
  "keeps sock_frame (sock_init_data p r)"
  "keeps sock_frame (write_queue_head p)"
  unfolding upd_sk_def upd_so_def socket_wr_acquire_def socket_rd_acquire_def socket_release_def
    Socket_delete_def socket_wakeup_def recv_wakeup_def socket_delete_def sock_connected_def
    sock_init_data_def write_queue_head_def
  by (auto intro!: keep)

section \<open>Running the operations\<close>

lemma upd_sk_run [run]:
  "p \<noteq> null \<Longrightarrow> socks w p = Some s \<Longrightarrow> upd_sk p f w = Ok () (w\<lparr>socks := (socks w)(p \<mapsto> f s)\<rparr>)"
  by (simp add: upd_sk_def run)

lemma upd_so_run [run]:
  "p \<noteq> null \<Longrightarrow> sockets w p = Some s \<Longrightarrow>
     upd_so p f w = Ok () (w\<lparr>sockets := (sockets w)(p \<mapsto> f s)\<rparr>)"
  by (simp add: upd_so_def run)

lemma recv_wakeup_run [run]:
  "p \<noteq> null \<Longrightarrow> socks w p = Some s \<Longrightarrow>
     recv_wakeup p w = Ok 0 (w\<lparr>socks := (socks w)(p \<mapsto> s\<lparr>recv_sleeping := False\<rparr>)\<rparr>)"
  by (simp add: recv_wakeup_def run)

lemma socket_acquire_run [run]:
  assumes "p \<noteq> null" and "sockets w p = Some s"
  shows "socket_wr_acquire p w = (if so_locked s then Err Deadlock
      else Ok 0 (w\<lparr>sockets := (sockets w)(p \<mapsto> s\<lparr>so_locked := True, so_refcnt := so_refcnt s + 1\<rparr>)\<rparr>))"
    and "socket_rd_acquire p w = (if so_locked s then Err Deadlock
      else Ok 0 (w\<lparr>sockets := (sockets w)(p \<mapsto> s\<lparr>so_locked := True, so_refcnt := so_refcnt s + 1\<rparr>)\<rparr>))"
  using assms by (simp_all add: socket_wr_acquire_def socket_rd_acquire_def run)

lemma socket_release_run [run]:
  assumes "p \<noteq> null" and "sockets w p = Some s"
  shows "socket_release p w = (if \<not> so_locked s then Err NotOwner
      else if so_refcnt s = 1
        then Ok 0 (w\<lparr>sockets := (sockets w)(p := None), nodes := (nodes w)(p := None)\<rparr>)
      else Ok 0 (w\<lparr>sockets := (sockets w)(p \<mapsto> s\<lparr>so_refcnt := so_refcnt s - 1, so_locked := False\<rparr>)\<rparr>))"
  using assms by (simp add: socket_release_def Socket_delete_def run)

text \<open>
  The lock and the count of a socket pair up: on a live, unlocked socket with a
  positive count, acquiring it and releasing it again both succeed and leave the whole
  state as it was, while a second acquisition by the holder deadlocks.
\<close>

theorem socket_acquire_release:
  assumes "p \<noteq> null" and "sockets w p = Some s" and "\<not> so_locked s" and "0 < so_refcnt s"
  shows "sq (socket_wr_acquire p) (socket_release p) w = Ok 0 w
    \<and> sq (socket_wr_acquire p) (socket_wr_acquire p) w = Err Deadlock"
proof -
  have "(sockets w)(p \<mapsto> s\<lparr>so_locked := False\<rparr>) = sockets w"
    using assms(2,3) by (intro fun_upd_idem) simp
  then show ?thesis using assms by (simp add: run)
qed

theorem socket_acquire_release_witness:
  "let w = \<lparr>nodes = Map.empty, queues = Map.empty, skbs = Map.empty, pool = [], raw_ptr = 0,
      timers = Map.empty, timers_queue = 8, tick = 0, spawned = [], socks = Map.empty,
      sockets = [64 \<mapsto> Socket_init 0 0 7], sockets_queue = 24, sock_amount = 1\<rparr>
    in sq (socket_wr_acquire 64) (socket_release 64) w = Ok 0 w
    \<and> sq (socket_wr_acquire 64) (socket_wr_acquire 64) w = Err Deadlock"
  unfolding Let_def by (rule socket_acquire_release [where s = "Socket_init 0 0 7"]) (simp_all add: Socket_init_def)

section \<open>Looking sockets up\<close>

definition socket_table :: "'w sock_world_scheme \<Rightarrow> ptr list \<Rightarrow> (ptr \<Rightarrow> socket) \<Rightarrow> bool" where
  "socket_table w xs S \<longleftrightarrow> qrep w (sockets_queue w) xs \<and> (\<forall>x \<in> set xs. sockets w x = Some (S x))"

definition found :: "ptr option \<Rightarrow> ptr" where
  "found z = (case z of None \<Rightarrow> null | Some x \<Rightarrow> x)"

lemma scan_find: "scan (\<lambda>x s. if P x then (True, x) else (False, s)) xs null = found (find P xs)"
  by (induction xs) (simp_all add: found_def)

lemma found_find_eq: "found (find (\<lambda>x. x = q) xs) = (if q \<in> set xs then q else null)"
  by (induction xs) (auto simp: found_def)

text \<open>
  The look-ups return the first socket of the table that matches and the null pointer
  when none does, and change nothing: \<open>get_socket\<close> matches process and descriptor,
  \<open>socket_lookup\<close> the two ports of a socket that has its transport side.
\<close>

theorem socket_lookups_run:
  assumes table: "socket_table w xs S"
    and sks: "\<forall>x \<in> set xs. so_sk (S x) \<noteq> null \<longrightarrow> socks w (so_sk (S x)) = Some (K (so_sk (S x)))"
  shows "get_socket pid fd w = Ok (found (find (\<lambda>x. so_pid (S x) = pid \<and> so_fd (S x) = fd) xs)) w
    \<and> socket_lookup rp lp w = Ok (found (find (\<lambda>x. so_sk (S x) \<noteq> null
        \<and> sport (K (so_sk (S x))) = lp \<and> dport (K (so_sk (S x))) = rp) xs)) w
    \<and> socket_find query w = Ok (if query \<in> set xs then query else null) w"
proof -
  have rep: "qrep w (sockets_queue w) xs" and S: "\<And>x. x \<in> set xs \<Longrightarrow> sockets w x = Some (S x)"
    using table by (auto simp: socket_table_def)
  have nz: "x \<noteq> null" if "x \<in> set xs" for x using rep that by (auto simp: qrep_def)
  have "list_for_each (sockets_queue w) (get_socket_body pid fd) null w
      = Ok (scan (\<lambda>x s. if so_pid (S x) = pid \<and> so_fd (S x) = fd then (True, x) else (False, s)) xs null) w"
    by (rule list_for_each_pure [OF rep]) (simp add: get_socket_body_def list_entry_def run S nz)
  then have "get_socket pid fd w = Ok (found (find (\<lambda>x. so_pid (S x) = pid \<and> so_fd (S x) = fd) xs)) w"
    by (simp add: get_socket_def run scan_find)
  moreover have "list_for_each (sockets_queue w) (socket_lookup_body rp lp) null w
      = Ok (scan (\<lambda>x s. if so_sk (S x) \<noteq> null \<and> sport (K (so_sk (S x))) = lp
          \<and> dport (K (so_sk (S x))) = rp then (True, x) else (False, s)) xs null) w"
  proof (rule list_for_each_pure [OF rep])
    fix x s
    assume x: "x \<in> set xs"
    show "socket_lookup_body rp lp x s w = Ok (if so_sk (S x) \<noteq> null \<and> sport (K (so_sk (S x))) = lp
          \<and> dport (K (so_sk (S x))) = rp then (True, x) else (False, s)) w"
      using S [OF x] nz [OF x] sks x
      by (cases "so_sk (S x) = null") (simp_all add: socket_lookup_body_def list_entry_def run)
  qed
  then have "socket_lookup rp lp w = Ok (found (find (\<lambda>x. so_sk (S x) \<noteq> null
      \<and> sport (K (so_sk (S x))) = lp \<and> dport (K (so_sk (S x))) = rp) xs)) w"
    by (simp add: socket_lookup_def run scan_find)
  moreover have "list_for_each (sockets_queue w) (socket_find_body query) null w
      = Ok (scan (\<lambda>x s. if x = query then (True, x) else (False, s)) xs null) w"
    by (rule list_for_each_pure [OF rep]) (simp add: socket_find_body_def list_entry_def run)
  then have "socket_find query w = Ok (found (find (\<lambda>x. x = query) xs)) w"
    by (simp add: socket_find_def run scan_find)
  ultimately show ?thesis by (simp add: found_find_eq)
qed

theorem socket_lookups_run_witness:
  "get_socket 7 4098 (\<lparr>nodes = [24 \<mapsto> \<lparr>lprev = 64, lnext = 64\<rparr>, 64 \<mapsto> \<lparr>lprev = 24, lnext = 24\<rparr>],
      queues = [24 \<mapsto> \<lparr>qlen = 1, qoffset = 0\<rparr>], skbs = Map.empty, pool = [], raw_ptr = 0,
      timers = Map.empty, timers_queue = 8, tick = 0, spawned = [], socks = Map.empty,
      sockets = [64 \<mapsto> Socket_init 0 0 7], sockets_queue = 24, sock_amount = 1\<rparr> :: unit sock_world_scheme)
    = Ok 64 \<lparr>nodes = [24 \<mapsto> \<lparr>lprev = 64, lnext = 64\<rparr>, 64 \<mapsto> \<lparr>lprev = 24, lnext = 24\<rparr>],
      queues = [24 \<mapsto> \<lparr>qlen = 1, qoffset = 0\<rparr>], skbs = Map.empty, pool = [], raw_ptr = 0,
      timers = Map.empty, timers_queue = 8, tick = 0, spawned = [], socks = Map.empty,
      sockets = [64 \<mapsto> Socket_init 0 0 7], sockets_queue = 24, sock_amount = 1\<rparr>"
  (is "get_socket _ _ ?w = _")
  using socket_lookups_run [of ?w "[64]" "\<lambda>_. Socket_init 0 0 7" undefined 7 4098]
  by (simp add: socket_table_def qrep_def linked_def nx_def pv_def Socket_init_def found_def)



end
