(* ===== verification/Tcp_Types.thy ===== *)
theory Tcp_Types
  imports Socks
begin

text \<open>
  The data of the TCP component (\<open>include/tcp.hpp\<close>): the wire header with its byte layout,
  the transmission control block, the protocol half of a socket, and the state of the
  whole stack up to TCP.

  A \<open>Tcp_Sock\<close> starts with its \<open>Sock\<close>, so the two halves have one address; \<open>socks\<close>
  holds the first, \<open>tsks\<close> the second, and the cast \<open>tcp_sk\<close> is the identity.
\<close>

unbundle bit_operations_syntax

section \<open>The wire header\<close>

text \<open>
  \<open>th_off\<close> is the byte of the bit fields \<open>rsvd\<close> (low nibble) and \<open>hl\<close>,
  \<open>th_flags\<close> the byte of the eight flag bits. Fields hold what a load from memory gives,
  so a header just received has them in network order until \<open>tcp_init_segment\<close> swaps them.
\<close>

record tcp_hdr =
  th_sport :: u16
  th_dport :: u16
  th_seq :: u32
  th_ack_seq :: u32
  th_off :: u8
  th_flags :: u8
  th_win :: u16
  th_csum :: u16
  th_urp :: u16

definition TCP_FIN :: u8 where "TCP_FIN = 0x01"
definition TCP_SYN :: u8 where "TCP_SYN = 0x02"
definition TCP_RST :: u8 where "TCP_RST = 0x04"
definition TCP_PSH :: u8 where "TCP_PSH = 0x08"
definition TCP_ACK :: u8 where "TCP_ACK = 0x10"

definition th_fin :: "tcp_hdr \<Rightarrow> bool" where "th_fin h = bit (th_flags h) 0"
definition th_syn :: "tcp_hdr \<Rightarrow> bool" where "th_syn h = bit (th_flags h) 1"
definition th_rst :: "tcp_hdr \<Rightarrow> bool" where "th_rst h = bit (th_flags h) 2"
definition th_psh :: "tcp_hdr \<Rightarrow> bool" where "th_psh h = bit (th_flags h) 3"
definition th_ack :: "tcp_hdr \<Rightarrow> bool" where "th_ack h = bit (th_flags h) 4"

definition th_hl :: "tcp_hdr \<Rightarrow> nat" where
  "th_hl h = unat (drop_bit 4 (th_off h))"

definition set_hl :: "nat \<Rightarrow> tcp_hdr \<Rightarrow> tcp_hdr" where
  "set_hl n h = h\<lparr>th_off := (th_off h AND 0x0f) OR push_bit 4 (of_nat n)\<rparr>"

definition set_flag :: "u8 \<Rightarrow> tcp_hdr \<Rightarrow> tcp_hdr" where
  "set_flag f h = h\<lparr>th_flags := th_flags h OR f\<rparr>"

definition tcp_hlen :: "tcp_hdr \<Rightarrow> nat" where
  "tcp_hlen h = 4 * th_hl h"

definition bytes16 :: "u16 \<Rightarrow> u8 list" where
  "bytes16 v = [lo8 v, hi8 v]"

definition bytes32 :: "u32 \<Rightarrow> u8 list" where
  "bytes32 v = bytes16 (lo16 v) @ bytes16 (hi16 v)"

definition tcp_hdr_bytes :: "tcp_hdr \<Rightarrow> u8 list" where
  "tcp_hdr_bytes h = bytes16 (th_sport h) @ bytes16 (th_dport h) @ bytes32 (th_seq h)
     @ bytes32 (th_ack_seq h) @ [th_off h, th_flags h] @ bytes16 (th_win h)
     @ bytes16 (th_csum h) @ bytes16 (th_urp h)"

definition tcp_hdr_of :: "u8 list \<Rightarrow> tcp_hdr" where
  "tcp_hdr_of bs = \<lparr>th_sport = get16 bs 0, th_dport = get16 bs 2, th_seq = get32 bs 4,
     th_ack_seq = get32 bs 8, th_off = bs ! 12, th_flags = bs ! 13, th_win = get16 bs 14,
     th_csum = get16 bs 16, th_urp = get16 bs 18\<rparr>"

definition Tcp_Hdr_size :: nat where
  "Tcp_Hdr_size = 20"

definition Ip_Hdr_size :: nat where
  "Ip_Hdr_size = 20"

definition Eth_Hdr_size :: nat where
  "Eth_Hdr_size = 14"

definition tcp_hdr_at :: int where
  "tcp_hdr_at = int (Eth_Hdr_size + Ip_Hdr_size)"

definition tcp_opts_at :: int where
  "tcp_opts_at = int (Eth_Hdr_size + Ip_Hdr_size + Tcp_Hdr_size)"

definition read_hdr :: "ptr \<Rightarrow> ('w skb_world_scheme, tcp_hdr) M" where
  "read_hdr p = bnd (read_buf p tcp_hdr_at Tcp_Hdr_size) (\<lambda>bs. ret (tcp_hdr_of bs))"

definition write_hdr :: "ptr \<Rightarrow> tcp_hdr \<Rightarrow> ('w skb_world_scheme, unit) M" where
  "write_hdr p h = write_buf p tcp_hdr_at (tcp_hdr_bytes h)"

definition upd_hdr :: "ptr \<Rightarrow> (tcp_hdr \<Rightarrow> tcp_hdr) \<Rightarrow> ('w skb_world_scheme, unit) M" where
  "upd_hdr p f = bnd (read_hdr p) (\<lambda>h. write_hdr p (f h))"

section \<open>The control block and the socket\<close>

record tcb =
  snd_una :: u32
  snd_nxt :: u32
  snd_wnd :: u32
  snd_up :: u32
  snd_wl1 :: u32
  snd_wl2 :: u32
  iss :: u32
  rcv_nxt :: u32
  rcv_wnd :: u32
  rcv_up :: u32
  irs :: u32

record sack_block =
  sb_left :: u32
  sb_right :: u32

record tcp_sock =
  tcp_header_len :: u16
  tcb :: tcb
  tflags :: u8
  backoff :: u8
  srtt :: int
  rttvar :: int
  rto :: u32
  retransmit :: ptr
  delack :: ptr
  keepalive :: ptr
  linger :: ptr
  delacks :: u8
  rmss :: u16
  smss :: u16
  cwnd :: u16
  inflight :: u32
  sackok :: u8
  sacks_allowed :: u8
  sacklen :: u8
  sacks :: "sack_block list"
  tsopt :: u8
  ofo_queue :: ptr

text \<open>A line \<open>tcp_out_dbg\<close> prints for a segment it is about to send.\<close>

record trace =
  tr_src :: "u32 \<times> u16"
  tr_dst :: "u32 \<times> u16"
  tr_flags :: u8
  tr_seq :: u32
  tr_end :: u32
  tr_ack :: u32
  tr_win :: u16
  tr_rto :: u32
  tr_backoff :: u8

text \<open>
  \<open>raw_tsk\<close> is what the memory of a new \<open>Tcp_Sock\<close> holds before its constructor;
  \<open>next_iss\<close> and \<open>next_port\<close> are what the random generator and the kernel will answer
  (\<open>None\<close>: the kernel refuses).
\<close>

record tcp_world = sock_world +
  tsks :: "ptr \<rightharpoonup> tcp_sock"
  raw_tsk :: tcp_sock
  next_iss :: u32
  next_port :: "u16 option"
  tcp_out :: "trace list"

lemma upd_tsks_run [run]:
  "upd (tsks_update f) w = Ok () (w\<lparr>tsks := f (tsks w)\<rparr>)"
  "upd (tcp_out_update g) w = Ok () (w\<lparr>tcp_out := g (tcp_out w)\<rparr>)"
  by (simp_all add: upd_apply)

lemma qrep_tsks_upd [simp]:
  "qrep (tsks_update f w) q xs = qrep w q xs"
  "qrep (tcp_out_update g w) q xs = qrep w q xs"
  by (rule qrep_only; simp)+

definition upd_tsk :: "ptr \<Rightarrow> (tcp_sock \<Rightarrow> tcp_sock) \<Rightarrow> ('w tcp_world_scheme, unit) M" where
  "upd_tsk p f = bnd (load tsks p) (\<lambda>t. upd (tsks_update (\<lambda>h. h(p \<mapsto> f t))))"

definition upd_tcb :: "ptr \<Rightarrow> (tcb \<Rightarrow> tcb) \<Rightarrow> ('w tcp_world_scheme, unit) M" where
  "upd_tcb p f = upd_tsk p (\<lambda>t. t\<lparr>tcb := f (tcb t)\<rparr>)"

definition get_tcb :: "ptr \<Rightarrow> ('w tcp_world_scheme, tcb) M" where
  "get_tcb p = bnd (load tsks p) (\<lambda>t. ret (tcb t))"

section \<open>The header's codec\<close>

lemma length_tcp_hdr_bytes [simp]: "length (tcp_hdr_bytes h) = 20"
  by (simp add: tcp_hdr_bytes_def bytes16_def bytes32_def)

lemma length20:
  assumes "length bs = 20"
  obtains b0 b1 b2 b3 b4 b5 b6 b7 b8 b9 b10 b11 b12 b13 b14 b15 b16 b17 b18 b19
    where "bs = [b0, b1, b2, b3, b4, b5, b6, b7, b8, b9, b10, b11, b12, b13, b14, b15, b16, b17, b18, b19]"
proof -
  have "length bs = Suc (Suc (Suc (Suc (Suc (Suc (Suc (Suc (Suc (Suc (Suc (Suc (Suc (Suc (Suc
      (Suc (Suc (Suc (Suc (Suc 0)))))))))))))))))))"
    using assms by simp
  then show thesis
    using that unfolding length_Suc_conv length_0_conv by (elim exE conjE) (rule that, simp only:)
qed



lemma set_flag_bits [simp]:
  "th_fin (set_flag f h) \<longleftrightarrow> th_fin h \<or> bit f 0"
  "th_syn (set_flag f h) \<longleftrightarrow> th_syn h \<or> bit f 1"
  "th_rst (set_flag f h) \<longleftrightarrow> th_rst h \<or> bit f 2"
  "th_psh (set_flag f h) \<longleftrightarrow> th_psh h \<or> bit f 3"
  "th_ack (set_flag f h) \<longleftrightarrow> th_ack h \<or> bit f 4"
  by (simp_all add: set_flag_def th_fin_def th_syn_def th_rst_def th_psh_def th_ack_def bit_or_iff)

lemma th_hl_set_hl [simp]:
  assumes "n < 16"
  shows "th_hl (set_hl n h) = n"
proof -
  have "unat (push_bit 4 (of_nat n) :: u8) = 16 * n"
    using assms by (simp add: push_bit_eq_mult unat_word_ariths unat_of_nat)
  then have "unat (drop_bit 4 (push_bit 4 (of_nat n)) :: u8) = n"
    by (simp add: drop_bit_eq_div unat_div)
  moreover have "drop_bit 4 (th_off h AND 0x0f) = 0"
    by (simp add: drop_bit_and)
  ultimately show ?thesis
    by (simp add: th_hl_def set_hl_def drop_bit_or)
qed

section \<open>The header of a buffer\<close>

definition room_for_hdr :: "skbuff \<Rightarrow> bool" where
  "room_for_hdr s \<longleftrightarrow> 54 \<le> length (buf s)"

definition skb_hdr :: "skbuff \<Rightarrow> tcp_hdr" where
  "skb_hdr s = tcp_hdr_of (take 20 (drop 34 (buf s)))"

definition put_hdr :: "tcp_hdr \<Rightarrow> skbuff \<Rightarrow> skbuff" where
  "put_hdr h s = s\<lparr>buf := splice (buf s) 34 (tcp_hdr_bytes h)\<rparr>"

lemma tcp_hdr_of_bytes [simp]: "tcp_hdr_of (tcp_hdr_bytes h) = h"
  by (simp add: tcp_hdr_of_def tcp_hdr_bytes_def bytes16_def bytes32_def get16_def get32_def)

lemma splice_splice [simp]:
  "length new = length old \<Longrightarrow> i + length old \<le> length bs \<Longrightarrow> splice (splice bs i old) i new = splice bs i new"
  by (simp add: splice_def)

lemma put_hdr_simps [simp]:
  "room_for_hdr s \<Longrightarrow> skb_hdr (put_hdr h s) = h"
  "room_for_hdr s \<Longrightarrow> put_hdr h (put_hdr g s) = put_hdr h s"
  "room_for_hdr s \<Longrightarrow> room_for_hdr (put_hdr h s)"
  "room_for_hdr s \<Longrightarrow> length (buf (put_hdr h s)) = length (buf s)"
  "data (put_hdr h s) = data s" "len (put_hdr h s) = len s" "data_len (put_hdr h s) = data_len s"
  "seq (put_hdr h s) = seq s" "end_seq (put_hdr h s) = end_seq s" "refcnt (put_hdr h s) = refcnt s"
  "protocol (put_hdr h s) = protocol s" "payload (put_hdr h s) = payload s"
  "skb_dev (put_hdr h s) = skb_dev s" "skb_rt (put_hdr h s) = skb_rt s"
  using splice_at [of 34 "tcp_hdr_bytes h" "buf s"]
  by (simp_all add: skb_hdr_def put_hdr_def room_for_hdr_def)

text \<open>The other members of a buffer do not matter to its header.\<close>

lemma skb_hdr_other [simp]:
  "skb_hdr (s\<lparr>refcnt := a\<rparr>) = skb_hdr s" "room_for_hdr (s\<lparr>refcnt := a\<rparr>) = room_for_hdr s"
  "skb_hdr (s\<lparr>protocol := b\<rparr>) = skb_hdr s" "room_for_hdr (s\<lparr>protocol := b\<rparr>) = room_for_hdr s"
  "skb_hdr (s\<lparr>len := c\<rparr>) = skb_hdr s" "room_for_hdr (s\<lparr>len := c\<rparr>) = room_for_hdr s"
  "skb_hdr (s\<lparr>data_len := c\<rparr>) = skb_hdr s" "room_for_hdr (s\<lparr>data_len := c\<rparr>) = room_for_hdr s"
  "skb_hdr (s\<lparr>seq := c\<rparr>) = skb_hdr s" "room_for_hdr (s\<lparr>seq := c\<rparr>) = room_for_hdr s"
  "skb_hdr (s\<lparr>end_seq := c\<rparr>) = skb_hdr s" "room_for_hdr (s\<lparr>end_seq := c\<rparr>) = room_for_hdr s"
  "skb_hdr (s\<lparr>data := a\<rparr>) = skb_hdr s" "room_for_hdr (s\<lparr>data := a\<rparr>) = room_for_hdr s"
  "skb_hdr (s\<lparr>payload := d\<rparr>) = skb_hdr s" "room_for_hdr (s\<lparr>payload := d\<rparr>) = room_for_hdr s"
  by (simp_all add: skb_hdr_def room_for_hdr_def)

lemma read_hdr_run [run]:
  "p \<noteq> null \<Longrightarrow> skbs w p = Some s \<Longrightarrow> room_for_hdr s \<Longrightarrow> read_hdr p w = Ok (skb_hdr s) w"
  by (simp add: read_hdr_def run in_buf_def room_for_hdr_def skb_hdr_def tcp_hdr_at_def
      Tcp_Hdr_size_def Eth_Hdr_size_def Ip_Hdr_size_def)

lemma write_hdr_run [run]:
  "p \<noteq> null \<Longrightarrow> skbs w p = Some s \<Longrightarrow> room_for_hdr s \<Longrightarrow>
     write_hdr p h w = Ok () (w\<lparr>skbs := (skbs w)(p \<mapsto> put_hdr h s)\<rparr>)"
  by (simp add: write_hdr_def run in_buf_def room_for_hdr_def put_hdr_def tcp_hdr_at_def
      Tcp_Hdr_size_def Eth_Hdr_size_def Ip_Hdr_size_def)

lemma upd_hdr_run [run]:
  "p \<noteq> null \<Longrightarrow> skbs w p = Some s \<Longrightarrow> room_for_hdr s \<Longrightarrow>
     upd_hdr p f w = Ok () (w\<lparr>skbs := (skbs w)(p \<mapsto> put_hdr (f (skb_hdr s)) s)\<rparr>)"
  by (simp add: upd_hdr_def run)

section \<open>A state to start examples from\<close>

definition blank_tsk :: tcp_sock where
  "blank_tsk = \<lparr>tcp_header_len = 0, tcb = \<lparr>snd_una = 0, snd_nxt = 0, snd_wnd = 0, snd_up = 0, snd_wl1 = 0,
     snd_wl2 = 0, iss = 0, rcv_nxt = 0, rcv_wnd = 0, rcv_up = 0, irs = 0\<rparr>, tflags = 0, backoff = 0,
     srtt = 0, rttvar = 0, rto = 0, retransmit = 0, delack = 0, keepalive = 0, linger = 0, delacks = 0,
     rmss = 1460, smss = 536, cwnd = 0, inflight = 0, sackok = 1, sacks_allowed = 4, sacklen = 0,
     sacks = replicate 4 \<lparr>sb_left = 0, sb_right = 0\<rparr>, tsopt = 0, ofo_queue = 40\<rparr>"

definition blank_sk :: sock where
  "blank_sk = \<lparr>sk_socket = 0, receive_queue = 24, write_queue = 32, sk_protocol = 6, sk_state = TCP_CLOSE,
     sk_err = 0, poll_events = 0, sport = 0, dport = 0, saddr = 0, daddr = 0, recv_sleeping = False\<rparr>"

definition blank :: tcp_world where
  "blank = \<lparr>nodes = Map.empty, queues = Map.empty, skbs = Map.empty, pool = [], raw_ptr = 0,
     timers = Map.empty, timers_queue = 8, tick = 0, spawned = [], socks = Map.empty,
     sockets = Map.empty, sockets_queue = 16, sock_amount = 0, tsks = Map.empty,
     raw_tsk = blank_tsk, next_iss = 0, next_port = None, tcp_out = []\<rparr>"

text \<open>The queue at \<open>q\<close>, holding the nodes \<open>xs\<close>, is put into a state.\<close>

definition put_queue :: "ptr \<Rightarrow> ptr list \<Rightarrow> 'w qworld_scheme \<Rightarrow> 'w qworld_scheme" where
  "put_queue q xs w = w\<lparr>queues := (queues w)(q \<mapsto> \<lparr>qlen = of_nat (length xs), qoffset = 0\<rparr>),
     nodes := foldl (\<lambda>m (p, x, n). m(x \<mapsto> \<lparr>lprev = p, lnext = n\<rparr>)) (nodes w)
       (zip (last (q # xs) # q # xs) (zip (q # xs) (xs @ [q])))\<rparr>"

end
