(* ===== verification/Ip_Header.thy ===== *)
theory Ip_Header
  imports Tcp_Types
begin

text \<open>
  The IPv4 header (\<open>include/ip.hpp\<close>) and where the code finds it: \<open>ip_hdr(skb)\<close> casts
  the \<open>SkBuff\<close> object itself, so the 20 bytes of the header lie over the object's first
  members, the two links of its list node and the low half of its route pointer.
\<close>

unbundle bit_operations_syntax

record ip_hdr =
  ih_vihl :: u8
  ih_tos :: u8
  ih_len :: u16
  ih_id :: u16
  ih_frag :: u16
  ih_ttl :: u8
  ih_proto :: u8
  ih_csum :: u16
  ih_saddr :: u32
  ih_daddr :: u32

definition ih_ihl :: "ip_hdr \<Rightarrow> nat" where
  "ih_ihl h = unat (ih_vihl h AND 0x0f)"

definition ih_version :: "ip_hdr \<Rightarrow> nat" where
  "ih_version h = unat (drop_bit 4 (ih_vihl h))"

definition ip_len :: "ip_hdr \<Rightarrow> u16" where
  "ip_len h = ih_len h - of_nat (ih_ihl h * 4)"

definition ip_hdr_bytes :: "ip_hdr \<Rightarrow> u8 list" where
  "ip_hdr_bytes h = [ih_vihl h, ih_tos h] @ bytes16 (ih_len h) @ bytes16 (ih_id h)
     @ bytes16 (ih_frag h) @ [ih_ttl h, ih_proto h] @ bytes16 (ih_csum h)
     @ bytes32 (ih_saddr h) @ bytes32 (ih_daddr h)"

definition ip_hdr_of :: "u8 list \<Rightarrow> ip_hdr" where
  "ip_hdr_of bs = \<lparr>ih_vihl = bs ! 0, ih_tos = bs ! 1, ih_len = get16 bs 2, ih_id = get16 bs 4,
     ih_frag = get16 bs 6, ih_ttl = bs ! 8, ih_proto = bs ! 9, ih_csum = get16 bs 10,
     ih_saddr = get32 bs 12, ih_daddr = get32 bs 16\<rparr>"

lemma length_bytes [simp]: "length (bytes16 v) = 2" "length (bytes32 x) = 4"
  by (simp_all add: bytes16_def bytes32_def)

lemma length_ip_hdr_bytes [simp]: "length (ip_hdr_bytes h) = 20"
  by (simp add: ip_hdr_bytes_def)

lemma ip_hdr_of_bytes [simp]: "ip_hdr_of (ip_hdr_bytes h @ bs) = h"
  by (simp add: ip_hdr_of_def ip_hdr_bytes_def bytes16_def bytes32_def get16_def get32_def)

lemma ip_hdr_bytes_of:
  assumes "length bs = 20"
  shows "ip_hdr_bytes (ip_hdr_of bs) = bs"
proof -
  from assms obtain b0 b1 b2 b3 b4 b5 b6 b7 b8 b9 b10 b11 b12 b13 b14 b15 b16 b17 b18 b19
    where bs: "bs = [b0, b1, b2, b3, b4, b5, b6, b7, b8, b9, b10, b11, b12, b13, b14, b15, b16, b17, b18, b19]"
    by (rule length20)
  show ?thesis
    by (simp add: bs ip_hdr_of_def ip_hdr_bytes_def bytes16_def bytes32_def get16_def get32_def)
qed

section \<open>Pointers as bytes\<close>

definition ptr_bytes :: "ptr \<Rightarrow> u8 list" where
  "ptr_bytes p = bytes32 (ucast p) @ bytes32 (ucast (drop_bit 32 p))"

definition ptr_of :: "u8 list \<Rightarrow> ptr" where
  "ptr_of bs = ucast (get32 bs 0) OR push_bit 32 (ucast (get32 bs 4))"

lemma length_ptr_bytes [simp]: "length (ptr_bytes p) = 8"
  by (simp add: ptr_bytes_def)

lemma halves_join: "(ucast (ucast p :: u32) :: ptr) OR push_bit 32 (ucast (ucast (drop_bit 32 p) :: u32)) = p"
  by (rule bit_word_eqI) (auto simp: bit_or_iff bit_push_bit_iff bit_ucast_iff bit_drop_bit_eq)

lemma ptr_of_bytes [simp]: "ptr_of (ptr_bytes p) = p"
  by (simp add: ptr_of_def ptr_bytes_def bytes16_def bytes32_def get16_def get32_def halves_join)

lemma halves_split:
  "(ucast ((ucast (a :: u32) :: ptr) OR push_bit 32 (ucast (b :: u32))) :: u32) = a"
  "(ucast (drop_bit 32 ((ucast (a :: u32) :: ptr) OR push_bit 32 (ucast (b :: u32)))) :: u32) = b"
  by (rule bit_word_eqI; auto simp: bit_or_iff bit_push_bit_iff bit_ucast_iff bit_drop_bit_eq dest: bit_imp_le_length)+

lemma bytes32_get32:
  "bytes32 (get32 [a, b, c, d] 0) = [a, b, c, d]"
  by (simp add: bytes32_def bytes16_def get32_def get16_def)

lemma length8:
  assumes "length bs = 8"
  obtains a b c d e f g h where "bs = [a, b, c, d, e, f, g, h]"
proof -
  have "length bs = Suc (Suc (Suc (Suc (Suc (Suc (Suc (Suc 0)))))))"
    using assms by simp
  then show thesis
    using that unfolding length_Suc_conv length_0_conv by (elim exE conjE) (rule that, simp only:)
qed

lemma ptr_bytes_of:
  assumes "length bs = 8"
  shows "ptr_bytes (ptr_of bs) = bs"
proof -
  from assms obtain a b c d e f g h where bs: "bs = [a, b, c, d, e, f, g, h]" by (rule length8)
  show ?thesis
    by (simp add: bs ptr_bytes_def ptr_of_def halves_split bytes32_def bytes16_def get32_def get16_def
        del: drop_bit_or)
qed

section \<open>The header over the object\<close>

definition obj_bytes :: "list_head \<Rightarrow> skbuff \<Rightarrow> u8 list" where
  "obj_bytes n s = ptr_bytes (lprev n) @ ptr_bytes (lnext n) @ ptr_bytes (skb_rt s)"

definition load_ip_hdr :: "ptr \<Rightarrow> ('w skb_world_scheme, ip_hdr) M" where
  "load_ip_hdr p = bnd (load nodes p) (\<lambda>n. bnd (load skbs p) (\<lambda>s. ret (ip_hdr_of (obj_bytes n s))))"

definition store_ip_hdr :: "ptr \<Rightarrow> ip_hdr \<Rightarrow> ('w skb_world_scheme, unit) M" where
  "store_ip_hdr p h = bnd (load nodes p) (\<lambda>n. bnd (load skbs p) (\<lambda>s.
     let bs = ip_hdr_bytes h @ drop 20 (obj_bytes n s)
     in sq (upd (nodes_update (\<lambda>m. m(p \<mapsto>
            \<lparr>lprev = ptr_of (take 8 bs), lnext = ptr_of (take 8 (drop 8 bs))\<rparr>))))
          (upd_skb p (\<lambda>s. s\<lparr>skb_rt := ptr_of (drop 16 bs)\<rparr>))))"

definition upd_ip_hdr :: "ptr \<Rightarrow> (ip_hdr \<Rightarrow> ip_hdr) \<Rightarrow> ('w skb_world_scheme, unit) M" where
  "upd_ip_hdr p f = bnd (load_ip_hdr p) (\<lambda>h. store_ip_hdr p (f h))"

lemma load_ip_hdr_run [run]:
  "p \<noteq> null \<Longrightarrow> nodes w p = Some n \<Longrightarrow> skbs w p = Some s \<Longrightarrow>
     load_ip_hdr p w = Ok (ip_hdr_of (obj_bytes n s)) w"
  by (simp add: load_ip_hdr_def run)

lemma keeps_ip_hdr [keep]:
  "keeps skb_frame (load_ip_hdr p)"
  "keeps skb_frame (store_ip_hdr p h)"
  "keeps skb_frame (upd_ip_hdr p f)"
  unfolding load_ip_hdr_def store_ip_hdr_def upd_ip_hdr_def Let_def
  by (auto intro!: keep)

text \<open>Writing the header and reading it back: only the object's links and route change.\<close>

lemma obj_bytes_of:
  assumes "length bs = 24"
  shows "obj_bytes \<lparr>lprev = ptr_of (take 8 bs), lnext = ptr_of (take 8 (drop 8 bs))\<rparr>
    (s\<lparr>skb_rt := ptr_of (drop 16 bs)\<rparr>) = bs"
proof -
  have "take 8 bs @ take 8 (drop 8 bs) @ drop 16 bs = bs"
    by (metis append_take_drop_id drop_drop numeral_Bit0)
  then show ?thesis
    using assms by (simp add: obj_bytes_def ptr_bytes_of)
qed

lemma store_ip_hdr_run:
  assumes "p \<noteq> null" and "nodes w p = Some n" and "skbs w p = Some s"
  shows "\<exists>n' r. store_ip_hdr p h w
      = Ok () (w\<lparr>nodes := (nodes w)(p \<mapsto> n'), skbs := (skbs w)(p \<mapsto> s\<lparr>skb_rt := r\<rparr>)\<rparr>)
    \<and> ip_hdr_of (obj_bytes n' (s\<lparr>skb_rt := r\<rparr>)) = h"
proof -
  let ?bs = "ip_hdr_bytes h @ drop 20 (obj_bytes n s)"
  have "length ?bs = 24" by (simp add: obj_bytes_def)
  from obj_bytes_of [OF this, of s] show ?thesis
    using assms
    by (intro exI [of _ "\<lparr>lprev = ptr_of (take 8 ?bs), lnext = ptr_of (take 8 (drop 8 ?bs))\<rparr>"]
        exI [of _ "ptr_of (drop 16 ?bs)"]) (simp add: store_ip_hdr_def run Let_def)
qed

end
