(* ===== verification/Tcp_Core.thy ===== *)
theory Tcp_Core
  imports Ip_Header
begin

text \<open>
  The parts of \<open>src/tcp.cpp\<close> below the segment output: sock creation, the state field,
  the timers of a connection and their teardown, the round-trip estimator, selective
  acknowledgements, the parsing of an incoming header and the checksums.

  A parameter \<open>tsk\<close> or \<open>sk\<close> is the address of a \<open>Tcp_Sock\<close>; the two coincide. The
  one \<open>Net_Ops\<close> table of the stack is TCP's, so \<open>sk->ops->recv_notify\<close> is
  \<open>tcp_recv_notify\<close>. The debugging lines are in \<open>Printing\<close>.
\<close>

unbundle bit_operations_syntax

section \<open>Creation and state\<close>

text \<open>
  The addresses of the three queues embedded in a \<open>Tcp_Sock\<close> come from the pool with
  it. The constructor sets four members and the queues; the rest is what the memory held.
\<close>

definition queue_new :: "('w skb_world_scheme, ptr) M" where
  "queue_new = bnd new_addr (\<lambda>q. sq (queue_init q 0) (ret q))"

definition Tcp_Sock_init :: "tcp_sock \<Rightarrow> ptr \<Rightarrow> tcp_sock" where
  "Tcp_Sock_init raw q = raw\<lparr>rmss := 1460, smss := 536, sackok := 1, ofo_queue := q\<rparr>"

definition Sock_init :: "sock \<Rightarrow> ptr \<Rightarrow> ptr \<Rightarrow> sock" where
  "Sock_init raw rq wq = raw\<lparr>recv_sleeping := False, receive_queue := rq, write_queue := wq\<rparr>"

definition tcp_alloc_sock :: "sock \<Rightarrow> ('w tcp_world_scheme, ptr) M" where
  "tcp_alloc_sock raw_sk = bnd new_addr (\<lambda>p. bnd queue_new (\<lambda>rq. bnd queue_new (\<lambda>wq.
     bnd queue_new (\<lambda>oq. bnd (get raw_tsk) (\<lambda>raw.
       sq (upd (socks_update (\<lambda>h. h(p \<mapsto> (Sock_init raw_sk rq wq)\<lparr>sk_state := TCP_CLOSE\<rparr>))))
       (sq (upd (tsks_update (\<lambda>h. h(p \<mapsto> Tcp_Sock_init raw oq)))) (ret p)))))))"

definition tcp_set_state :: "ptr \<Rightarrow> tcp_state \<Rightarrow> ('w tcp_world_scheme, unit) M" where
  "tcp_set_state sk st = upd_sk sk (\<lambda>s. s\<lparr>sk_state := st\<rparr>)"

definition tcp_recv_notify :: "ptr \<Rightarrow> ('w tcp_world_scheme, int) M" where
  "tcp_recv_notify sk = recv_wakeup sk"

definition tcp_handle_fin_state :: "ptr \<Rightarrow> ('w tcp_world_scheme, unit) M" where
  "tcp_handle_fin_state sk = bnd (load socks sk) (\<lambda>s. case sk_state s of
       TCP_CLOSE_WAIT \<Rightarrow> tcp_set_state sk TCP_LAST_ACK
     | TCP_ESTABLISHED \<Rightarrow> tcp_set_state sk TCP_FIN_WAIT_1
     | _ \<Rightarrow> skip)"

section \<open>Timers and teardown\<close>

definition tcp_stop_rto_timer :: "ptr \<Rightarrow> ('w tcp_world_scheme, unit) M" where
  "tcp_stop_rto_timer tsk = (if tsk = null then skip
     else bnd (load tsks tsk) (\<lambda>t. sq (Timer_cancel (retransmit t))
       (sq (upd_tsk tsk (\<lambda>t. t\<lparr>retransmit := null\<rparr>)) (upd_tsk tsk (\<lambda>t. t\<lparr>backoff := 0\<rparr>)))))"

definition tcp_release_rto_timer :: "ptr \<Rightarrow> ('w tcp_world_scheme, unit) M" where
  "tcp_release_rto_timer tsk = (if tsk = null then skip
     else bnd (load tsks tsk) (\<lambda>t. sq (Timer_release (retransmit t))
       (upd_tsk tsk (\<lambda>t. t\<lparr>retransmit := null\<rparr>))))"

definition tcp_stop_delack_timer :: "ptr \<Rightarrow> ('w tcp_world_scheme, unit) M" where
  "tcp_stop_delack_timer tsk = (if tsk = null then skip
     else bnd (load tsks tsk) (\<lambda>t. sq (Timer_cancel (delack t))
       (upd_tsk tsk (\<lambda>t. t\<lparr>delack := null\<rparr>))))"

definition tcp_release_delack_timer :: "ptr \<Rightarrow> ('w tcp_world_scheme, unit) M" where
  "tcp_release_delack_timer tsk = (if tsk = null then skip
     else bnd (load tsks tsk) (\<lambda>t. sq (Timer_release (delack t))
       (upd_tsk tsk (\<lambda>t. t\<lparr>delack := null\<rparr>))))"

definition tcp_clear_timers :: "ptr \<Rightarrow> ('w tcp_world_scheme, unit) M" where
  "tcp_clear_timers sk =
     sq (tcp_stop_rto_timer sk) (sq (tcp_release_rto_timer sk)
       (bnd (load tsks sk) (\<lambda>t. sq (Timer_cancel (keepalive t))
       (sq (upd_tsk sk (\<lambda>t. t\<lparr>keepalive := null\<rparr>))
       (bnd (load tsks sk) (\<lambda>t. sq (Timer_cancel (linger t))
       (upd_tsk sk (\<lambda>t. t\<lparr>linger := null\<rparr>))))))))"

definition tcp_clear_queues :: "ptr \<Rightarrow> ('w tcp_world_scheme, unit) M" where
  "tcp_clear_queues tsk = bnd (load tsks tsk) (\<lambda>t. skb_queue_free (ofo_queue t))"

definition tcp_free :: "ptr \<Rightarrow> ('w tcp_world_scheme, int) M" where
  "tcp_free sk = sq (tcp_clear_timers sk) (sq (tcp_clear_queues sk)
     (bnd (load socks sk) (\<lambda>s. sq (socket_wakeup (sk_socket s)) (ret 0))))"

definition tcp_done :: "ptr \<Rightarrow> ('w tcp_world_scheme, int) M" where
  "tcp_done sk = sq (tcp_set_state sk TCP_CLOSING) (sq (tcp_free sk)
     (bnd (load socks sk) (\<lambda>s. socket_delete (sk_socket s))))"

definition TCP_2MSL :: u32 where "TCP_2MSL = 60000"
definition TCP_USER_TIMEOUT :: u32 where "TCP_USER_TIMEOUT = 180000"

definition tcp_enter_time_wait :: "ptr \<Rightarrow> ('w tcp_world_scheme, unit) M" where
  "tcp_enter_time_wait sk = sq (tcp_set_state sk TCP_TIME_WAIT) (sq (tcp_clear_timers sk)
     (bnd (Timer_create TCP_2MSL (Linger sk) Trackable) (\<lambda>p.
       upd_tsk sk (\<lambda>t. t\<lparr>linger := p\<rparr>))))"

definition tcp_rearm_user_timeout :: "ptr \<Rightarrow> ('w tcp_world_scheme, unit) M" where
  "tcp_rearm_user_timeout sk = bnd (load socks sk) (\<lambda>s.
     if sk_state s = TCP_TIME_WAIT then skip
     else bnd (load tsks sk) (\<lambda>t. sq (Timer_cancel (linger t))
       (bnd (Timer_create TCP_USER_TIMEOUT (User_Timeout sk) Trackable) (\<lambda>p.
         upd_tsk sk (\<lambda>t. t\<lparr>linger := p\<rparr>)))))"

section \<open>The round-trip estimator\<close>

text \<open>
  The sums of products with the constants 0.75, 0.25, 0.875 and 0.125 are exact in
  \<open>double\<close> for 32-bit operands; storing them in an \<open>int\<close> truncates towards zero.
\<close>

definition trunc_div :: "int \<Rightarrow> int \<Rightarrow> int" where
  "trunc_div a b = (if 0 \<le> a then a div b else - ((- a) div b))"

definition tcp_rtt :: "ptr \<Rightarrow> ('w tcp_world_scheme, unit) M" where
  "tcp_rtt tsk = bnd (load tsks tsk) (\<lambda>t.
     if 0 < backoff t \<or> retransmit t = null then skip
     else bnd timer_get_tick (\<lambda>now. bnd (load timers (retransmit t)) (\<lambda>tm.
       let r = sint (now - (expires tm - rto t)) in
       if r < 0 then skip
       else sq
         (if srtt t = 0
          then upd_tsk tsk (\<lambda>t. t\<lparr>srtt := r, rttvar := trunc_div r 2\<rparr>)
          else bnd (arith (srtt t - r)) (\<lambda>d. bnd (arith (abs d)) (\<lambda>a.
            bnd (arith (trunc_div (3 * rttvar t + a) 4)) (\<lambda>v.
            bnd (arith (trunc_div (7 * srtt t + r) 8)) (\<lambda>m.
            upd_tsk tsk (\<lambda>t. t\<lparr>srtt := m, rttvar := v\<rparr>))))))
         (bnd (load tsks tsk) (\<lambda>t. bnd (arith (4 * rttvar t)) (\<lambda>k.
            bnd (arith (srtt t + max k 200)) (\<lambda>s.
            upd_tsk tsk (\<lambda>t. t\<lparr>rto := word_of_int s\<rparr>))))))))"

section \<open>Selective acknowledgements\<close>

definition get_sack :: "ptr \<Rightarrow> nat \<Rightarrow> ('w tcp_world_scheme, sack_block) M" where
  "get_sack tsk i = bnd (load tsks tsk) (\<lambda>t.
     if i < length (sacks t) then ret (sacks t ! i) else fail OutOfBounds)"

definition set_sack :: "ptr \<Rightarrow> nat \<Rightarrow> (sack_block \<Rightarrow> sack_block) \<Rightarrow> ('w tcp_world_scheme, unit) M" where
  "set_sack tsk i f = bnd (get_sack tsk i) (\<lambda>b.
     upd_tsk tsk (\<lambda>t. t\<lparr>sacks := (sacks t)[i := f b]\<rparr>))"

text \<open>The state of the loop is the index of the block the captured \<open>sb\<close> points to.\<close>

definition tcp_calculate_sacks_body :: "ptr \<Rightarrow> ptr \<Rightarrow> nat \<Rightarrow> ('w tcp_world_scheme, bool \<times> nat) M" where
  "tcp_calculate_sacks_body tsk pos sb = bnd (get_sack tsk sb) (\<lambda>b.
     bnd (load skbs (list_entry pos 0)) (\<lambda>nxt.
       sq (onlyif (sb_left b = 0)
            (sq (set_sack tsk sb (\<lambda>b. b\<lparr>sb_left := seq nxt\<rparr>))
              (upd_tsk tsk (\<lambda>t. t\<lparr>sacklen := sacklen t + 1\<rparr>))))
       (bnd (get_sack tsk sb) (\<lambda>b.
         if sb_right b = 0 \<or> sb_right b = seq nxt
         then sq (set_sack tsk sb (\<lambda>b. b\<lparr>sb_right := end_seq nxt\<rparr>)) (ret (False, sb))
         else bnd (load tsks tsk) (\<lambda>t.
           if sacks_allowed t \<le> sacklen t then ret (True, sb)
           else let sb' = unat (sacklen t) in
             sq (set_sack tsk sb' (\<lambda>b. b\<lparr>sb_left := seq nxt\<rparr>))
             (sq (set_sack tsk sb' (\<lambda>b. b\<lparr>sb_right := end_seq nxt\<rparr>))
             (sq (upd_tsk tsk (\<lambda>t. t\<lparr>sacklen := sacklen t + 1\<rparr>)) (ret (False, sb')))))))))"

definition tcp_calculate_sacks :: "ptr \<Rightarrow> ('w tcp_world_scheme, int) M" where
  "tcp_calculate_sacks tsk = bnd (load tsks tsk) (\<lambda>t. let sb = unat (sacklen t) in
     sq (set_sack tsk sb (\<lambda>_. \<lparr>sb_left = 0, sb_right = 0\<rparr>))
     (sq (list_for_each_safe (ofo_queue t) (tcp_calculate_sacks_body tsk) sb) (ret 0)))"

section \<open>Incoming segments and checksums\<close>

definition ntoh_hdr :: "tcp_hdr \<Rightarrow> tcp_hdr" where
  "ntoh_hdr h = h\<lparr>th_sport := ntohs (th_sport h), th_dport := ntohs (th_dport h),
     th_seq := ntohl (th_seq h), th_ack_seq := ntohl (th_ack_seq h), th_win := ntohs (th_win h),
     th_csum := ntohs (th_csum h), th_urp := ntohs (th_urp h)\<rparr>"

definition tcp_init_segment :: "ptr \<Rightarrow> ('w tcp_world_scheme, unit) M" where
  "tcp_init_segment skb = sq (upd_hdr skb ntoh_hdr)
     (bnd (read_hdr skb) (\<lambda>h. bnd (load_ip_hdr skb) (\<lambda>ih.
       upd_skb skb (\<lambda>s. let dl = ucast (ip_len ih) + of_nat (tcp_hlen h) in
         s\<lparr>seq := th_seq h, data_len := dl,
           len := dl + of_bool (th_syn h) + of_bool (th_fin h),
           end_seq := th_seq h + dl, payload := Some tcp_opts_at\<rparr>))))"

definition tcp_udp_checksum :: "u32 \<Rightarrow> u32 \<Rightarrow> u8 \<Rightarrow> u8 list \<Rightarrow> u16 \<Rightarrow> u16" where
  "tcp_udp_checksum sa da proto bs n =
     checksum bs (sa + da + ucast (htons (ucast proto)) + ucast (htons n))"

definition tcp_v4_checksum :: "ptr \<Rightarrow> u32 \<Rightarrow> u32 \<Rightarrow> ('w tcp_world_scheme, u16) M" where
  "tcp_v4_checksum skb sa da = bnd (load skbs skb) (\<lambda>s. let n = ucast (len s) in
     bnd (read_buf skb (data s) (unat n)) (\<lambda>bs.
       ret (tcp_udp_checksum sa da (ucast (protocol s)) bs n)))"

section \<open>Running the operations\<close>

lemma upd_tsk_run [run]:
  "p \<noteq> null \<Longrightarrow> tsks w p = Some t \<Longrightarrow> upd_tsk p f w = Ok () (w\<lparr>tsks := (tsks w)(p \<mapsto> f t)\<rparr>)"
  "upd_tsk null f w = Err NullDeref"
  by (simp_all add: upd_tsk_def run)

lemma upd_tcb_run [run]:
  "p \<noteq> null \<Longrightarrow> tsks w p = Some t \<Longrightarrow>
     upd_tcb p f w = Ok () (w\<lparr>tsks := (tsks w)(p \<mapsto> t\<lparr>tcb := f (tcb t)\<rparr>)\<rparr>)"
  by (simp add: upd_tcb_def run)

lemma get_tcb_run [run]:
  "p \<noteq> null \<Longrightarrow> tsks w p = Some t \<Longrightarrow> get_tcb p w = Ok (tcb t) w"
  by (simp add: get_tcb_def run)

lemma tcp_set_state_run [run]:
  "p \<noteq> null \<Longrightarrow> socks w p = Some s \<Longrightarrow>
     tcp_set_state p st w = Ok () (w\<lparr>socks := (socks w)(p \<mapsto> s\<lparr>sk_state := st\<rparr>)\<rparr>)"
  by (simp add: tcp_set_state_def run)

text \<open>What a load can answer, for the operations whose object is not known to be live.\<close>

lemma load_cases:
  obtains "p = null" and "load h p w = Err NullDeref"
  | "p \<noteq> null" and "h w p = None" and "load h p w = Err BadAccess"
  | x where "p \<noteq> null" and "h w p = Some x" and "load h p w = Ok x w"
  by (cases "p = null"; cases "h w p") (auto simp: load_run)

lemma Timer_cancel_cases:
  obtains e where "e \<in> {NullDeref, BadAccess}" and "Timer_cancel p w = Err e"
  | t where "p \<noteq> null" and "timers w p = Some t"
    and "Timer_cancel p w = Ok () (w\<lparr>timers := (timers w)(p \<mapsto> (put_timer t)\<lparr>cancelled := True\<rparr>)\<rparr>)"
proof (rule load_cases [of p timers w])
  assume "load timers p w = Err NullDeref"
  then have "Timer_cancel p w = Err NullDeref" by (simp add: Timer_cancel_def upd_timer_def run)
  then show thesis using that(1) by blast
next
  assume "load timers p w = Err BadAccess"
  then have "Timer_cancel p w = Err BadAccess" by (simp add: Timer_cancel_def upd_timer_def run)
  then show thesis using that(1) by blast
next
  fix t
  assume "p \<noteq> null" and "timers w p = Some t"
  then show thesis using that(2) by (simp add: run)
qed

section \<open>Teardown\<close>

lemma tcp_clear_timers_faults: "\<exists>e \<in> {NullDeref, BadAccess}. tcp_clear_timers sk w = Err e"
proof (rule load_cases [of sk tsks w])
  assume "sk = null"
  then show ?thesis
    by (simp add: tcp_clear_timers_def tcp_stop_rto_timer_def tcp_release_rto_timer_def run)
next
  assume "sk \<noteq> null" and "load tsks sk w = Err BadAccess"
  then show ?thesis by (simp add: tcp_clear_timers_def tcp_stop_rto_timer_def run)
next
  fix t
  assume sk: "sk \<noteq> null" "tsks w sk = Some t"
  show ?thesis
    by (rule Timer_cancel_cases [of "retransmit t" w])
      (use sk in \<open>auto simp: tcp_clear_timers_def tcp_stop_rto_timer_def tcp_release_rto_timer_def run\<close>)
qed

text \<open>
  C33. No connection can be taken down: clearing the timers always ends in a fault, since
  stopping the retransmission timer nulls the pointer that releasing it then follows. So
  \<open>tcp_free\<close> and \<open>tcp_done\<close> never return, the socket is never deleted and TIME-WAIT is
  never entered with its timer.
\<close>

theorem teardown_always_faults:
  "(\<exists>e \<in> {NullDeref, BadAccess}. tcp_clear_timers sk w = Err e)
    \<and> (\<exists>e \<in> {NullDeref, BadAccess}. tcp_free sk w = Err e)
    \<and> (\<exists>e \<in> {NullDeref, BadAccess}. tcp_done sk w = Err e)
    \<and> (\<exists>e \<in> {NullDeref, BadAccess}. tcp_enter_time_wait sk w = Err e)"
proof (intro conjI)
  note clear = tcp_clear_timers_faults
  show "\<exists>e \<in> {NullDeref, BadAccess}. tcp_clear_timers sk w = Err e" by (rule clear)
  have free: "\<exists>e \<in> {NullDeref, BadAccess}. tcp_free sk u = Err e" for u :: "'a tcp_world_scheme"
    using clear [of sk u] by (auto simp: tcp_free_def run)
  then show "\<exists>e \<in> {NullDeref, BadAccess}. tcp_free sk w = Err e" .
  have state: "(\<exists>e \<in> {NullDeref, BadAccess}. tcp_set_state sk st w = Err e) \<or> (\<exists>u. tcp_set_state sk st w = Ok () u)"
    for st by (rule load_cases [of sk socks w]) (auto simp: tcp_set_state_def upd_sk_def run)
  show "\<exists>e \<in> {NullDeref, BadAccess}. tcp_done sk w = Err e"
  proof (rule disjE [OF state [of TCP_CLOSING]])
    assume "\<exists>u. tcp_set_state sk TCP_CLOSING w = Ok () u"
    then obtain u where "tcp_set_state sk TCP_CLOSING w = Ok () u" by blast
    then show ?thesis using free [of u] by (auto simp: tcp_done_def run)
  qed (auto simp: tcp_done_def run)
  show "\<exists>e \<in> {NullDeref, BadAccess}. tcp_enter_time_wait sk w = Err e"
  proof (rule disjE [OF state [of TCP_TIME_WAIT]])
    assume "\<exists>u. tcp_set_state sk TCP_TIME_WAIT w = Ok () u"
    then obtain u where "tcp_set_state sk TCP_TIME_WAIT w = Ok () u" by blast
    then show ?thesis using clear [of sk u] by (auto simp: tcp_enter_time_wait_def run)
  qed (auto simp: tcp_enter_time_wait_def run)
qed

section \<open>The round-trip estimate\<close>

text \<open>
  The estimator of RFC 6298 in integers: the first measurement \<open>r\<close> sets the smoothed time
  to \<open>r\<close> and the variation to \<open>r / 2\<close>; a later one moves the variation by a quarter and
  the smoothed time by an eighth towards it, rounding down.
\<close>

definition rfc6298 :: "int \<Rightarrow> int \<times> int \<Rightarrow> int \<times> int" where
  "rfc6298 r sv = (case sv of (s, v) \<Rightarrow>
     if s = 0 then (r, r div 2) else ((7 * s + r) div 8, (3 * v + \<bar>s - r\<bar>) div 4))"

lemma rfc6298_between:
  assumes "rfc6298 r (s, v) = (s', v')" and "0 \<le> r" and "0 \<le> s" and "0 \<le> v"
  shows "min s r \<le> s'" and "s' \<le> max s r" and "0 \<le> v'" and "v' \<le> max v (max s r)"
  using assms by (auto simp: rfc6298_def split: if_splits)



section \<open>Selective acknowledgements as runs\<close>

text \<open>
  What the blocks should be: the maximal runs of adjacent segments, in queue order.
\<close>

fun extend_run :: "sack_block \<Rightarrow> (u32 \<times> u32) list \<Rightarrow> sack_block list" where
  "extend_run b [] = [b]"
| "extend_run b ((s, e) # segs) = (if s = sb_right b then extend_run (b\<lparr>sb_right := e\<rparr>) segs
     else b # extend_run \<lparr>sb_left = s, sb_right = e\<rparr> segs)"

fun sack_runs :: "(u32 \<times> u32) list \<Rightarrow> sack_block list" where
  "sack_runs [] = []"
| "sack_runs ((s, e) # segs) = extend_run \<lparr>sb_left = s, sb_right = e\<rparr> segs"

lemma extend_run_nonempty [simp]: "extend_run b segs \<noteq> []"
  by (induction segs arbitrary: b) (auto split: if_splits)

lemma get_sack_run [run]:
  "p \<noteq> null \<Longrightarrow> tsks w p = Some t \<Longrightarrow> i < length (sacks t) \<Longrightarrow> get_sack p i w = Ok (sacks t ! i) w"
  by (simp add: get_sack_def run)

lemma set_sack_run [run]:
  "p \<noteq> null \<Longrightarrow> tsks w p = Some t \<Longrightarrow> i < length (sacks t) \<Longrightarrow>
     set_sack p i f w = Ok () (w\<lparr>tsks := (tsks w)(p \<mapsto> t\<lparr>sacks := (sacks t)[i := f (sacks t ! i)]\<rparr>)\<rparr>)"
  by (simp add: set_sack_def run)

lemma keeps_nodes_sacks:
  "keeps (same nodes) (tcp_calculate_sacks_body tsk pos sb)"
proof -
  have tsks: "keeps (same nodes) (upd_tsk p f :: ('a tcp_world_scheme, unit) M)" for p f
    unfolding upd_tsk_def by (auto intro!: keep keeps_upd simp: same_def)
  show ?thesis
    unfolding tcp_calculate_sacks_body_def set_sack_def get_sack_def Let_def
    by (auto intro!: keep tsks)
qed

definition segment :: "skbuff \<Rightarrow> u32 \<times> u32" where
  "segment s = (seq s, end_seq s)"

lemma sack_upd:
  "t\<lparr>sacklen := n, sacks := l\<rparr> = t\<lparr>sacks := l, sacklen := n\<rparr>"
  "b\<lparr>sb_left := s, sb_right := e\<rparr> = \<lparr>sb_left = s, sb_right = e\<rparr>"
  by (cases t, simp) (cases b, simp)

text \<open>One round of the loop: the block is empty, grows, is closed, or the table is full.\<close>

lemma tcp_calculate_sacks_body_run:
  assumes tsk: "tsk \<noteq> null" "tsks w tsk = Some t" and x: "x \<noteq> null" "skbs w x = Some s"
    and sb: "sb < length (sacks t)" and nz: "seq s \<noteq> 0"
  shows "sacks t ! sb = \<lparr>sb_left = 0, sb_right = 0\<rparr> \<Longrightarrow>
      tcp_calculate_sacks_body tsk x sb w = Ok (False, sb) (w\<lparr>tsks := (tsks w)(tsk \<mapsto>
        t\<lparr>sacks := (sacks t)[sb := \<lparr>sb_left = seq s, sb_right = end_seq s\<rparr>], sacklen := sacklen t + 1\<rparr>)\<rparr>)"
    and "sb_left (sacks t ! sb) \<noteq> 0 \<Longrightarrow> sb_right (sacks t ! sb) = seq s \<Longrightarrow>
      tcp_calculate_sacks_body tsk x sb w = Ok (False, sb) (w\<lparr>tsks := (tsks w)(tsk \<mapsto>
        t\<lparr>sacks := (sacks t)[sb := (sacks t ! sb)\<lparr>sb_right := end_seq s\<rparr>]\<rparr>)\<rparr>)"
    and "sb_left (sacks t ! sb) \<noteq> 0 \<Longrightarrow> sb_right (sacks t ! sb) \<notin> {0, seq s} \<Longrightarrow>
      sacks_allowed t \<le> sacklen t \<Longrightarrow> tcp_calculate_sacks_body tsk x sb w = Ok (True, sb) w"
    and "sb_left (sacks t ! sb) \<noteq> 0 \<Longrightarrow> sb_right (sacks t ! sb) \<notin> {0, seq s} \<Longrightarrow>
      \<not> sacks_allowed t \<le> sacklen t \<Longrightarrow> unat (sacklen t) < length (sacks t) \<Longrightarrow>
      tcp_calculate_sacks_body tsk x sb w = Ok (False, unat (sacklen t)) (w\<lparr>tsks := (tsks w)(tsk \<mapsto>
        t\<lparr>sacks := (sacks t)[unat (sacklen t) := \<lparr>sb_left = seq s, sb_right = end_seq s\<rparr>],
          sacklen := sacklen t + 1\<rparr>)\<rparr>)"
  using tsk x sb nz
  by (simp_all add: tcp_calculate_sacks_body_def list_entry_def run Let_def sack_upd)

lemma drop_past: "length bs < n \<Longrightarrow> drop n (bs @ b # rest) = drop n (bs @ c # rest)"
  by (simp add: drop_append drop_Cons split: nat.split)

lemma length_extend_run: "0 < length (extend_run b segs)"
  by simp

text \<open>
  The same, for the blocks \<open>bs @ [b]\<close> written and \<open>rest\<close> unused: the last block grows, the
  table is full, or a new block is opened.
\<close>

abbreviation with_sacks :: "'w tcp_world_scheme \<Rightarrow> ptr \<Rightarrow> tcp_sock \<Rightarrow> sack_block list \<Rightarrow> nat \<Rightarrow> 'w tcp_world_scheme" where
  "with_sacks w tsk t l n \<equiv> w\<lparr>tsks := (tsks w)(tsk \<mapsto> t\<lparr>sacks := l, sacklen := of_nat n\<rparr>)\<rparr>"

lemma sacks_round:
  assumes tsk: "tsk \<noteq> null" and x: "x \<noteq> null" "skbs w x = Some s" "seq s \<noteq> 0"
    and b: "sb_left b \<noteq> 0" "sb_right b \<noteq> 0" and four: "length bs + length rest = 3"
  shows "seq s = sb_right b \<Longrightarrow>
      tcp_calculate_sacks_body tsk x (length bs) (with_sacks w tsk t (bs @ b # rest) (Suc (length bs)))
        = Ok (False, length bs) (with_sacks w tsk t (bs @ b\<lparr>sb_right := end_seq s\<rparr> # rest) (Suc (length bs)))"
    and "seq s \<noteq> sb_right b \<Longrightarrow> unat (sacks_allowed t) \<le> Suc (length bs) \<Longrightarrow>
      tcp_calculate_sacks_body tsk x (length bs) (with_sacks w tsk t (bs @ b # rest) (Suc (length bs)))
        = Ok (True, length bs) (with_sacks w tsk t (bs @ b # rest) (Suc (length bs)))"
    and "seq s \<noteq> sb_right b \<Longrightarrow> Suc (length bs) < unat (sacks_allowed t) \<Longrightarrow> rest = c # rest' \<Longrightarrow>
      tcp_calculate_sacks_body tsk x (length bs) (with_sacks w tsk t (bs @ b # rest) (Suc (length bs)))
        = Ok (False, length (bs @ [b])) (with_sacks w tsk t
            ((bs @ [b]) @ \<lparr>sb_left = seq s, sb_right = end_seq s\<rparr> # rest') (Suc (length (bs @ [b]))))"
proof -
  let ?t = "t\<lparr>sacks := bs @ b # rest, sacklen := of_nat (Suc (length bs))\<rparr>"
    and ?w = "with_sacks w tsk t (bs @ b # rest) (Suc (length bs))"
  have u: "unat (sacklen ?t) = Suc (length bs)"
    using four by (simp add: unat_of_nat del: of_nat_Suc)
  have "tsks ?w tsk = Some ?t" "skbs ?w x = Some s" "length bs < length (sacks ?t)" "sacks ?t ! length bs = b"
    using x by simp_all
  note body = tcp_calculate_sacks_body_run [OF tsk this(1) x(1) this(2,3) x(3), unfolded this(4)]
  show "seq s = sb_right b \<Longrightarrow> tcp_calculate_sacks_body tsk x (length bs) ?w
      = Ok (False, length bs) (with_sacks w tsk t (bs @ b\<lparr>sb_right := end_seq s\<rparr> # rest) (Suc (length bs)))"
    using body(2) b by (simp add: list_update_append sack_upd)
  show "seq s \<noteq> sb_right b \<Longrightarrow> unat (sacks_allowed t) \<le> Suc (length bs) \<Longrightarrow>
      tcp_calculate_sacks_body tsk x (length bs) ?w = Ok (True, length bs) ?w"
    using body(3) b u by (simp add: word_le_nat_alt)
  show "seq s \<noteq> sb_right b \<Longrightarrow> Suc (length bs) < unat (sacks_allowed t) \<Longrightarrow> rest = c # rest' \<Longrightarrow>
      tcp_calculate_sacks_body tsk x (length bs) ?w = Ok (False, length (bs @ [b])) (with_sacks w tsk t
        ((bs @ [b]) @ \<lparr>sb_left = seq s, sb_right = end_seq s\<rparr> # rest') (Suc (length (bs @ [b]))))"
    using body(4) b u four by (simp add: word_le_nat_alt list_update_append add.commute sack_upd)
qed

text \<open>
  The loop, started with the blocks \<open>bs @ [b]\<close> written: it leaves the first \<open>a\<close> of the
  blocks that follow from the segments still to come.
\<close>

lemma tcp_calculate_sacks_loop:
  assumes tsk: "tsk \<noteq> null" and a: "a = max 1 (unat (sacks_allowed t))" "a \<le> 4"
  shows "\<forall>x \<in> set xs. x \<noteq> null \<and> skbs w x = Some (S x) \<and> seq (S x) \<noteq> 0 \<and> end_seq (S x) \<noteq> 0 \<Longrightarrow>
    sb_left b \<noteq> 0 \<Longrightarrow> sb_right b \<noteq> 0 \<Longrightarrow> length bs < a \<Longrightarrow> length bs + length rest = 3 \<Longrightarrow>
    R = take a (bs @ extend_run b (map (\<lambda>x. segment (S x)) xs)) \<Longrightarrow>
    \<exists>i. scan_m (tcp_calculate_sacks_body tsk) xs (length bs) (with_sacks w tsk t (bs @ b # rest) (Suc (length bs)))
      = Ok i (with_sacks w tsk t (R @ drop (length R) (bs @ b # rest)) (length R))"
proof (induction xs arbitrary: bs b rest)
  case Nil
  then have "R = bs @ [b]" by simp
  then show ?case by (simp add: run_basic)
next
  case (Cons x xs)
  let ?s = "seq (S x)" and ?e = "end_seq (S x)"
  have x: "x \<noteq> null" "skbs w x = Some (S x)" "?s \<noteq> 0" and e: "?e \<noteq> 0"
    and live: "\<forall>x \<in> set xs. x \<noteq> null \<and> skbs w x = Some (S x) \<and> seq (S x) \<noteq> 0 \<and> end_seq (S x) \<noteq> 0"
    using Cons.prems(1) by auto
  note round = sacks_round [OF tsk x Cons.prems(2,3,5)] and [simp] = segment_def
  consider "?s = sb_right b" | "?s \<noteq> sb_right b" "unat (sacks_allowed t) \<le> Suc (length bs)"
    | "?s \<noteq> sb_right b" "Suc (length bs) < unat (sacks_allowed t)" by linarith
  then show ?case
  proof cases
    case 1
    let ?b = "b\<lparr>sb_right := ?e\<rparr>"
    have R: "R = take a (bs @ extend_run ?b (map (\<lambda>x. segment (S x)) xs))" using Cons.prems(6) 1 by simp
    have past: "drop (length R) (bs @ ?b # rest) = drop (length R) (bs @ b # rest)"
      by (rule drop_past) (use R Cons.prems(4) length_extend_run in \<open>simp add: Suc_le_eq\<close>)
    have "sb_left ?b \<noteq> 0" "sb_right ?b \<noteq> 0" using Cons.prems(2) e by simp_all
    from Cons.IH [OF live this Cons.prems(4,5) R] show ?thesis
      by (simp only: scan_m.simps bnd_run round(1) [OF 1] andthen_run prod.case if_False past)
  next
    case 2
    then have "a = Suc (length bs)" using a(1) Cons.prems(4) by simp
    then have R: "R = bs @ [b]" using Cons.prems(6) 2(1) by simp
    then have "R @ drop (length R) (bs @ b # rest) = bs @ b # rest" "length R = Suc (length bs)" by simp_all
    then show ?thesis
      by (simp only: scan_m.simps bnd_run round(2) [OF 2] andthen_run prod.case if_True run_basic) blast
  next
    case 3
    then have more: "length (bs @ [b]) < a" using a(1) by simp
    with Cons.prems(5) a(2) obtain c rest' where rest: "rest = c # rest'" by (cases rest) auto
    let ?c = "\<lparr>sb_left = ?s, sb_right = ?e\<rparr>"
    have R: "R = take a ((bs @ [b]) @ extend_run ?c (map (\<lambda>x. segment (S x)) xs))" using Cons.prems(6) 3(1) by simp
    have past: "drop (length R) ((bs @ [b]) @ ?c # rest') = drop (length R) (bs @ b # rest)"
      unfolding rest by (subst drop_past [of "bs @ [b]" _ ?c rest' c])
        (use R more length_extend_run in \<open>simp_all add: Suc_le_eq\<close>)
    have "sb_left ?c \<noteq> 0" "sb_right ?c \<noteq> 0" "length (bs @ [b]) + length rest' = 3"
      using Cons.prems(5) rest x(3) e by simp_all
    from Cons.IH [OF live this(1,2) more this(3) R] show ?thesis
      by (simp only: scan_m.simps bnd_run round(3) [OF 3 rest] andthen_run prod.case if_False past)
  qed
qed

text \<open>
  C12. The selective acknowledgements describe the out-of-order queue: starting with no
  block, \<open>tcp_calculate_sacks\<close> writes the maximal runs of adjacent segments in the queue,
  in its order, as many as the connection allows (but at least one), counts them, and
  changes nothing else.
\<close>

theorem tcp_calculate_sacks_run:
  assumes tsk: "tsk \<noteq> null" "tsks w tsk = Some t"
    and table: "length (sacks t) = 4" "sacklen t = 0" "sacks_allowed t \<le> 4"
    and rep: "qrep w (ofo_queue t) xs"
    and live: "\<forall>x \<in> set xs. skbs w x = Some (S x) \<and> seq (S x) \<noteq> 0 \<and> end_seq (S x) \<noteq> 0"
    and R: "R = take (max 1 (unat (sacks_allowed t))) (sack_runs (map (\<lambda>x. segment (S x)) xs))"
  shows "tcp_calculate_sacks tsk w = Ok 0 (w\<lparr>tsks := (tsks w)(tsk \<mapsto>
    t\<lparr>sacks := R @ drop (length R) ((sacks t)[0 := \<lparr>sb_left = 0, sb_right = 0\<rparr>]), sacklen := of_nat (length R)\<rparr>)\<rparr>)"
proof -
  let ?t = "t\<lparr>sacks := (sacks t)[0 := \<lparr>sb_left = 0, sb_right = 0\<rparr>]\<rparr>"
  let ?w = "w\<lparr>tsks := (tsks w)(tsk \<mapsto> ?t)\<rparr>"
  let ?body = "tcp_calculate_sacks_body tsk"
  have four: "unat (sacks_allowed t) \<le> 4" using table(3) by (simp add: word_le_nat_alt)
  have "qrep ?w (ofo_queue t) xs" using rep by simp
  from list_for_each_safe_scan_m [OF this keeps_nodes_sacks]
  have start: "tcp_calculate_sacks tsk w = andthen (scan_m ?body xs 0 ?w) (\<lambda>_. ret 0)"
    using tsk table by (simp add: tcp_calculate_sacks_def run Let_def)
  show ?thesis
  proof (cases xs)
    case Nil
    have "t\<lparr>sacks := l, sacklen := 0\<rparr> = t\<lparr>sacks := l\<rparr>" for l using table(2) by (cases t) simp
    with Nil start R show ?thesis by (simp add: run)
  next
    case (Cons x xs')
    let ?b = "\<lparr>sb_left = seq (S x), sb_right = end_seq (S x)\<rparr>" and ?none = "length ([] :: sack_block list)"
    let ?v = "with_sacks w tsk t ([] @ ?b # tl (sacks t)) (Suc ?none)"
    have x: "x \<noteq> null" "skbs ?w x = Some (S x)" "seq (S x) \<noteq> 0"
      and live': "\<forall>x \<in> set xs'. x \<noteq> null \<and> skbs w x = Some (S x) \<and> seq (S x) \<noteq> 0 \<and> end_seq (S x) \<noteq> 0"
      using live rep Cons by (auto simp: qrep_def)
    have cons: "(sacks t)[0 := c] = c # tl (sacks t)" for c using table(1) by (cases "sacks t") auto
    have first: "?body x 0 ?w = Ok (False, ?none) ?v"
      using tcp_calculate_sacks_body_run(1) [OF tsk(1) _ x(1,2), of ?t 0] x(3) table
      by (simp add: cons)
    have segs: "R = take (max 1 (unat (sacks_allowed t))) ([] @ extend_run ?b (map (\<lambda>x. segment (S x)) xs'))"
      using R Cons by (simp add: segment_def)
    have "sb_left ?b \<noteq> 0" "sb_right ?b \<noteq> 0" "?none + length (tl (sacks t)) = 3"
      and "?none < max 1 (unat (sacks_allowed t))" "max 1 (unat (sacks_allowed t)) \<le> 4"
      using live Cons table(1) four by auto
    from tcp_calculate_sacks_loop [OF tsk(1) refl this(5) live' this(1,2,4,3) segs]
    obtain i where rest: "scan_m ?body xs' ?none ?v
        = Ok i (with_sacks w tsk t (R @ drop (length R) ([] @ ?b # tl (sacks t))) (length R))" by blast
    have "scan_m ?body xs 0 ?w = Ok i (with_sacks w tsk t (R @ drop (length R) ([] @ ?b # tl (sacks t))) (length R))"
      by (simp only: Cons scan_m.simps bnd_run first andthen_run prod.case if_False rest)
    moreover have "drop (length R) ([] @ ?b # tl (sacks t)) = drop (length R) ((sacks t)[0 := \<lparr>sb_left = 0, sb_right = 0\<rparr>])"
      unfolding cons append.left_neutral
      by (rule drop_past [of "[]", unfolded append.left_neutral]) (simp add: segs)
    ultimately show ?thesis using start by (simp add: run)
  qed
qed

theorem tcp_calculate_sacks_run_witness:
  "\<exists>w' t'. tcp_calculate_sacks 64 (put_queue 40 [128, 136, 144] (blank\<lparr>
      skbs := [128 \<mapsto> (SkBuff_init 0 0)\<lparr>seq := 10, end_seq := 20\<rparr>,
        136 \<mapsto> (SkBuff_init 0 0)\<lparr>seq := 20, end_seq := 25\<rparr>,
        144 \<mapsto> (SkBuff_init 0 0)\<lparr>seq := 30, end_seq := 35\<rparr>],
      tsks := [64 \<mapsto> blank_tsk]\<rparr>)) = Ok 0 w'
    \<and> tsks w' 64 = Some t' \<and> sacklen t' = 2
    \<and> take 2 (sacks t') = [\<lparr>sb_left = 10, sb_right = 25\<rparr>, \<lparr>sb_left = 30, sb_right = 35\<rparr>]"
  (is "\<exists>w' t'. tcp_calculate_sacks _ ?w = _ \<and> _")
  using tcp_calculate_sacks_run [where w = ?w and tsk = 64 and t = blank_tsk and xs = "[128, 136, 144]"
      and S = "\<lambda>x. the (skbs ?w x)", OF _ _ _ _ _ _ _ refl]
  by (simp add: put_queue_def blank_def blank_tsk_def SkBuff_init_def qrep_def linked_def nx_def pv_def
      segment_def)

section \<open>Incoming headers\<close>


definition example_segment :: skbuff where
  "example_segment = (SkBuff_init 0 54)\<lparr>buf := replicate 46 0 @ [0x50, 0x10, 0, 0, 0, 0, 0, 0]\<rparr>"

lemma example_segment_hdr:
  "room_for_hdr example_segment" "tcp_hlen (ntoh_hdr (skb_hdr example_segment)) = 20"
  "th_seq (ntoh_hdr (skb_hdr example_segment)) = 0"
  by code_simp+

lemma example_ip_hdr: "ip_len (ip_hdr_of (obj_bytes \<lparr>lprev = 0x280045, lnext = 0\<rparr> example_segment)) = 20"
  by code_simp


end
