(* ===== verification/Tcp_Output.thy ===== *)
theory Tcp_Output
  imports Tcp_Core
begin

text \<open>
  Segment output, \<open>src/tcp_output.cpp\<close>. The function of the layer below,
  \<open>ip_output\<close>, is the argument \<open>ipo\<close> of everything that calls it, directly or not.

  The options begin right behind the fixed header, at \<open>tcp_opts_at\<close>. \<open>tcp_out_dbg\<close>
  leaves a line in \<open>tcp_out\<close>: the segment as it is about to be sent.
\<close>

unbundle bit_operations_syntax

type_synonym 'w ip_out = "ptr \<Rightarrow> ptr \<Rightarrow> ('w tcp_world_scheme, int) M"

section \<open>Building a segment\<close>

definition tcp_alloc_skb :: "nat \<Rightarrow> nat \<Rightarrow> ('w tcp_world_scheme, ptr) M" where
  "tcp_alloc_skb opt_len n = (let room = Eth_Hdr_size + Ip_Hdr_size + Tcp_Hdr_size + opt_len + n in
     bnd (SkBuff_new room) (\<lambda>skb.
       sq (reserve_headroom skb (int room))
       (sq (upd_skb skb (\<lambda>s. s\<lparr>protocol := 6, data_len := of_nat n, seq := 0\<rparr>)) (ret skb))))"

record tcp_options =
  opt_mss :: u16
  opt_sack :: bool

definition tcp_write_syn_options :: "ptr \<Rightarrow> tcp_options \<Rightarrow> nat \<Rightarrow> ('w tcp_world_scheme, int) M" where
  "tcp_write_syn_options skb opts opt_len =
     sq (write_buf skb tcp_opts_at ([2, 4] @ bytes16 (htons (opt_mss opts))))
     (sq (onlyif (opt_mss opts \<noteq> 0) (write_buf skb (tcp_opts_at + 4) [1, 1, 4, 2]))
     (sq (upd_hdr skb (set_hl (Tcp_Hdr_size div 4 + opt_len div 4))) (ret 0)))"

definition tcp_syn_options :: "ptr \<Rightarrow> ('w tcp_world_scheme, nat \<times> tcp_options) M" where
  "tcp_syn_options sk = bnd (load tsks sk) (\<lambda>t.
     if sackok t \<noteq> 0 then ret (4 + 1 * 2 + 2, \<lparr>opt_mss = rmss t, opt_sack = True\<rparr>)
     else ret (4, \<lparr>opt_mss = rmss t, opt_sack = False\<rparr>))"

text \<open>The loop of \<open>tcp_write_options\<close>: the blocks from \<open>i - 1\<close> down to 0.\<close>

primrec tcp_write_sacks :: "ptr \<Rightarrow> ptr \<Rightarrow> int \<Rightarrow> nat \<Rightarrow> ('w tcp_world_scheme, unit) M" where
  "tcp_write_sacks tsk skb at 0 = skip"
| "tcp_write_sacks tsk skb at (Suc i) =
     bnd (get_sack tsk i) (\<lambda>b. sq (write_buf skb at (bytes32 (htonl (sb_left b))))
     (sq (set_sack tsk i (\<lambda>b. b\<lparr>sb_left := 0\<rparr>))
     (sq (write_buf skb (at + 4) (bytes32 (htonl (sb_right b))))
     (sq (set_sack tsk i (\<lambda>b. b\<lparr>sb_right := 0\<rparr>))
       (tcp_write_sacks tsk skb (at + 8) i)))))"

definition tcp_write_options :: "ptr \<Rightarrow> ptr \<Rightarrow> ('w tcp_world_scheme, int) M" where
  "tcp_write_options tsk skb = bnd (load tsks tsk) (\<lambda>t.
     if sackok t = 0 then ret 0
     else bnd (get_sack tsk 0) (\<lambda>b.
       if sb_left b = 0 then ret 0
       else sq (write_buf skb tcp_opts_at [1, 1, 5, 2 + sacklen t * 8])
         (sq (tcp_write_sacks tsk skb (tcp_opts_at + 4) (unat (sacklen t)))
         (sq (upd_tsk tsk (\<lambda>t. t\<lparr>sacklen := 0\<rparr>)) (ret 0)))))"

text \<open>The line \<open>tcp_out_dbg\<close> prints.\<close>

definition tcp_out_dbg :: "ptr \<Rightarrow> ptr \<Rightarrow> ('w tcp_world_scheme, unit) M" where
  "tcp_out_dbg sk skb = bnd (read_hdr skb) (\<lambda>h. bnd (load socks sk) (\<lambda>k. bnd (load tsks sk) (\<lambda>t.
     bnd (load skbs skb) (\<lambda>s. upd (tcp_out_update (\<lambda>l. l @ [\<lparr>tr_src = (saddr k, sport k),
       tr_dst = (daddr k, dport k), tr_flags = th_flags h, tr_seq = th_seq h - iss (tcb t),
       tr_end = th_seq h + data_len s - iss (tcb t), tr_ack = th_ack_seq h - irs (tcb t),
       tr_win = th_win h, tr_rto = rto t, tr_backoff = backoff t\<rparr>]))))))"

definition tcp_transmit_skb :: "'w ip_out \<Rightarrow> ptr \<Rightarrow> ptr \<Rightarrow> u32 \<Rightarrow> ('w tcp_world_scheme, int) M" where
  "tcp_transmit_skb ipo sk skb sq_no = bnd (read_hdr skb) (\<lambda>h.
     sq (onlyif (th_hl h = 0) (upd_hdr skb (set_hl (Tcp_Hdr_size div 4))))
     (bnd (read_hdr skb) (\<lambda>h. sq (push skb (4 * int (th_hl h)))
     (bnd (load socks sk) (\<lambda>k. bnd (get_tcb sk) (\<lambda>b.
       sq (upd_hdr skb (\<lambda>h. h\<lparr>th_sport := sport k, th_dport := dport k, th_seq := sq_no,
             th_ack_seq := rcv_nxt b, th_csum := 0, th_urp := 0\<rparr>))
       (sq (onlyif (5 < th_hl h) (sq (tcp_write_options sk skb) skip))
       (sq (tcp_out_dbg sk skb)
       (sq (upd_hdr skb ntoh_hdr)
       (bnd (tcp_v4_checksum skb (htonl (saddr k)) (htonl (daddr k))) (\<lambda>c.
       sq (upd_hdr skb (\<lambda>h. h\<lparr>th_csum := c\<rparr>))
         (ipo sk skb))))))))))))"

section \<open>The connection's output timers\<close>

definition TCP_SYN_BACKOFF :: u32 where "TCP_SYN_BACKOFF = 500"
definition TCP_CONN_RETRIES :: u8 where "TCP_CONN_RETRIES = 3"

definition tcp_rearm_rto_timer :: "ptr \<Rightarrow> ('w tcp_world_scheme, unit) M" where
  "tcp_rearm_rto_timer tsk = sq (tcp_release_rto_timer tsk) (bnd (load socks tsk) (\<lambda>s.
     if sk_state s = TCP_SYN_SENT
     then bnd (load tsks tsk) (\<lambda>t.
       if 32 \<le> backoff t then fail Overflow
       else bnd (Timer_create (push_bit (unat (backoff t)) TCP_SYN_BACKOFF) (Connect_Rto tsk) Trackable)
         (\<lambda>p. upd_tsk tsk (\<lambda>t. t\<lparr>retransmit := p\<rparr>)))
     else bnd (load tsks tsk) (\<lambda>t.
       bnd (Timer_create (rto t) (Retransmission_Timeout tsk) Trackable)
         (\<lambda>p. upd_tsk tsk (\<lambda>t. t\<lparr>retransmit := p\<rparr>)))))"

section \<open>Queueing and sending\<close>

definition tcp_queue_transmit_skb :: "'w ip_out \<Rightarrow> ptr \<Rightarrow> ptr \<Rightarrow> ('w tcp_world_scheme, int) M" where
  "tcp_queue_transmit_skb ipo sk skb = bnd (load socks sk) (\<lambda>k. bnd (isEmpty (write_queue k)) (\<lambda>e.
     sq (onlyif e (tcp_rearm_rto_timer sk))
     (bnd (load tsks sk) (\<lambda>t.
       bnd (if inflight t = 0
         then bnd (tcp_transmit_skb ipo sk skb (snd_nxt (tcb t))) (\<lambda>rc.
           sq (upd_tsk sk (\<lambda>t. t\<lparr>inflight := inflight t + 1\<rparr>))
           (bnd (get_tcb sk) (\<lambda>b. sq (upd_skb skb (\<lambda>s. s\<lparr>seq := snd_nxt b\<rparr>))
           (bnd (load skbs skb) (\<lambda>s.
             sq (upd_tcb sk (\<lambda>b. b\<lparr>snd_nxt := snd_nxt b + data_len s\<rparr>))
           (bnd (get_tcb sk) (\<lambda>b. sq (upd_skb skb (\<lambda>s. s\<lparr>end_seq := snd_nxt b\<rparr>))
           (bnd (read_hdr skb) (\<lambda>h.
             sq (onlyif (th_fin h) (upd_tcb sk (\<lambda>b. b\<lparr>snd_nxt := snd_nxt b + 1\<rparr>)))
               (ret rc))))))))))
         else ret 0)
       (\<lambda>rc. sq (queue_add_tail (write_queue k) skb) (ret rc))))))"

definition tcp_send_synsack :: "'w ip_out \<Rightarrow> ptr \<Rightarrow> ('w tcp_world_scheme, int) M" where
  "tcp_send_synsack ipo sk = bnd (load socks sk) (\<lambda>k.
     if sk_state k \<noteq> TCP_SYN_SENT then ret 1
     else bnd (tcp_alloc_skb 0 0) (\<lambda>skb.
       sq (upd_hdr skb (set_flag TCP_SYN)) (sq (upd_hdr skb (set_flag TCP_ACK))
       (bnd (get_tcb sk) (\<lambda>b. bnd (tcp_transmit_skb ipo sk skb (snd_nxt b)) (\<lambda>rc.
         sq (free_skb skb) (ret rc)))))))"

definition tcp_send_next_body ::
    "'w ip_out \<Rightarrow> ptr \<Rightarrow> int \<Rightarrow> ptr \<Rightarrow> int \<times> int \<Rightarrow> ('w tcp_world_scheme, bool \<times> int \<times> int) M" where
  "tcp_send_next_body ipo sk amount pos st = (case st of (i, r) \<Rightarrow>
     if i + 1 < amount then ret (True, i + 1, r)
     else let skb = list_entry pos 0 in
       if skb = null then ret (True, i + 1, -1)
       else sq (reset_header skb) (bnd (get_tcb sk) (\<lambda>b.
         sq (tcp_transmit_skb ipo sk skb (snd_nxt b))
         (bnd (get_tcb sk) (\<lambda>b. sq (upd_skb skb (\<lambda>s. s\<lparr>seq := snd_nxt b\<rparr>))
         (bnd (load skbs skb) (\<lambda>s. sq (upd_tcb sk (\<lambda>b. b\<lparr>snd_nxt := snd_nxt b + data_len s\<rparr>))
         (bnd (get_tcb sk) (\<lambda>b. sq (upd_skb skb (\<lambda>s. s\<lparr>end_seq := snd_nxt b\<rparr>))
         (bnd (read_hdr skb) (\<lambda>h.
           sq (onlyif (th_fin h) (upd_tcb sk (\<lambda>b. b\<lparr>snd_nxt := snd_nxt b + 1\<rparr>)))
             (ret (False, i + 1, r)))))))))))))"

definition tcp_send_next :: "'w ip_out \<Rightarrow> ptr \<Rightarrow> int \<Rightarrow> ('w tcp_world_scheme, int) M" where
  "tcp_send_next ipo sk amount = bnd (load socks sk) (\<lambda>k.
     bnd (list_for_each_safe (write_queue k) (tcp_send_next_body ipo sk amount) (0, 0)) (\<lambda>st.
       ret (snd st)))"

text \<open>The two loops of \<open>tcp_options_len\<close>: over the blocks, then up to a multiple of 4.\<close>

primrec tcp_options_len_loop :: "ptr \<Rightarrow> nat list \<Rightarrow> u8 \<Rightarrow> ('w tcp_world_scheme, u8) M" where
  "tcp_options_len_loop sk [] n = ret n"
| "tcp_options_len_loop sk (i # is) n = bnd (get_sack sk i) (\<lambda>b.
     tcp_options_len_loop sk is (if sb_left b \<noteq> 0 then n + 8 else n))"

function round_up4 :: "u8 \<Rightarrow> u8" where
  "round_up4 n = (if 0 < n mod 4 then round_up4 (n + 1) else n)"
  by auto

text \<open>Each step comes closer to the next multiple of 4; from 253 on that is 0.\<close>

lemma round_up4_step:
  fixes n :: u8
  assumes "0 < n mod 4"
  shows "(4 - unat (n + 1) mod 4) mod 4 < (4 - unat n mod 4) mod 4"
proof -
  have r: "0 < unat n mod 4"
    using assms by (simp add: word_less_nat_alt unat_mod)
  have "unat (n + 1) mod 4 = (unat n + 1) mod 256 mod 4"
    by (simp add: unat_word_ariths)
  then have s: "unat (n + 1) mod 4 = (unat n + 1) mod 4"
    by (simp only: mod_mod_cancel [of 4 "256 :: nat", simplified])
  have "(4 - (k + 1) mod 4) mod 4 < (4 - k mod 4) mod 4" if "0 < k mod 4" for k :: nat
  proof -
    have "k mod 4 < 4" by simp
    with that consider "k mod 4 = 1" | "k mod 4 = 2" | "k mod 4 = 3" by linarith
    then show ?thesis by cases (simp_all add: mod_Suc)
  qed
  with r show ?thesis by (simp only: s)
qed

termination round_up4
  by (relation "measure (\<lambda>n. (4 - unat n mod 4) mod 4)") (simp, simp only: in_measure round_up4_step)

declare round_up4.simps [simp del]

definition tcp_options_len :: "ptr \<Rightarrow> ('w tcp_world_scheme, nat) M" where
  "tcp_options_len sk = bnd (load tsks sk) (\<lambda>t.
     bnd (if sackok t \<noteq> 0 \<and> 0 < sacklen t
       then bnd (tcp_options_len_loop sk [0..<unat (sacklen t)] 0) (\<lambda>n. ret (n + 2))
       else ret 0)
     (\<lambda>n. ret (unat (round_up4 n))))"

definition tcp_send_ack :: "'w ip_out \<Rightarrow> ptr \<Rightarrow> ('w tcp_world_scheme, int) M" where
  "tcp_send_ack ipo sk = bnd (load socks sk) (\<lambda>k.
     if sk_state k = TCP_CLOSE then ret 0
     else bnd (tcp_options_len sk) (\<lambda>opt_len. bnd (tcp_alloc_skb opt_len 0) (\<lambda>skb.
       sq (upd_hdr skb (set_flag TCP_ACK))
       (sq (upd_hdr skb (set_hl (Tcp_Hdr_size div 4 + opt_len div 4)))
       (bnd (get_tcb sk) (\<lambda>b. bnd (tcp_transmit_skb ipo sk skb (snd_nxt b)) (\<lambda>rc.
         sq (free_skb skb) (ret rc))))))))"

definition tcp_send_syn :: "'w ip_out \<Rightarrow> ptr \<Rightarrow> ('w tcp_world_scheme, int) M" where
  "tcp_send_syn ipo sk = bnd (load socks sk) (\<lambda>k.
     if sk_state k \<noteq> TCP_SYN_SENT \<and> sk_state k \<noteq> TCP_CLOSE \<and> sk_state k \<noteq> TCP_LISTEN then ret 1
     else bnd (tcp_syn_options sk) (\<lambda>(opt_len, opts). bnd (tcp_alloc_skb opt_len 0) (\<lambda>skb.
       sq (tcp_write_syn_options skb opts opt_len)
       (sq (tcp_set_state sk TCP_SYN_SENT)
       (sq (upd_hdr skb (set_flag TCP_SYN))
         (tcp_queue_transmit_skb ipo sk skb))))))"

definition tcp_send_fin :: "'w ip_out \<Rightarrow> ptr \<Rightarrow> ('w tcp_world_scheme, int) M" where
  "tcp_send_fin ipo sk = bnd (load socks sk) (\<lambda>k.
     if sk_state k = TCP_CLOSE then ret 0
     else bnd (tcp_alloc_skb 0 0) (\<lambda>skb.
       sq (upd_hdr skb (set_flag TCP_FIN)) (sq (upd_hdr skb (set_flag TCP_ACK))
         (tcp_queue_transmit_skb ipo sk skb))))"

definition tcp_queue_fin :: "'w ip_out \<Rightarrow> ptr \<Rightarrow> ('w tcp_world_scheme, int) M" where
  "tcp_queue_fin ipo sk = bnd (tcp_alloc_skb 0 0) (\<lambda>skb.
     sq (upd_hdr skb (set_flag TCP_FIN)) (sq (upd_hdr skb (set_flag TCP_ACK))
       (tcp_queue_transmit_skb ipo sk skb)))"

definition tcp_select_initial_window :: u32 where
  "tcp_select_initial_window = 44477"

definition tcp_notify_user :: "ptr \<Rightarrow> ('w tcp_world_scheme, unit) M" where
  "tcp_notify_user sk = bnd (load socks sk) (\<lambda>k.
     onlyif (sk_state k = TCP_CLOSE_WAIT) (sq (socket_wakeup (sk_socket k)) skip))"

definition tcp_send_reset :: "'w ip_out \<Rightarrow> ptr \<Rightarrow> ('w tcp_world_scheme, int) M" where
  "tcp_send_reset ipo tsk = bnd (tcp_alloc_skb 0 0) (\<lambda>skb.
     sq (upd_hdr skb (set_flag TCP_RST))
     (sq (upd_tcb tsk (\<lambda>b. b\<lparr>snd_una := snd_nxt b\<rparr>))
     (bnd (get_tcb tsk) (\<lambda>b. bnd (tcp_transmit_skb ipo tsk skb (snd_nxt b)) (\<lambda>rc.
       sq (free_skb skb) (ret rc))))))"

definition tcp_send_challenge_ack :: "ptr \<Rightarrow> ptr \<Rightarrow> ('w tcp_world_scheme, int) M" where
  "tcp_send_challenge_ack sk skb = ret 0"

definition tcp_connect :: "'w ip_out \<Rightarrow> ptr \<Rightarrow> ('w tcp_world_scheme, int) M" where
  "tcp_connect ipo sk =
     sq (upd_tsk sk (\<lambda>t. t\<lparr>tcp_header_len := of_nat Tcp_Hdr_size\<rparr>))
     (bnd (get next_iss) (\<lambda>i.
       sq (upd_tcb sk (\<lambda>b. b\<lparr>iss := i, snd_wnd := 0, snd_wl1 := 0, snd_una := i, snd_up := i,
             snd_nxt := i, rcv_wnd := tcp_select_initial_window\<rparr>))
       (bnd (tcp_send_syn ipo sk) (\<lambda>rc.
         sq (upd_tcb sk (\<lambda>b. b\<lparr>snd_nxt := snd_nxt b + 1\<rparr>)) (ret rc)))))"

section \<open>Sending the user's data\<close>

text \<open>
  \<open>buff\<close> is what is left of the user's buffer from the pointer on; copying more than that
  reads past its end. With a segment size of 0 the loop does not end.
\<close>

partial_function (option) tcp_send_loop ::
    "'w ip_out \<Rightarrow> ptr \<Rightarrow> int \<Rightarrow> int \<Rightarrow> u8 list \<Rightarrow> int \<Rightarrow> ('w tcp_world_scheme, unit) M" where
  "tcp_send_loop ipo tsk mss n buff slen w =
     (if 0 < slen
      then bnd (ret (if mss < slen then mss else n)) (\<lambda>dlen.
        bnd (tcp_alloc_skb 0 (nat dlen)) (\<lambda>skb.
        bnd (push skb dlen) (\<lambda>at.
        sq (if int (length buff) < dlen then fail OutOfBounds
            else write_buf skb at (take (nat dlen) buff))
        (sq (upd_hdr skb (set_flag TCP_ACK))
        (sq (onlyif (slen - dlen = 0) (upd_hdr skb (set_flag TCP_PSH)))
        (bnd (tcp_queue_transmit_skb ipo tsk skb) (\<lambda>rc.
          if rc = -1 then fail (Throw ''ERR(tcp_send): Error in queueing skb.'')
          else tcp_send_loop ipo tsk mss n (drop (nat dlen) buff) (slen - dlen)))))))) w
      else Ok () w)"

declare tcp_send_loop.simps [code]

definition tcp_send :: "'w ip_out \<Rightarrow> ptr \<Rightarrow> u8 list \<Rightarrow> int \<Rightarrow> ('w tcp_world_scheme, int) M" where
  "tcp_send ipo tsk buff n = bnd (load tsks tsk) (\<lambda>t.
     sq (tcp_send_loop ipo tsk (uint (smss t)) n buff n)
     (sq (tcp_rearm_user_timeout tsk) (ret n)))"

section \<open>Timer handlers\<close>

definition tcp_send_delack :: "'w ip_out \<Rightarrow> ptr \<Rightarrow> ('w tcp_world_scheme, unit) M" where
  "tcp_send_delack ipo sk = bnd (load socks sk) (\<lambda>k. sq (socket_wr_acquire (sk_socket k))
     (sq (upd_tsk sk (\<lambda>t. t\<lparr>delacks := 0\<rparr>))
     (sq (tcp_release_delack_timer sk)
     (sq (tcp_send_ack ipo sk)
     (bnd (load socks sk) (\<lambda>k. sq (socket_release (sk_socket k)) skip))))))"

definition tcp_connect_rto :: "'w ip_out \<Rightarrow> ptr \<Rightarrow> ('w tcp_world_scheme, unit) M" where
  "tcp_connect_rto ipo sk = bnd (load socks sk) (\<lambda>k. sq (socket_wr_acquire (sk_socket k))
     (sq (tcp_release_rto_timer sk)
     (bnd (load socks sk) (\<lambda>k.
       sq (onlyif (sk_state k = TCP_SYN_SENT) (bnd (load tsks sk) (\<lambda>t.
         if TCP_CONN_RETRIES < backoff t
         then sq (upd_sk sk (\<lambda>k. k\<lparr>sk_err := - ETIMEDOUT\<rparr>))
           (sq (upd_sk sk (\<lambda>k. k\<lparr>poll_events := poll_events k OR (POLLOUT OR POLLERR OR POLLHUP)\<rparr>))
           (sq (tcp_done sk) skip))
         else bnd (write_queue_head sk) (\<lambda>skb.
           onlyif (skb \<noteq> null) (sq (reset_header skb) (bnd (get_tcb sk) (\<lambda>b.
             sq (tcp_transmit_skb ipo sk skb (snd_una b))
             (sq (upd_tsk sk (\<lambda>t. t\<lparr>backoff := backoff t + 1\<rparr>))
               (tcp_rearm_rto_timer sk)))))))))
       (bnd (load socks sk) (\<lambda>k. sq (socket_release (sk_socket k)) skip))))))"

definition tcp_retransmission_timeout :: "'w ip_out \<Rightarrow> ptr \<Rightarrow> ('w tcp_world_scheme, unit) M" where
  "tcp_retransmission_timeout ipo sk = bnd (load socks sk) (\<lambda>k. sq (socket_wr_acquire (sk_socket k))
     (sq (tcp_release_rto_timer sk)
     (bnd (write_queue_head sk) (\<lambda>skb.
       sq (if skb = null
         then sq (upd_tsk sk (\<lambda>t. t\<lparr>backoff := 0\<rparr>)) (tcp_notify_user sk)
         else sq (reset_header skb) (bnd (get_tcb sk) (\<lambda>b.
           sq (tcp_transmit_skb ipo sk skb (snd_una b))
           (bnd (load tsks sk) (\<lambda>t.
             if 60000 < rto t
             then sq (tcp_done sk)
               (sq (upd_sk sk (\<lambda>k. k\<lparr>sk_err := - ETIMEDOUT\<rparr>))
                 (upd_sk sk (\<lambda>k. k\<lparr>poll_events := POLLOUT OR POLLERR OR POLLHUP\<rparr>)))
             else sq (upd_tsk sk (\<lambda>t. t\<lparr>rto := rto t * 2, backoff := backoff t + 1\<rparr>))
               (bnd (load tsks sk) (\<lambda>t.
                bnd (Timer_create (rto t) (Retransmission_Timeout sk) Trackable) (\<lambda>p.
                sq (upd_tsk sk (\<lambda>t. t\<lparr>retransmit := p\<rparr>))
                (bnd (read_hdr skb) (\<lambda>h. onlyif (th_fin h) (tcp_handle_fin_state sk)))))))))))
       (bnd (load socks sk) (\<lambda>k. sq (socket_release (sk_socket k)) skip))))))"

section \<open>Running the operations\<close>

lemma push_run [run]:
  "p \<noteq> null \<Longrightarrow> skbs w p = Some s \<Longrightarrow> push p n w = Ok (data s - n)
     (w\<lparr>skbs := (skbs w)(p \<mapsto> s\<lparr>data := data s - n, len := len s + word_of_int n\<rparr>)\<rparr>)"
  by (simp add: push_def run)

lemma reserve_headroom_run [run]:
  "p \<noteq> null \<Longrightarrow> skbs w p = Some s \<Longrightarrow>
     reserve_headroom p n w = Ok () (w\<lparr>skbs := (skbs w)(p \<mapsto> s\<lparr>data := data s + n\<rparr>)\<rparr>)"
  by (simp add: reserve_headroom_def run)

lemma reset_header_run [run]:
  "p \<noteq> null \<Longrightarrow> skbs w p = Some s \<Longrightarrow> reset_header p w = Ok () (w\<lparr>skbs := (skbs w)(p \<mapsto>
     s\<lparr>data := int (length (buf s)) - uint (data_len s), len := data_len s\<rparr>)\<rparr>)"
  by (simp add: reset_header_def run)

text \<open>A fresh segment: all zero but for its protocol and text length.\<close>

definition fresh_skb :: "ptr \<Rightarrow> nat \<Rightarrow> nat \<Rightarrow> skbuff" where
  "fresh_skb raw opt_len n = (SkBuff_init raw (54 + opt_len + n))\<lparr>data := int (54 + opt_len + n),
     protocol := 6, data_len := of_nat n, seq := 0\<rparr>"

lemma tcp_alloc_skb_run [run]:
  "pool w = p # ps \<Longrightarrow> p \<noteq> null \<Longrightarrow> tcp_alloc_skb opt_len n w = Ok p
     (w\<lparr>pool := ps, nodes := (nodes w)(p \<mapsto> \<lparr>lprev = p, lnext = p\<rparr>),
        skbs := (skbs w)(p \<mapsto> fresh_skb (raw_ptr w) opt_len n)\<rparr>)"
  by (simp add: tcp_alloc_skb_def run Let_def fresh_skb_def SkBuff_init_def Eth_Hdr_size_def
      Ip_Hdr_size_def Tcp_Hdr_size_def)

definition zero_hdr :: tcp_hdr where
  "zero_hdr = \<lparr>th_sport = 0, th_dport = 0, th_seq = 0, th_ack_seq = 0, th_off = 0, th_flags = 0,
     th_win = 0, th_csum = 0, th_urp = 0\<rparr>"

lemma tcp_hdr_of_zeros: "tcp_hdr_of (replicate 20 0) = zero_hdr"
  by (simp add: tcp_hdr_of_def zero_hdr_def get16_def get32_def le16_def le32_def)

lemma fresh_skb_simps [simp]:
  "skb_hdr (fresh_skb r opt_len n) = zero_hdr" "room_for_hdr (fresh_skb r opt_len n)"
  "data (fresh_skb r opt_len n) = 54 + int opt_len + int n" "len (fresh_skb r opt_len n) = 0"
  "data_len (fresh_skb r opt_len n) = of_nat n" "refcnt (fresh_skb r opt_len n) = 0"
  "protocol (fresh_skb r opt_len n) = 6" "seq (fresh_skb r opt_len n) = 0"
  "buf (fresh_skb r opt_len n) = replicate (54 + opt_len + n) 0"
  by (simp_all add: skb_hdr_def fresh_skb_def SkBuff_init_def room_for_hdr_def tcp_hdr_of_zeros min_def)

lemma th_hl_zero [simp]: "th_hl zero_hdr = 0" "th_flags zero_hdr = 0" "th_win zero_hdr = 0"
  by (simp_all add: th_hl_def zero_hdr_def)

section \<open>A segment on its way out\<close>

definition out_hdr :: "sock \<Rightarrow> tcp_sock \<Rightarrow> u32 \<Rightarrow> tcp_hdr \<Rightarrow> tcp_hdr" where
  "out_hdr k t sq_no g = (if th_hl g = 0 then set_hl 5 g else g)\<lparr>th_sport := sport k,
     th_dport := dport k, th_seq := sq_no, th_ack_seq := rcv_nxt (tcb t), th_csum := 0, th_urp := 0\<rparr>"

definition out_trace :: "sock \<Rightarrow> tcp_sock \<Rightarrow> tcp_hdr \<Rightarrow> u32 \<Rightarrow> trace" where
  "out_trace k t h n = \<lparr>tr_src = (saddr k, sport k), tr_dst = (daddr k, dport k),
     tr_flags = th_flags h, tr_seq = th_seq h - iss (tcb t), tr_end = th_seq h + n - iss (tcb t),
     tr_ack = th_ack_seq h - irs (tcb t), tr_win = th_win h, tr_rto = rto t, tr_backoff = backoff t\<rparr>"

lemma th_hl_out_hdr: "th_hl g \<in> {0, 5} \<Longrightarrow> th_hl (if th_hl g = 0 then set_hl 5 g else g) = 5"
  by auto

lemma th_hl_other [simp]:
  "th_hl (h\<lparr>th_sport := a\<rparr>) = th_hl h" "th_hl (h\<lparr>th_dport := a\<rparr>) = th_hl h"
  "th_hl (h\<lparr>th_seq := b\<rparr>) = th_hl h" "th_hl (h\<lparr>th_ack_seq := b\<rparr>) = th_hl h"
  "th_hl (h\<lparr>th_csum := a\<rparr>) = th_hl h" "th_hl (h\<lparr>th_urp := a\<rparr>) = th_hl h"
  "th_hl (set_flag f h) = th_hl h"
  by (simp_all add: th_hl_def set_flag_def)

lemma segment_bytes:
  assumes "length (buf s) = 54 + n"
  shows "drop 34 (buf (put_hdr h s)) = tcp_hdr_bytes h @ drop 54 (buf s)"
  using assms by (simp add: put_hdr_def splice_def)

lemma csum_in_bytes:
  "put16 (tcp_hdr_bytes h @ bs) 16 c = tcp_hdr_bytes (h\<lparr>th_csum := c\<rparr>) @ bs"
  "get16 (tcp_hdr_bytes h @ bs) 16 = th_csum h"
  by (simp_all add: tcp_hdr_bytes_def bytes16_def bytes32_def put16_def get16_def)

lemma put_hdr_other [simp]: "(put_hdr h s)\<lparr>data := d, len := l\<rparr> = put_hdr h (s\<lparr>data := d, len := l\<rparr>)"
  by (simp add: put_hdr_def)

lemma trace_last: "w\<lparr>tcp_out := l, skbs := m\<rparr> = (w :: 'a tcp_world_scheme)\<lparr>skbs := m, tcp_out := l\<rparr>"
  by (cases w) simp

lemma tcp_out_dbg_run [run]:
  "sk \<noteq> null \<Longrightarrow> p \<noteq> null \<Longrightarrow> socks w sk = Some k \<Longrightarrow> tsks w sk = Some t \<Longrightarrow> skbs w p = Some s \<Longrightarrow>
     room_for_hdr s \<Longrightarrow> tcp_out_dbg sk p w
       = Ok () (w\<lparr>tcp_out := tcp_out w @ [out_trace k t (skb_hdr s) (data_len s)]\<rparr>)"
  by (simp add: tcp_out_dbg_def out_trace_def run)

text \<open>The code up to the checksum, when the header has its final length.\<close>

lemma tcp_transmit_skb_filled:
  assumes "sk \<noteq> null" "p \<noteq> null" "socks w sk = Some k" "tsks w sk = Some t"
    and "skbs w p = Some s" "room_for_hdr s" "th_hl (skb_hdr s) = 5" "data s = 54"
  shows "tcp_transmit_skb ipo sk p sq_no w = bnd (tcp_v4_checksum p (htonl (saddr k)) (htonl (daddr k)))
      (\<lambda>c. sq (upd_hdr p (\<lambda>h. h\<lparr>th_csum := c\<rparr>)) (ipo sk p))
      (w\<lparr>skbs := (skbs w)(p \<mapsto> put_hdr (ntoh_hdr (out_hdr k t sq_no (skb_hdr s)))
           (s\<lparr>data := 34, len := len s + 20\<rparr>)),
         tcp_out := tcp_out w @ [out_trace k t (out_hdr k t sq_no (skb_hdr s)) (data_len s)]\<rparr>)"
proof -
  have "out_hdr k t sq_no (skb_hdr s) = (skb_hdr s)\<lparr>th_sport := sport k, th_dport := dport k,
      th_seq := sq_no, th_ack_seq := rcv_nxt (tcb t), th_csum := 0, th_urp := 0\<rparr>"
    using assms(7) by (simp add: out_hdr_def)
  then show ?thesis
    using assms by (simp add: tcp_transmit_skb_def run trace_last)
qed

lemma tcp_transmit_skb_unfilled:
  assumes "p \<noteq> null" "skbs w p = Some s" "room_for_hdr s" "th_hl (skb_hdr s) = 0"
  shows "tcp_transmit_skb ipo sk p sq_no w
    = tcp_transmit_skb ipo sk p sq_no (w\<lparr>skbs := (skbs w)(p \<mapsto> put_hdr (set_hl 5 (skb_hdr s)) s)\<rparr>)"
proof -
  have read: "read_hdr p (w\<lparr>skbs := (skbs w)(p \<mapsto> put_hdr (set_hl 5 (skb_hdr s)) s)\<rparr>)
      = Ok (set_hl 5 (skb_hdr s)) (w\<lparr>skbs := (skbs w)(p \<mapsto> put_hdr (set_hl 5 (skb_hdr s)) s)\<rparr>)"
    "read_hdr p w = Ok (skb_hdr s) w"
    using assms by (simp_all add: read_hdr_run)
  have fill: "upd_hdr p (set_hl 5) w = Ok () (w\<lparr>skbs := (skbs w)(p \<mapsto> put_hdr (set_hl 5 (skb_hdr s)) s)\<rparr>)"
    using assms by (simp add: upd_hdr_run)
  show ?thesis
    unfolding tcp_transmit_skb_def bnd_run [of "read_hdr p"] read andthen_run bnd_run [of "onlyif c m" for c m]
      onlyif_run Tcp_Hdr_size_def
    using assms(4) fill read by (simp add: bnd_run)
qed

text \<open>The sum of the pseudo header, as \<open>tcp_udp_checksum\<close> adds it up.\<close>

definition pseudo_sum :: "sock \<Rightarrow> skbuff \<Rightarrow> u32" where
  "pseudo_sum k s = htonl (saddr k) + htonl (daddr k)
     + ucast (htons (ucast (ucast (protocol s) :: u8))) + ucast (htons (ucast (len s + 20)))"



end
