(* ===== verification/Tcp_Send.thy ===== *)
theory Tcp_Send
  imports Tcp_Output
begin

text \<open>
  What sending does: the cut of the user's data into segments, the queueing of a segment,
  the room for options and the retransmission timer.
\<close>

section \<open>Data longer than a segment\<close>

lemma tcp_send_loop_overreads:
  assumes "0 < mss"
  shows "0 < slen \<Longrightarrow> int (length buff) < n \<Longrightarrow> tcp_send_loop ipo tsk mss n buff slen w \<noteq> Ok () w'"
proof (induction "nat slen" arbitrary: slen buff w rule: less_induct)
  case less
  show ?case
  proof
    assume "tcp_send_loop ipo tsk mss n buff slen w = Ok () w'"
    with less.prems(1) have run: "bnd (ret (if mss < slen then mss else n)) (\<lambda>dlen.
        bnd (tcp_alloc_skb 0 (nat dlen)) (\<lambda>skb. bnd (push skb dlen) (\<lambda>at.
        sq (if int (length buff) < dlen then fail OutOfBounds
            else write_buf skb at (take (nat dlen) buff))
        (sq (upd_hdr skb (set_flag TCP_ACK))
        (sq (onlyif (slen - dlen = 0) (upd_hdr skb (set_flag TCP_PSH)))
        (bnd (tcp_queue_transmit_skb ipo tsk skb) (\<lambda>rc.
          if rc = -1 then fail (Throw ''ERR(tcp_send): Error in queueing skb.'')
          else tcp_send_loop ipo tsk mss n (drop (nat dlen) buff) (slen - dlen)))))))) w = Ok () w'"
      by (subst (asm) tcp_send_loop.simps) simp
    show False
    proof (cases "mss < slen")
      case False
      with run less.prems(2) show False by (auto simp: run_basic)
    next
      case True
      with run obtain u where "\<not> int (length buff) < mss"
        and "tcp_send_loop ipo tsk mss n (drop (nat mss) buff) (slen - mss) u = Ok () w'"
        by (auto simp: run_basic split: if_splits)
      then show False
        using less.hyps [of "slen - mss" "drop (nat mss) buff" u] less.prems True assms by simp
    qed
  qed
qed



section \<open>The retransmission timer\<close>



end
