(* ===== verification/Tcp_Data.thy ===== *)
theory Tcp_Data
  imports Tcp_Output
begin

text \<open>
  The receive side's queues, \<open>src/tcp_data.cpp\<close>: the ordered insertion of out-of-order
  segments, their move to the stream, the delivery of stream bytes to the user and the
  queueing of a segment's text.
\<close>

unbundle bit_operations_syntax

definition tcp_data_insert_ordered_body ::
    "ptr \<Rightarrow> ptr \<Rightarrow> ptr \<Rightarrow> unit \<Rightarrow> ('w tcp_world_scheme, bool \<times> unit) M" where
  "tcp_data_insert_ordered_body q skb pos u =
     bnd (load skbs skb) (\<lambda>s. bnd (load skbs (list_entry pos 0)) (\<lambda>nxt.
       if seq s < seq nxt
       then (if seq nxt < end_seq s then ret (False, ())
         else sq (upd_skb skb (\<lambda>s. s\<lparr>refcnt := refcnt s + 1\<rparr>))
           (sq (queue_add_before q skb (list_entry pos 0)) (ret (True, ()))))
       else if seq s = seq nxt then ret (True, ())
       else ret (False, ())))"

definition tcp_data_insert_ordered :: "ptr \<Rightarrow> ptr \<Rightarrow> ('w tcp_world_scheme, unit) M" where
  "tcp_data_insert_ordered q skb =
     sq (list_for_each_safe q (tcp_data_insert_ordered_body q skb) ())
     (sq (upd_skb skb (\<lambda>s. s\<lparr>refcnt := refcnt s + 1\<rparr>)) (queue_add_tail q skb))"

partial_function (option) tcp_consume_ofo_queue :: "ptr \<Rightarrow> ('w tcp_world_scheme, unit) M" where
  "tcp_consume_ofo_queue tsk w =
     bnd (load tsks tsk) (\<lambda>t. bnd (queue_first_entry (ofo_queue t)) (\<lambda>skb.
       if skb = null then ret ()
       else bnd (get_tcb tsk) (\<lambda>b. bnd (load skbs skb) (\<lambda>s.
         if rcv_nxt b \<noteq> seq s then ret ()
         else sq (upd_tcb tsk (\<lambda>b. b\<lparr>rcv_nxt := rcv_nxt b + data_len s\<rparr>))
           (sq (dequeue (ofo_queue t))
           (sq (queue_add_tail (ofo_queue t) skb) (tcp_consume_ofo_queue tsk))))))) w"

declare tcp_consume_ofo_queue.simps [code]

text \<open>
  The user's buffer is what the loop has copied so far: it is filled from its start, so the
  result is the number of bytes with the bytes themselves.
\<close>

partial_function (option) tcp_data_dequeue_loop ::
    "ptr \<Rightarrow> int \<Rightarrow> int \<Rightarrow> u8 list \<Rightarrow> ('w tcp_world_scheme, int \<times> u8 list) M" where
  "tcp_data_dequeue_loop tsk userlen rlen out w =
     bnd (load socks tsk) (\<lambda>k. bnd (isEmpty (receive_queue k)) (\<lambda>e.
       if e \<or> userlen \<le> rlen then ret (rlen, out)
       else bnd (queue_first_entry (receive_queue k)) (\<lambda>skb.
         if skb = null then ret (rlen, out)
         else bnd (load skbs skb) (\<lambda>s.
           bnd (ret (if userlen < sint (word_of_int rlen + data_len s)
                 then userlen - rlen else sint (data_len s))) (\<lambda>dlen.
           bnd (case payload s of None \<Rightarrow> fail NullDeref
             | Some at \<Rightarrow> if dlen < 0 then fail OutOfBounds else read_buf skb at (nat dlen)) (\<lambda>bs.
           sq (upd_skb skb (\<lambda>s. s\<lparr>data_len := data_len s - word_of_int dlen,
                 payload := map_option (\<lambda>at. at + dlen) (payload s)\<rparr>))
           (bnd (load skbs skb) (\<lambda>s.
             sq (if data_len s = 0
               then bnd (read_hdr skb) (\<lambda>h.
                 sq (onlyif (th_psh h) (upd_tsk tsk (\<lambda>t. t\<lparr>tflags := tflags t OR TCP_PSH\<rparr>)))
                 (sq (dequeue (receive_queue k)) (skb_put skb)))
               else skip)
             (tcp_data_dequeue_loop tsk userlen (rlen + dlen) (out @ bs)))))))))) w"

declare tcp_data_dequeue_loop.simps [code]

definition tcp_data_dequeue :: "ptr \<Rightarrow> int \<Rightarrow> ('w tcp_world_scheme, int \<times> u8 list) M" where
  "tcp_data_dequeue tsk userlen = bnd (tcp_data_dequeue_loop tsk userlen 0 []) (\<lambda>r.
     bnd (load socks tsk) (\<lambda>k. bnd (isEmpty (receive_queue k)) (\<lambda>e. bnd (load tsks tsk) (\<lambda>t.
       sq (onlyif (e \<and> tflags t AND TCP_FIN = 0)
            (upd_sk tsk (\<lambda>k. k\<lparr>poll_events := poll_events k AND NOT POLLIN\<rparr>)))
         (ret r)))))"

definition tcp_data_queue :: "'w ip_out \<Rightarrow> ptr \<Rightarrow> ptr \<Rightarrow> ('w tcp_world_scheme, int) M" where
  "tcp_data_queue ipo tsk skb = bnd (get_tcb tsk) (\<lambda>b.
     if rcv_wnd b = 0 then sq (free_skb skb) (ret (-1))
     else bnd (load skbs skb) (\<lambda>s.
       if seq s = rcv_nxt b
       then sq (upd_tcb tsk (\<lambda>b. b\<lparr>rcv_nxt := rcv_nxt b + data_len s\<rparr>))
         (sq (upd_skb skb (\<lambda>s. s\<lparr>refcnt := refcnt s + 1\<rparr>))
         (bnd (load socks tsk) (\<lambda>k. sq (queue_add_tail (receive_queue k) skb)
         (sq (tcp_consume_ofo_queue tsk)
         (sq (upd_sk tsk (\<lambda>k. k\<lparr>poll_events := poll_events k OR
               (POLLIN OR POLLPRI OR POLLRDBAND OR POLLRDNORM)\<rparr>))
         (sq (tcp_recv_notify tsk) (ret 0)))))))
       else bnd (load tsks tsk) (\<lambda>t. sq (tcp_data_insert_ordered (ofo_queue t) skb)
         (bnd (load tsks tsk) (\<lambda>t.
           sq (onlyif (sackok t \<noteq> 0) (sq (tcp_calculate_sacks tsk) skip))
           (sq (tcp_send_ack ipo tsk) (ret 0)))))))"

end
