(* ===== verification/Tcp_Input.thy ===== *)
theory Tcp_Input
  imports Tcp_Data
begin

text \<open>
  Segment arrival, \<open>src/tcp_input.cpp\<close>: options, acknowledgement of the retransmission
  queue, the window check, resets, the states SYN-SENT and CLOSED, the segment arrival
  procedure of all other states, and the user's receive loop.

  The header pointer \<open>tcphdr\<close> points into the segment's buffer, so the functions take the
  segment alone and read the header where the code does: after the segment is freed that
  is a fault, as it is in the code.
\<close>

unbundle bit_operations_syntax

section \<open>Options\<close>

definition tcp_parse_mss :: "ptr \<Rightarrow> ptr \<Rightarrow> int \<Rightarrow> ('w tcp_world_scheme, unit) M" where
  "tcp_parse_mss tsk skb at = bnd (read_buf skb (at + 2) 2) (\<lambda>bs. let mss = ntohs (get16 bs 0) in
     onlyif (536 < mss \<and> mss \<le> 1460) (upd_tsk tsk (\<lambda>t. t\<lparr>smss := mss\<rparr>)))"

definition tcp_parse_tail :: "ptr \<Rightarrow> bool \<Rightarrow> bool \<Rightarrow> ('w tcp_world_scheme, unit) M" where
  "tcp_parse_tail tsk sack_seen ts_seen =
     sq (onlyif (\<not> ts_seen) (upd_tsk tsk (\<lambda>t. t\<lparr>tsopt := 0\<rparr>)))
     (bnd (load tsks tsk) (\<lambda>t. if sack_seen \<and> sackok t \<noteq> 0
       then upd_tsk tsk (\<lambda>t. t\<lparr>sacks_allowed := (if tsopt t \<noteq> 0 then 3 else 4)\<rparr>)
       else upd_tsk tsk (\<lambda>t. t\<lparr>sackok := 0\<rparr>)))"

function tcp_parse_loop ::
    "ptr \<Rightarrow> ptr \<Rightarrow> int \<Rightarrow> u8 \<Rightarrow> bool \<Rightarrow> bool \<Rightarrow> ('w tcp_world_scheme, unit) M" where
  "tcp_parse_loop tsk skb at optlen sack_seen ts_seen =
     (if 0 < optlen \<and> optlen < 20
      then bnd (read_buf skb at 1) (\<lambda>kind.
        if kind = [2]
        then sq (tcp_parse_mss tsk skb at) (sq (tcp_parse_tail tsk sack_seen ts_seen)
          (tcp_parse_loop tsk skb (at + 4) (optlen - 4) sack_seen ts_seen))
        else if kind = [1]
        then sq (tcp_parse_tail tsk sack_seen ts_seen)
          (tcp_parse_loop tsk skb (at + 1) (optlen - 1) sack_seen ts_seen)
        else if kind = [4]
        then sq (tcp_parse_tail tsk True ts_seen)
          (tcp_parse_loop tsk skb at (optlen - 1) True ts_seen)
        else if kind = [8]
        then sq (tcp_parse_tail tsk sack_seen True)
          (tcp_parse_loop tsk skb at (optlen - 1) sack_seen True)
        else sq (tcp_parse_tail tsk sack_seen ts_seen)
          (tcp_parse_loop tsk skb at (optlen - 1) sack_seen ts_seen))
      else skip)"
  by pat_completeness auto

text \<open>
  The loop ends: one step takes 1 or 4 from the length, and a length that wraps around is
  beyond 20, where the loop stops.
\<close>

definition opts_left :: "u8 \<Rightarrow> nat" where
  "opts_left n = (if n < 20 then unat n else 0)"

lemma opts_left_dec:
  assumes "0 < n" and "n < 20"
  shows "opts_left (n - 1) < opts_left n" and "opts_left (n - 4) < opts_left n"
proof -
  have n: "0 < unat n" "unat n < 20" using assms by (simp_all add: word_less_nat_alt)
  have one: "unat (n - 1) = unat n - 1" using assms(1) by (simp add: unat_minus_one)
  have four: "unat (n - 4) = (if 4 \<le> unat n then unat n - 4 else 252 + unat n)"
    by (simp add: unat_sub_if')
  from n one show "opts_left (n - 1) < opts_left n"
    by (simp add: opts_left_def word_less_nat_alt)
  from n four show "opts_left (n - 4) < opts_left n"
    by (simp add: opts_left_def word_less_nat_alt split: if_splits)
qed

termination tcp_parse_loop
  by (relation "measure (\<lambda>(tsk, skb, at, n, s, t). opts_left n)") (auto simp: opts_left_dec)

declare tcp_parse_loop.simps [simp del]

definition tcp_parse_opts :: "ptr \<Rightarrow> ptr \<Rightarrow> ('w tcp_world_scheme, int) M" where
  "tcp_parse_opts tsk skb = bnd (read_hdr skb) (\<lambda>h.
     sq (tcp_parse_loop tsk skb tcp_opts_at (of_nat (tcp_hlen h) - 20) False False) (ret 0))"

section \<open>The retransmission queue\<close>

partial_function (option) tcp_clean_rto_loop :: "ptr \<Rightarrow> u32 \<Rightarrow> ('w tcp_world_scheme, ptr) M" where
  "tcp_clean_rto_loop sk una w =
     bnd (load socks sk) (\<lambda>k. bnd (queue_first_entry (write_queue k)) (\<lambda>skb.
       if skb = null then ret skb
       else bnd (load skbs skb) (\<lambda>s.
         if 0 < seq s \<and> end_seq s \<le> una
         then sq (dequeue (write_queue k)) (sq (skb_put skb)
           (sq (upd_tsk sk (\<lambda>t. t\<lparr>inflight := max 0 (inflight t - 1)\<rparr>))
             (tcp_clean_rto_loop sk una)))
         else ret skb))) w"

declare tcp_clean_rto_loop.simps [code]

definition tcp_clean_rto_queue :: "ptr \<Rightarrow> u32 \<Rightarrow> ('w tcp_world_scheme, int) M" where
  "tcp_clean_rto_queue sk una = bnd (tcp_clean_rto_loop sk una) (\<lambda>skb. bnd (load tsks sk) (\<lambda>t.
     sq (onlyif (skb = null \<or> inflight t = 0) (tcp_stop_rto_timer sk)) (ret 0)))"

section \<open>Acceptance, resets, the first states\<close>

definition tcp_drop :: "ptr \<Rightarrow> ('w tcp_world_scheme, int) M" where
  "tcp_drop skb = sq (free_skb skb) (ret 0)"

definition tcp_verify_segment :: "ptr \<Rightarrow> ptr \<Rightarrow> ('w tcp_world_scheme, int) M" where
  "tcp_verify_segment tsk skb = bnd (get_tcb tsk) (\<lambda>b. bnd (load skbs skb) (\<lambda>s.
     if 0 < data_len s \<and> rcv_wnd b = 0 then ret 0
     else bnd (read_hdr skb) (\<lambda>h.
       if th_seq h < rcv_nxt b \<or> rcv_nxt b + rcv_wnd b < th_seq h then ret 0 else ret 1)))"

definition tcp_reset :: "ptr \<Rightarrow> ('w tcp_world_scheme, unit) M" where
  "tcp_reset sk = sq (upd_sk sk (\<lambda>k. k\<lparr>poll_events := POLLOUT OR POLLWRNORM OR POLLERR OR POLLHUP\<rparr>))
     (bnd (load socks sk) (\<lambda>k. case sk_state k of
         TCP_CLOSE \<Rightarrow> skip
       | TCP_SYN_SENT \<Rightarrow> sq (upd_sk sk (\<lambda>k. k\<lparr>sk_err := - ECONNREFUSED\<rparr>)) (sq (tcp_done sk) skip)
       | TCP_CLOSE_WAIT \<Rightarrow> sq (upd_sk sk (\<lambda>k. k\<lparr>sk_err := - EPIPE\<rparr>)) (sq (tcp_done sk) skip)
       | _ \<Rightarrow> sq (upd_sk sk (\<lambda>k. k\<lparr>sk_err := - ECONNRESET\<rparr>)) (sq (tcp_done sk) skip)))"

definition tcp_discard :: "ptr \<Rightarrow> ('w tcp_world_scheme, int) M" where
  "tcp_discard skb = sq (free_skb skb) (ret 0)"

definition tcp_listen :: "ptr \<Rightarrow> ('w tcp_world_scheme, int) M" where
  "tcp_listen skb = sq (free_skb skb) (ret 0)"

text \<open>
  The two tests of the acknowledgement number in SYN-SENT only print, so a segment with
  ACK set is dropped whatever it acknowledges.
\<close>

definition tcp_synsent :: "'w ip_out \<Rightarrow> ptr \<Rightarrow> ptr \<Rightarrow> ('w tcp_world_scheme, int) M" where
  "tcp_synsent ipo tsk skb = bnd (read_hdr skb) (\<lambda>h.
     if th_ack h then sq (tcp_drop skb) (ret 0)
     else if th_rst h then sq (tcp_reset tsk) (sq (tcp_drop skb) (ret 0))
     else if \<not> th_syn h then sq (tcp_drop skb) (ret 0)
     else sq (upd_tcb tsk (\<lambda>b. b\<lparr>rcv_nxt := th_seq h + 1, irs := th_seq h\<rparr>))
       (sq (if th_ack h
         then sq (upd_tcb tsk (\<lambda>b. b\<lparr>snd_una := th_ack_seq h\<rparr>))
           (bnd (get_tcb tsk) (\<lambda>b. sq (tcp_clean_rto_queue tsk (snd_una b)) skip))
         else skip)
       (bnd (get_tcb tsk) (\<lambda>b.
         sq (if iss b < snd_una b
           then sq (tcp_set_state tsk TCP_ESTABLISHED)
             (sq (upd_tcb tsk (\<lambda>b. b\<lparr>snd_una := snd_nxt b\<rparr>))
             (sq (upd_tsk tsk (\<lambda>t. t\<lparr>backoff := 0, rto := 1000\<rparr>))
             (sq (tcp_send_ack ipo tsk)
             (sq (tcp_rearm_user_timeout tsk)
             (sq (tcp_parse_opts tsk skb)
               (sock_connected tsk))))))
           else sq (tcp_set_state tsk TCP_SYN_RECEIVED)
             (sq (upd_tcb tsk (\<lambda>b. b\<lparr>snd_una := iss b\<rparr>))
             (sq (tcp_send_synsack ipo tsk) skip)))
         (sq (tcp_drop skb) (ret 0))))))"

definition tcp_closed :: "'w ip_out \<Rightarrow> ptr \<Rightarrow> ptr \<Rightarrow> ('w tcp_world_scheme, int) M" where
  "tcp_closed ipo tsk skb = bnd (read_hdr skb) (\<lambda>h.
     if th_rst h then sq (tcp_discard skb) (ret 0)
     else bnd (tcp_send_reset ipo tsk) (\<lambda>rc. sq (free_skb skb) (ret rc)))"

section \<open>Segment arrival\<close>

text \<open>
  The parts of \<open>tcp_input_state\<close>, in its order; a part that may return from the function
  gives \<open>Some\<close> of the value it returns.
\<close>

definition input_ack :: "ptr \<Rightarrow> ptr \<Rightarrow> ('w tcp_world_scheme, int option) M" where
  "input_ack sk skb = bnd (read_hdr skb) (\<lambda>h. bnd (get_tcb sk) (\<lambda>b.
     sq (if snd_una b < th_ack_seq h \<and> th_ack_seq h < snd_nxt b
       then sq (upd_tcb sk (\<lambda>b. b\<lparr>snd_una := th_ack_seq h\<rparr>)) (sq (tcp_rtt sk)
         (bnd (get_tcb sk) (\<lambda>b. sq (tcp_clean_rto_queue sk (snd_una b)) skip)))
       else skip)
     (bnd (get_tcb sk) (\<lambda>b.
       if th_ack_seq h < snd_una b \<or> snd_nxt b < th_ack_seq h
       then bnd (tcp_drop skb) (\<lambda>r. ret (Some r)) else ret None))))"

definition input_states :: "ptr \<Rightarrow> ptr \<Rightarrow> ('w tcp_world_scheme, int option) M" where
  "input_states sk skb = bnd (load socks sk) (\<lambda>k. case sk_state k of
       TCP_SYN_RECEIVED \<Rightarrow> bnd (read_hdr skb) (\<lambda>h. bnd (get_tcb sk) (\<lambda>b.
         if snd_una b \<le> th_ack_seq h \<and> th_ack_seq h < snd_nxt b
         then sq (tcp_set_state sk TCP_ESTABLISHED) (input_ack sk skb)
         else bnd (tcp_drop skb) (\<lambda>r. ret (Some r))))
     | TCP_ESTABLISHED \<Rightarrow> input_ack sk skb
     | TCP_FIN_WAIT_1 \<Rightarrow> input_ack sk skb
     | TCP_CLOSE_WAIT \<Rightarrow> input_ack sk skb
     | TCP_CLOSING \<Rightarrow> input_ack sk skb
     | TCP_LAST_ACK \<Rightarrow> input_ack sk skb
     | _ \<Rightarrow> ret None)"

definition input_acked :: "'w ip_out \<Rightarrow> ptr \<Rightarrow> ptr \<Rightarrow> ('w tcp_world_scheme, int option) M" where
  "input_acked ipo sk skb = bnd (load socks sk) (\<lambda>k. bnd (isEmpty (write_queue k)) (\<lambda>e.
     if \<not> e then ret None
     else case sk_state k of
       TCP_FIN_WAIT_1 \<Rightarrow> sq (tcp_set_state sk TCP_FIN_WAIT_2) (ret None)
     | TCP_CLOSING \<Rightarrow> sq (tcp_set_state sk TCP_TIME_WAIT) (ret None)
     | TCP_LAST_ACK \<Rightarrow> sq (free_skb skb) (bnd (tcp_done sk) (\<lambda>r. ret (Some r)))
     | TCP_TIME_WAIT \<Rightarrow> bnd (get_tcb sk) (\<lambda>b. bnd (read_hdr skb) (\<lambda>h.
         sq (onlyif (rcv_nxt b = th_seq h)
              (sq (upd_tsk sk (\<lambda>t. t\<lparr>tflags := tflags t OR TCP_FIN\<rparr>))
                (sq (tcp_send_ack ipo sk) skip)))
           (ret None)))
     | _ \<Rightarrow> ret None))"

definition input_text :: "'w ip_out \<Rightarrow> ptr \<Rightarrow> ptr \<Rightarrow> ('w tcp_world_scheme, unit) M" where
  "input_text ipo sk skb = bnd (load socks sk) (\<lambda>k.
     onlyif (sk_state k \<in> {TCP_ESTABLISHED, TCP_FIN_WAIT_1, TCP_FIN_WAIT_2})
       (bnd (read_hdr skb) (\<lambda>h. bnd (load skbs skb) (\<lambda>s.
         onlyif (th_psh h \<or> 0 < data_len s) (sq (tcp_data_queue ipo sk skb) skip)))))"

definition input_fin :: "'w ip_out \<Rightarrow> ptr \<Rightarrow> ptr \<Rightarrow> bool \<Rightarrow> ('w tcp_world_scheme, int option) M" where
  "input_fin ipo sk skb expected = bnd (read_hdr skb) (\<lambda>h.
     if \<not> (th_fin h \<and> expected) then ret None
     else bnd (load socks sk) (\<lambda>k.
       if sk_state k \<in> {TCP_CLOSE, TCP_LISTEN, TCP_SYN_SENT}
       then sq (tcp_drop skb) (ret (Some 0))
       else sq (upd_tcb sk (\<lambda>b. b\<lparr>rcv_nxt := rcv_nxt b + 1\<rparr>))
         (sq (upd_tsk sk (\<lambda>t. t\<lparr>tflags := tflags t OR TCP_FIN\<rparr>))
         (sq (upd_sk sk (\<lambda>k. k\<lparr>poll_events := poll_events k OR
               (POLLIN OR POLLPRI OR POLLRDNORM OR POLLRDBAND)\<rparr>))
         (sq (tcp_send_ack ipo sk)
         (sq (tcp_recv_notify sk)
         (bnd (load socks sk) (\<lambda>k. sq (case sk_state k of
             TCP_ESTABLISHED \<Rightarrow> tcp_set_state sk TCP_CLOSE_WAIT
           | TCP_SYN_RECEIVED \<Rightarrow> tcp_set_state sk TCP_CLOSE_WAIT
           | TCP_FIN_WAIT_1 \<Rightarrow> bnd (isEmpty (write_queue k)) (\<lambda>e.
               if e then tcp_enter_time_wait sk else tcp_set_state sk TCP_CLOSING)
           | TCP_FIN_WAIT_2 \<Rightarrow> tcp_enter_time_wait sk
           | _ \<Rightarrow> skip) (ret None)))))))))"

definition input_delack :: "'w ip_out \<Rightarrow> ptr \<Rightarrow> ptr \<Rightarrow> ('w tcp_world_scheme, unit) M" where
  "input_delack ipo sk skb = sq (tcp_stop_delack_timer sk)
     (bnd (load socks sk) (\<lambda>k. bnd (queue_size (write_queue k)) (\<lambda>n. bnd (ret (min n 3)) (\<lambda>pending.
     bnd (load tsks sk) (\<lambda>t.
       if inflight t = 0 \<and> 0 < pending
       then sq (tcp_send_next ipo sk pending)
         (sq (upd_tsk sk (\<lambda>t. t\<lparr>inflight := inflight t + word_of_int pending\<rparr>))
           (tcp_rearm_rto_timer sk))
       else bnd (read_hdr skb) (\<lambda>h. bnd (load skbs skb) (\<lambda>s.
         bnd (if th_psh h then ret True
           else if 1000 < data_len s
           then sq (upd_tsk sk (\<lambda>t. t\<lparr>delacks := delacks t + 1\<rparr>))
             (bnd (load tsks sk) (\<lambda>t. ret (1 < delacks t)))
           else ret False) (\<lambda>now.
         if now then sq (upd_tsk sk (\<lambda>t. t\<lparr>delack := null\<rparr>)) (sq (tcp_send_ack ipo sk) skip)
         else onlyif (0 < data_len s)
           (bnd (Timer_create 200 (Send_Delack sk) Trackable) (\<lambda>p.
             upd_tsk sk (\<lambda>t. t\<lparr>delack := p\<rparr>)))))))))))"

definition tcp_input_state :: "'w ip_out \<Rightarrow> ptr \<Rightarrow> ptr \<Rightarrow> ('w tcp_world_scheme, int) M" where
  "tcp_input_state ipo sk skb = bnd (load socks sk) (\<lambda>k.
     if sk_state k = TCP_CLOSE then tcp_closed ipo sk skb
     else if sk_state k = TCP_LISTEN then tcp_listen skb
     else if sk_state k = TCP_SYN_SENT then tcp_synsent ipo sk skb
     else bnd (tcp_verify_segment sk skb) (\<lambda>ok. bnd (read_hdr skb) (\<lambda>h.
       if ok = 0 then sq (onlyif (\<not> th_rst h) (sq (tcp_send_ack ipo sk) skip)) (tcp_drop skb)
       else if th_rst h
       then sq (free_skb skb) (sq (tcp_enter_time_wait sk) (sq (tcp_recv_notify sk) (ret 0)))
       else if th_syn h then sq (tcp_send_challenge_ack sk skb) (tcp_drop skb)
       else if \<not> th_ack h then tcp_drop skb
       else unless_returned (input_states sk skb) (unless_returned (input_acked ipo sk skb)
         (bnd (load skbs skb) (\<lambda>s. bnd (get_tcb sk) (\<lambda>b. bnd (ret (seq s = rcv_nxt b)) (\<lambda>expected.
           sq (input_text ipo sk skb)
           (unless_returned (input_fin ipo sk skb expected)
             (bnd (load socks sk) (\<lambda>k.
               sq (onlyif (sk_state k \<in> {TCP_ESTABLISHED, TCP_FIN_WAIT_1, TCP_FIN_WAIT_2} \<and> expected)
                    (input_delack ipo sk skb))
                 (sq (free_skb skb) (ret 0)))))))))))))"

section \<open>The receive loop\<close>

text \<open>
  Waiting takes the mutex of the condition first and then once more inside \<open>sleep\<close>: the
  thread waits for itself. What comes after the wait is not reached.
\<close>

definition tcp_receive_wait :: "ptr \<Rightarrow> ('w tcp_world_scheme, unit) M" where
  "tcp_receive_wait so = sq (socket_release so) (fail Deadlock)"

partial_function (option) tcp_receive_loop ::
    "ptr \<Rightarrow> int \<Rightarrow> int \<Rightarrow> u8 list \<Rightarrow> ('w tcp_world_scheme, int \<times> u8 list) M" where
  "tcp_receive_loop tsk n rlen out w =
     (if n \<le> rlen then Ok (rlen, out) w
      else bnd (tcp_data_dequeue tsk (n - rlen)) (\<lambda>(cur, bs). bnd (load tsks tsk) (\<lambda>t.
        if tflags t AND TCP_PSH \<noteq> 0
        then sq (upd_tsk tsk (\<lambda>t. t\<lparr>tflags := tflags t AND NOT TCP_PSH\<rparr>)) (ret (rlen + cur, out @ bs))
        else if tflags t AND TCP_FIN \<noteq> 0 \<or> rlen + cur = n then ret (rlen + cur, out @ bs)
        else bnd (load socks tsk) (\<lambda>k. bnd (load sockets (sk_socket k)) (\<lambda>so.
          if so_flags so AND 0x800 \<noteq> 0
          then ret (if rlen + cur = 0 then - EAGAIN else rlen + cur, out @ bs)
          else sq (tcp_receive_wait (sk_socket k))
            (tcp_receive_loop tsk n (rlen + cur) (out @ bs)))))) w)"

declare tcp_receive_loop.simps [code]

definition tcp_receive :: "ptr \<Rightarrow> int \<Rightarrow> ('w tcp_world_scheme, int \<times> u8 list) M" where
  "tcp_receive tsk n = bnd (tcp_receive_loop tsk n 0 []) (\<lambda>(rlen, out).
     sq (onlyif (0 \<le> rlen) (tcp_rearm_user_timeout tsk)) (ret (rlen, out)))"

end
