(* ===== verification/Tcp_Facts.thy ===== *)
theory Tcp_Facts
  imports Tcp_Input
begin

text \<open>
  What receiving does: the delivery of stream bytes to the user, the ordered insertion of
  out-of-order segments, the retransmission queue's cleaning, the options of a segment and
  the window check.
\<close>

unbundle bit_operations_syntax

section \<open>Delivery\<close>

text \<open>\<open>holds w x bs\<close>: the buffer \<open>x\<close> still has the text \<open>bs\<close> to deliver.\<close>

definition text_of :: "skbuff \<Rightarrow> u8 list \<Rightarrow> bool" where
  "text_of s bs \<longleftrightarrow> (case payload s of None \<Rightarrow> False | Some at \<Rightarrow> in_buf s at (length bs)
     \<and> take (length bs) (drop (nat at) (buf s)) = bs) \<and> data_len s = of_nat (length bs)
     \<and> room_for_hdr s \<and> putable (Some s)"

definition holds :: "'w skb_world_scheme \<Rightarrow> ptr \<Rightarrow> u8 list \<Rightarrow> bool" where
  "holds w x bs \<longleftrightarrow> (case skbs w x of None \<Rightarrow> False | Some s \<Rightarrow> text_of s bs)"

lemma holdsE:
  assumes "holds w x bs"
  obtains s at where "skbs w x = Some s" "payload s = Some at" "text_of s bs"
  using assms by (auto simp: holds_def text_of_def split: option.splits)

lemma text_of_drop:
  assumes "text_of s bs" and "payload s = Some at" and "n \<le> length bs"
  shows "text_of (s\<lparr>data_len := data_len s - of_nat n, payload := Some (at + int n)\<rparr>) (drop n bs)"
    and "in_buf s at n" and "take n (drop (nat at) (buf s)) = take n bs" and "0 \<le> at"
proof -
  have b: "in_buf s at (length bs)" "take (length bs) (drop (nat at) (buf s)) = bs"
    using assms(1,2) by (simp_all add: text_of_def)
  then show "0 \<le> at" "in_buf s at n" using assms(3) by (auto simp: in_buf_def)
  show tk: "take n (drop (nat at) (buf s)) = take n bs"
    using assms(3) by (subst b(2) [symmetric]) simp
  have "take (length bs - n) (drop (nat (at + int n)) (buf s)) = drop n bs"
    using \<open>0 \<le> at\<close> by (subst (2) b(2) [symmetric]) (simp add: drop_take nat_add_distrib add.commute)
  then show "text_of (s\<lparr>data_len := data_len s - of_nat n, payload := Some (at + int n)\<rparr>) (drop n bs)"
    using assms b \<open>0 \<le> at\<close> by (auto simp: text_of_def in_buf_def putable_def of_nat_diff)
qed

lemma data_len_int:
  assumes "text_of s bs" and "length bs < 2 ^ 31"
  shows "sint (data_len s) = int (length bs)"
  using assms by (simp add: text_of_def signed_of_nat signed_take_bit_int_eq_self)

lemma wire_sum:
  assumes "text_of s bs" and "0 \<le> r" and "r + int (length bs) < 2 ^ 31"
  shows "sint (word_of_int r + data_len s) = r + int (length bs)"
proof -
  have "word_of_int r + data_len s = (word_of_int (r + int (length bs)) :: u32)"
    using assms(1) by (simp add: text_of_def)
  moreover have "sint (word_of_int (r + int (length bs)) :: u32) = r + int (length bs)"
    using assms(2,3) by (subst signed_of_int) (simp add: signed_take_bit_int_eq_self)
  ultimately show ?thesis by simp
qed

definition all_text :: "(ptr \<Rightarrow> u8 list) \<Rightarrow> ptr list \<Rightarrow> u8 list" where
  "all_text T xs = concat (map T xs)"

lemma all_text_simps [simp]: "all_text T [] = []" "all_text T (x # xs) = T x @ all_text T xs"
  by (simp_all add: all_text_def)

lemma all_text_cong: "(\<And>x. x \<in> set xs \<Longrightarrow> T x = U x) \<Longrightarrow> all_text T xs = all_text U xs"
  by (simp add: all_text_def cong: map_cong)

text \<open>
  \<open>stream w tsk T xs\<close>: the receive queue of the connection holds the segments \<open>xs\<close>, whose
  texts are \<open>T\<close>.
\<close>

definition stream :: "'w tcp_world_scheme \<Rightarrow> ptr \<Rightarrow> ptr \<Rightarrow> (ptr \<Rightarrow> u8 list) \<Rightarrow> ptr list \<Rightarrow> bool" where
  "stream w tsk q T xs \<longleftrightarrow> tsk \<noteq> null \<and> tsks w tsk \<noteq> None
     \<and> map_option receive_queue (socks w tsk) = Some q \<and> qrep w q xs \<and> (\<forall>x \<in> set xs. holds w x (T x))"

text \<open>The first buffer of a queue is taken off and one reference too many released.\<close>

lemma release_first:
  assumes rep: "qrep w q (x # xs)" and s: "skbs w x = Some s" "putable (Some s)"
  shows "\<exists>w' :: 'w tcp_world_scheme. sq (dequeue q) (skb_put x) w = Ok () w' \<and> qrep w' q xs
    \<and> skbs w' = (skbs w)(x := put_skb (Some s)) \<and> tsks w' = tsks w \<and> socks w' = socks w \<and> timers w' = timers w"
proof -
  have x: "x \<noteq> null" "x \<notin> set (q # xs)" using rep by (auto simp: qrep_def)
  from dequeue_run [OF rep] obtain w1 where
    w1: "dequeue q w = Ok x w1" "qrep w1 q xs" "touches q (set (x # xs)) w w1" by blast
  have "skbs w1 x = Some s" using s(1) touches_skbs(1) [OF w1(3)] by simp
  from skb_put_effect [OF x(1) this s(2)] obtain w2 where
    w2: "skb_put x w1 = Ok () w2" "skbs w2 = (skbs w1)(x := put_skb (Some s))" by blast
  have "outside_skbs w2 = outside_skbs w"
    using keepsD [OF keeps_skb_ops(11) w2(1)] touches_skbs(3) [OF w1(3)] by (simp add: same_def)
  then have "f (outside_skbs w2) = f (outside_skbs w)" for f :: "'w tcp_world_scheme \<Rightarrow> 'b" by simp
  from this [of tsks] this [of socks] this [of timers]
  have "tsks w2 = tsks w" "socks w2 = socks w" "timers w2 = timers w" by (simp_all add: outside_skbs_def)
  moreover have "qrep w2 q xs"
    by (rule skb_put_keeps_queue [OF x(1) \<open>skbs w1 x = Some s\<close> w2(1) w1(2)]) (use x in auto)
  ultimately show ?thesis
    using w1(1) w2 touches_skbs(1) [OF w1(3)] by (simp add: bnd_run)
qed

text \<open>A whole segment is taken off the queue and released.\<close>

lemma consume_segment:
  assumes st: "stream w tsk q T (x # xs)" and s_ok: "room_for_hdr s" "putable (Some s)"
  shows "\<exists>w'. bnd (read_hdr x) (\<lambda>h. sq (onlyif (th_psh h) (upd_tsk tsk (\<lambda>t. t\<lparr>tflags := tflags t OR TCP_PSH\<rparr>)))
        (sq (dequeue q) (skb_put x))) (w\<lparr>skbs := (skbs w)(x \<mapsto> s)\<rparr>) = Ok () w' \<and> stream w' tsk q T xs"
proof -
  let ?w1 = "w\<lparr>skbs := (skbs w)(x \<mapsto> s)\<rparr>"
  have x: "x \<noteq> null" "x \<notin> set (q # xs)" and rep: "qrep w q (x # xs)"
    using st by (auto simp: stream_def qrep_def)
  obtain t where t: "tsks w tsk = Some t" "tsk \<noteq> null" using st by (auto simp: stream_def)
  let ?w2 = "?w1\<lparr>tsks := (tsks w)(tsk \<mapsto> if th_psh (skb_hdr s) then t\<lparr>tflags := tflags t OR TCP_PSH\<rparr> else t)\<rparr>"
  have flag: "onlyif (th_psh (skb_hdr s)) (upd_tsk tsk (\<lambda>t. t\<lparr>tflags := tflags t OR TCP_PSH\<rparr>)) ?w1 = Ok () ?w2"
    using t by (simp add: run fun_upd_idem)
  have "qrep ?w2 q (x # xs)" "skbs ?w2 x = Some s" using rep by simp_all
  from release_first [OF this s_ok(2)] obtain w4 where
    w4: "sq (dequeue q) (skb_put x) ?w2 = Ok () w4" "qrep w4 q xs" "skbs w4 = (skbs ?w2)(x := put_skb (Some s))"
      "tsks w4 = tsks ?w2" "socks w4 = socks ?w2" "timers w4 = timers ?w2" by (elim exE conjE)
  have "holds w4 y (T y)" if "y \<in> set xs" for y
  proof -
    have "skbs w4 y = skbs w y" using w4(3) x(2) that by auto
    then show ?thesis using st that by (simp add: stream_def holds_def)
  qed
  then have "stream w4 tsk q T xs" using st t w4(2,4,5) by (simp add: stream_def)
  moreover have "bnd (read_hdr x) (\<lambda>h. sq (onlyif (th_psh h) (upd_tsk tsk (\<lambda>t. t\<lparr>tflags := tflags t OR TCP_PSH\<rparr>)))
        (sq (dequeue q) (skb_put x))) ?w1 = Ok () w4"
    using x(1) s_ok flag w4(1) by (simp add: bnd_run read_hdr_run)
  ultimately show ?thesis by (intro exI conjI)
qed

text \<open>
  The segment at the front: its part that fits is copied, and the loop goes on with a buffer
  that holds the rest of the text.
\<close>

abbreviation drop_segment :: "ptr \<Rightarrow> ptr \<Rightarrow> ptr \<Rightarrow> ('w tcp_world_scheme, unit) M" where
  "drop_segment tsk q x \<equiv> bnd (read_hdr x) (\<lambda>h. sq (onlyif (th_psh h) (upd_tsk tsk (\<lambda>t. t\<lparr>tflags := tflags t OR TCP_PSH\<rparr>)))
     (sq (dequeue q) (skb_put x)))"

lemma dequeue_first:
  assumes st: "stream w tsk q T (x # xs)" and n: "0 \<le> rlen" "rlen < n" "n + int (length (T x)) < 2 ^ 31"
    and m: "m = min (nat (n - rlen)) (length (T x))"
  shows "\<exists>s'. text_of s' (drop m (T x)) \<and> tcp_data_dequeue_loop tsk n rlen out w
    = sq (if data_len s' = 0 then drop_segment tsk q x else skip)
        (tcp_data_dequeue_loop tsk n (rlen + int m) (out @ take m (T x))) (w\<lparr>skbs := (skbs w)(x \<mapsto> s')\<rparr>)"
proof -
  obtain k where k: "tsk \<noteq> null" "socks w tsk = Some k" "receive_queue k = q" and rep: "qrep w q (x # xs)"
    using st by (auto simp: stream_def)
  have x: "x \<noteq> null" using rep by (auto simp: qrep_def)
  have "holds w x (T x)" using st by (simp add: stream_def)
  then obtain s at where s: "skbs w x = Some s" "payload s = Some at" "text_of s (T x)" by (rule holdsE)
  have "sint (data_len s) = int (length (T x))" "sint (word_of_int rlen + data_len s) = rlen + int (length (T x))"
    using data_len_int [OF s(3)] wire_sum [OF s(3) n(1)] n by auto
  then have dlen: "(if n < sint (word_of_int rlen + data_len s) then n - rlen else sint (data_len s)) = int m"
    using n by (auto simp: m)
  note cut = text_of_drop [OF s(3,2), of m, unfolded m, simplified, folded m]
  define s' where "s' = s\<lparr>data_len := data_len s - of_nat m, payload := Some (at + int m)\<rparr>"
  let ?w1 = "w\<lparr>skbs := (skbs w)(x \<mapsto> s')\<rparr>"
  have read: "read_buf x at m w = Ok (take m (T x)) w"
    using x s(1) cut(2,3) by (simp add: read_buf_run)
  have step: "upd_skb x (\<lambda>s. s\<lparr>data_len := data_len s - word_of_int (int m),
      payload := map_option (\<lambda>at. at + int m) (payload s)\<rparr>) w = Ok () ?w1"
    using x s(1,2) by (simp add: upd_skb_run s'_def)
  have "tcp_data_dequeue_loop tsk n rlen out w = sq (if data_len s' = 0 then drop_segment tsk q x else skip)
      (tcp_data_dequeue_loop tsk n (rlen + int m) (out @ take m (T x))) ?w1"
    using k rep x s(1,2) n(2) dlen read step
    by (subst tcp_data_dequeue_loop.simps)
      (simp add: bnd_run load_run isEmpty_run queue_first_entry_run run_basic del: of_int_of_nat_eq)
  then show ?thesis using cut(1) by (auto simp: s'_def)
qed

text \<open>Either all of the segment is copied, and it leaves the queue, or the user's buffer is full.\<close>

lemma dequeue_whole:
  assumes "stream w tsk q T (x # xs)" and "0 \<le> rlen" "rlen < n" "n + int (length (T x)) < 2 ^ 31"
    and fits: "length (T x) \<le> nat (n - rlen)"
  shows "\<exists>w'. tcp_data_dequeue_loop tsk n rlen out w
      = tcp_data_dequeue_loop tsk n (rlen + int (length (T x))) (out @ T x) w' \<and> stream w' tsk q T xs"
proof -
  have "length (T x) = min (nat (n - rlen)) (length (T x))" using fits by simp
  from dequeue_first [OF assms(1-4) this, of out] obtain s' where s': "text_of s' []"
    and go: "tcp_data_dequeue_loop tsk n rlen out w = sq (if data_len s' = 0 then drop_segment tsk q x else skip)
      (tcp_data_dequeue_loop tsk n (rlen + int (length (T x))) (out @ T x)) (w\<lparr>skbs := (skbs w)(x \<mapsto> s')\<rparr>)" by auto
  from s' have ok: "data_len s' = 0" "room_for_hdr s'" "putable (Some s')" by (simp_all add: text_of_def)
  from consume_segment [OF assms(1) ok(2,3)] obtain w' where
    "drop_segment tsk q x (w\<lparr>skbs := (skbs w)(x \<mapsto> s')\<rparr>) = Ok () w'" "stream w' tsk q T xs" by (elim exE conjE)
  then show ?thesis unfolding go using ok(1) by (subst bnd_run) auto
qed

lemma dequeue_part:
  assumes st: "stream w tsk q T (x # xs)" and n: "0 \<le> rlen" "rlen < n" "n + int (length (T x)) < 2 ^ 31"
    and full: "m = nat (n - rlen)" "m < length (T x)"
  shows "\<exists>w'. tcp_data_dequeue_loop tsk n rlen out w = Ok (n, out @ take m (T x)) w'
    \<and> stream w' tsk q (T(x := drop m (T x))) (x # xs)"
proof -
  obtain k where k: "tsk \<noteq> null" "socks w tsk = Some k" "receive_queue k = q" and rep: "qrep w q (x # xs)"
    using st by (auto simp: stream_def)
  have x: "x \<noteq> null" "x \<notin> set xs" using rep by (auto simp: qrep_def)
  have "m = min (nat (n - rlen)) (length (T x))" using full by simp
  from dequeue_first [OF st n this, of out] obtain s' where s': "text_of s' (drop m (T x))"
    and go: "tcp_data_dequeue_loop tsk n rlen out w = sq (if data_len s' = 0 then drop_segment tsk q x else skip)
      (tcp_data_dequeue_loop tsk n (rlen + int m) (out @ take m (T x))) (w\<lparr>skbs := (skbs w)(x \<mapsto> s')\<rparr>)" by blast
  let ?w1 = "w\<lparr>skbs := (skbs w)(x \<mapsto> s')\<rparr>"
  have "length (T x) < 2 ^ 31" using n by simp
  then have "data_len s' \<noteq> 0"
    using s' full(2) by (simp add: text_of_def word_of_nat_eq_iff take_bit_nat_eq_self)
  moreover have "tcp_data_dequeue_loop tsk n n o' ?w1 = Ok (n, o') ?w1" for o'
    using k rep x(1) by (subst tcp_data_dequeue_loop.simps) (simp add: run isEmpty_run)
  moreover have "rlen + int m = n" using full n by simp
  ultimately have "tcp_data_dequeue_loop tsk n rlen out w = Ok (n, out @ take m (T x)) ?w1"
    using go by (simp add: bnd_run run_basic)
  moreover have "stream ?w1 tsk q (T(x := drop m (T x))) (x # xs)"
    using st x(2) s' by (auto simp: stream_def holds_def)
  ultimately show ?thesis by blast
qed

lemma tcp_data_dequeue_loop_run:
  assumes "stream w tsk q T xs" and "0 \<le> rlen" and "rlen \<le> n"
    and "\<forall>x \<in> set xs. n + int (length (T x)) < 2 ^ 31"
  shows "\<exists>w' ys U. tcp_data_dequeue_loop tsk n rlen out w
      = Ok (rlen + min (n - rlen) (int (length (all_text T xs))), out @ take (nat (n - rlen)) (all_text T xs)) w'
    \<and> stream w' tsk q U ys \<and> all_text U ys = drop (nat (n - rlen)) (all_text T xs)"
  using assms
proof (induction xs arbitrary: w rlen out)
  case Nil
  then obtain k where "tsk \<noteq> null" "socks w tsk = Some k" "receive_queue k = q" "qrep w q []"
    by (auto simp: stream_def)
  with Nil show ?case
    by (subst tcp_data_dequeue_loop.simps) (auto simp: run isEmpty_run intro!: exI [of _ T] exI [of _ "[]"])
next
  case (Cons x xs)
  let ?l = "length (T x)" and ?r = "nat (n - rlen)"
  have lt: "n + int ?l < 2 ^ 31" using Cons.prems(4) by simp
  consider "rlen = n" | "rlen < n" "?l \<le> ?r" | "rlen < n" "?r < ?l" using Cons.prems(3) by linarith
  then show ?case
  proof cases
    case 1
    obtain k where "tsk \<noteq> null" "socks w tsk = Some k" "receive_queue k = q" "qrep w q (x # xs)"
      using Cons.prems(1) by (auto simp: stream_def)
    with 1 Cons.prems(1) show ?thesis
      by (subst tcp_data_dequeue_loop.simps)
        (auto simp: run isEmpty_run intro!: exI [of _ T] exI [of _ "x # xs"])
  next
    case 2
    from dequeue_whole [OF Cons.prems(1,2) 2(1) lt 2(2)] obtain v where
      v: "tcp_data_dequeue_loop tsk n rlen out w = tcp_data_dequeue_loop tsk n (rlen + int ?l) (out @ T x) v"
        "stream v tsk q T xs" by blast
    have "0 \<le> rlen + int ?l" "rlen + int ?l \<le> n" using 2 Cons.prems(2) by auto
    from Cons.IH [OF v(2) this, of "out @ T x"] Cons.prems(4) obtain w' ys U where
      "tcp_data_dequeue_loop tsk n (rlen + int ?l) (out @ T x) v = Ok (rlen + int ?l + min (n - (rlen + int ?l))
        (int (length (all_text T xs))), (out @ T x) @ take (nat (n - (rlen + int ?l))) (all_text T xs)) w'"
      "stream w' tsk q U ys" "all_text U ys = drop (nat (n - (rlen + int ?l))) (all_text T xs)" by auto
    moreover have "nat (n - (rlen + int ?l)) = ?r - ?l" using 2 by simp
    moreover have "rlen + int ?l + min (n - (rlen + int ?l)) (int (length (all_text T xs)))
        = rlen + min (n - rlen) (int (length (all_text T (x # xs))))" by simp
    ultimately show ?thesis using v(1) 2 by auto
  next
    case 3
    have x: "x \<notin> set xs" using Cons.prems(1) by (auto simp: stream_def qrep_def)
    from dequeue_part [OF Cons.prems(1,2) 3(1) lt refl 3(2)] obtain w' where
      w': "tcp_data_dequeue_loop tsk n rlen out w = Ok (n, out @ take ?r (T x)) w'"
        "stream w' tsk q (T(x := drop ?r (T x))) (x # xs)" by blast
    have "all_text (T(x := drop ?r (T x))) (x # xs) = drop ?r (all_text T (x # xs))"
      using x 3(2) by (auto intro!: all_text_cong)
    moreover have "take ?r (all_text T (x # xs)) = take ?r (T x)"
        "rlen + min (n - rlen) (int (length (all_text T (x # xs)))) = n"
      using 3 by auto
    ultimately show ?thesis using w' by metis
  qed
qed

text \<open>
  C4. The user gets the bytes of the stream in order: with the segments' texts \<open>T\<close> in the
  receive queue, \<open>tcp_data_dequeue\<close> returns, copies the first \<open>n\<close> bytes of their
  concatenation (or all of it when there are fewer) and answers how many; what it did not
  copy is still in the queue, in order, ready for the next call.
\<close>

theorem tcp_data_dequeue_run:
  assumes "stream w tsk q T xs" and "0 \<le> n" and "\<forall>x \<in> set xs. n + int (length (T x)) < 2 ^ 31"
  shows "\<exists>w' ys U. tcp_data_dequeue tsk n w
      = Ok (min n (int (length (all_text T xs))), take (nat n) (all_text T xs)) w'
    \<and> stream w' tsk q U ys \<and> all_text U ys = drop (nat n) (all_text T xs)"
proof -
  from tcp_data_dequeue_loop_run [OF assms(1), of 0 n "[]"] assms(2,3) obtain w1 ys U where
    loop: "tcp_data_dequeue_loop tsk n 0 [] w
      = Ok (min n (int (length (all_text T xs))), take (nat n) (all_text T xs)) w1"
    and st: "stream w1 tsk q U ys" "all_text U ys = drop (nat n) (all_text T xs)" by auto
  from st(1) obtain k t where k: "tsk \<noteq> null" "socks w1 tsk = Some k" "receive_queue k = q"
      "tsks w1 tsk = Some t" "qrep w1 q ys"
    by (auto simp: stream_def)
  let ?k = "if ys = [] \<and> tflags t AND TCP_FIN = 0 then k\<lparr>poll_events := poll_events k AND NOT POLLIN\<rparr> else k"
  have "tcp_data_dequeue tsk n w = Ok (min n (int (length (all_text T xs))), take (nat n) (all_text T xs))
      (w1\<lparr>socks := (socks w1)(tsk \<mapsto> ?k)\<rparr>)"
    using loop k by (simp add: tcp_data_dequeue_def run isEmpty_run fun_upd_idem)
  moreover have "stream (w1\<lparr>socks := (socks w1)(tsk \<mapsto> ?k)\<rparr>) tsk q U ys"
    using st(1) k by (auto simp: stream_def holds_def)
  ultimately show ?thesis using st(2) by blast
qed

theorem tcp_data_dequeue_run_witness:
  "\<exists>w w'. tcp_data_dequeue 64 3 (w :: tcp_world) = Ok (3, [1, 2, 3]) w'"
proof -
  let ?s = "\<lambda>bs. (SkBuff_init 0 0)\<lparr>data_len := of_nat (length bs), payload := Some 54, buf := replicate 54 0 @ bs\<rparr>"
  let ?T = "(\<lambda>x. [])(128 := [1, 2], 136 := [3, 4 :: u8])"
  let ?w = "put_queue 24 [128, 136] (blank\<lparr>socks := [64 \<mapsto> blank_sk], tsks := [64 \<mapsto> blank_tsk],
    skbs := [128 \<mapsto> ?s [1, 2], 136 \<mapsto> ?s [3, 4]]\<rparr>)"
  have "stream ?w 64 24 ?T [128, 136]"
    by (simp add: stream_def blank_sk_def put_queue_def blank_def qrep_def linked_def nx_def pv_def
        holds_def text_of_def in_buf_def room_for_hdr_def putable_def SkBuff_init_def)
  from tcp_data_dequeue_run [OF this, of 3] have "\<exists>w'. tcp_data_dequeue 64 3 ?w = Ok (3, [1, 2, 3]) w'"
    by auto
  then show ?thesis by blast
qed

section \<open>Acknowledged segments\<close>

definition acked :: "u32 \<Rightarrow> skbuff \<Rightarrow> bool" where
  "acked una s \<longleftrightarrow> 0 < seq s \<and> end_seq s \<le> una"

definition oldest :: "ptr list \<Rightarrow> ptr" where
  "oldest xs = (case xs of [] \<Rightarrow> null | x # _ \<Rightarrow> x)"

lemma tcp_clean_rto_loop_run:
  assumes "sk \<noteq> null" and "socks w sk = Some k" and "tsks w sk = Some t" and "qrep w (write_queue k) xs"
    and "\<forall>x \<in> set xs. skbs w x = Some (S x) \<and> (acked una (S x) \<longrightarrow> putable (Some (S x)))"
  shows "\<exists>w'. tcp_clean_rto_loop sk una w = Ok (oldest (dropWhile (\<lambda>x. acked una (S x)) xs)) w'
    \<and> qrep w' (write_queue k) (dropWhile (\<lambda>x. acked una (S x)) xs)
    \<and> tsks w' = (tsks w)(sk \<mapsto> t\<lparr>inflight := inflight t - of_nat (length (takeWhile (\<lambda>x. acked una (S x)) xs))\<rparr>)
    \<and> socks w' = socks w \<and> timers w' = timers w
    \<and> (\<forall>x \<in> set (dropWhile (\<lambda>x. acked una (S x)) xs). skbs w' x = Some (S x))"
  using assms
proof (induction xs arbitrary: w t)
  case Nil
  then show ?case
    by (subst tcp_clean_rto_loop.simps) (simp add: run queue_first_entry_run oldest_def fun_upd_idem)
next
  case (Cons x xs)
  have x: "x \<noteq> null" "x \<notin> set xs" using Cons.prems(4) by (auto simp: qrep_def)
  have s: "skbs w x = Some (S x)" "acked una (S x) \<Longrightarrow> putable (Some (S x))" using Cons.prems(5) by auto
  show ?case
  proof (cases "acked una (S x)")
    case False
    then show ?thesis
      using Cons.prems x s
      by (subst tcp_clean_rto_loop.simps)
        (simp add: run queue_first_entry_run oldest_def fun_upd_idem acked_def [symmetric])
  next
    case True
    from release_first [OF Cons.prems(4) s(1) s(2) [OF True]] obtain w1 where
      w1: "sq (dequeue (write_queue k)) (skb_put x) w = Ok () w1" "qrep w1 (write_queue k) xs"
        "skbs w1 = (skbs w)(x := put_skb (Some (S x)))" "tsks w1 = tsks w" "socks w1 = socks w"
        "timers w1 = timers w" by (elim exE conjE)
    let ?t = "t\<lparr>inflight := inflight t - 1\<rparr>"
    let ?w2 = "w1\<lparr>tsks := (tsks w)(sk \<mapsto> ?t)\<rparr>"
    have "tcp_clean_rto_loop sk una w = sq (sq (dequeue (write_queue k)) (skb_put x))
        (sq (upd_tsk sk (\<lambda>t. t\<lparr>inflight := max 0 (inflight t - 1)\<rparr>)) (tcp_clean_rto_loop sk una)) w"
      using Cons.prems x s True
      by (subst tcp_clean_rto_loop.simps)
        (simp add: bnd_run load_run queue_first_entry_run acked_def andthen_andthen)
    also have "\<dots> = tcp_clean_rto_loop sk una ?w2"
      using w1 Cons.prems(1,3) by (simp only: bnd_run [of "sq _ _"]) (simp add: bnd_run upd_tsk_run max_def)
    finally have step: "tcp_clean_rto_loop sk una w = tcp_clean_rto_loop sk una ?w2" .
    have "\<forall>y \<in> set xs. skbs ?w2 y = Some (S y) \<and> (acked una (S y) \<longrightarrow> putable (Some (S y)))"
      using w1(3) Cons.prems(5) x(2) by auto
    from Cons.IH [of ?w2 ?t, OF Cons.prems(1) _ _ _ this] w1 Cons.prems(2)
    show ?thesis unfolding step using True by (simp add: diff_diff_eq fun_upd_same del: fun_upd_apply)
  qed
qed

lemma oldest_null: "null \<notin> set xs \<Longrightarrow> oldest xs = null \<longleftrightarrow> xs = []"
  by (cases xs) (auto simp: oldest_def)



section \<open>Out of order\<close>
text \<open>\<open>forward\<close>: what a traversal from the head meets.\<close>

definition forward :: "'w qworld_scheme \<Rightarrow> ptr \<Rightarrow> ptr list \<Rightarrow> bool" where
  "forward w q xs \<longleftrightarrow> successively (\<lambda>a b. nx (nodes w) a = Some b) (q # xs @ [q])"

lemma queue_add_tail_linked:
  assumes rep: "qrep w q (ys @ x # y # zs)"
  shows "\<exists>w'. queue_add_tail q x w = Ok () w' \<and> touches q (set (x # y # zs)) w w' \<and> forward w' q (ys @ [x])
    \<and> queues w' q = Some \<lparr>qlen = of_nat (length ys + length zs + 3), qoffset = 0\<rparr>"
proof -
  let ?l = "last (y # zs)"
  have l: "?l \<in> set (y # zs)" by (rule last_in_set) simp
  obtain h where h: "nodes w q = Some h" "lprev h = last (q # ys @ x # y # zs)" using qrep_head [OF rep] by blast
  have d: "distinct (q # ys @ x # y # zs)" "null \<notin> set (q # ys @ x # y # zs)"
    using rep by (auto simp: qrep_def)
  have "?l \<noteq> null" "?l \<noteq> x" using l d by (metis Un_iff insert_iff list.set(2) set_append) (use l d in auto)
  then have ok: "null \<notin> {q, ?l, q, x}" "x \<noteq> ?l" "x \<noteq> q" using d by auto
  have live: "nodes w ?l \<noteq> None" "nodes w q \<noteq> None" "nodes w x \<noteq> None"
    using qrep_live [OF rep, of ?l] qrep_live [OF rep, of q] qrep_live [OF rep, of x] l by auto
  obtain w' where w': "list_add q x ?l q w = Ok () w'" "touches q {?l, q, x} w w'"
      "nx (nodes w') = (nx (nodes w))(x \<mapsto> q, ?l \<mapsto> x)"
      "queues w' q = Some \<lparr>qlen = of_nat (length (ys @ x # y # zs)) + 1, qoffset = 0\<rparr>"
    using list_add_run [OF ok live qrepD(5) [OF rep]] by (auto simp del: last.simps)
  have "queue_add_tail q x w = Ok () w'"
    using h w'(1) qrepD(1) [OF rep] by (simp add: queue_add_tail_def run)
  moreover have "touches q (set (x # y # zs)) w w'"
    using w'(2) l by (auto simp: touches_def simp del: last.simps)
  moreover have "forward w' q (ys @ [x])"
  proof -
    have "successively (linked (nodes w)) ((q # ys) @ (x # y # zs @ [q]))"
      using rep by (simp add: qrep_def)
    then have "successively (linked (nodes w)) (q # ys)"
      unfolding successively_append_iff by blast
    then have "successively (\<lambda>a b. nx (nodes w') a = Some b) (q # ys)"
      by (rule successively_mono) (use d l w'(3) in \<open>auto simp: linked_def simp del: last.simps\<close>)
    moreover have "last (q # ys) \<in> set (q # ys)" by (rule last_in_set) simp
    then have "nx (nodes w') (last (q # ys)) = Some x"
      using qrep_linked [of w q ys "x # y # zs"] rep d l w'(3)
      by (auto simp: linked_def simp del: last.simps)
    moreover have "nx (nodes w') x = Some q" using w'(3) ok(2) by (simp del: last.simps)
    ultimately have "successively (\<lambda>a b. nx (nodes w') a = Some b) ((q # ys) @ [x, q])"
      unfolding successively_append_iff by simp
    then show ?thesis by (simp add: forward_def)
  qed
  moreover have "queues w' q = Some \<lparr>qlen = of_nat (length ys + length zs + 3), qoffset = 0\<rparr>"
    using w'(4) by (simp add: add.commute)
  ultimately show ?thesis by blast
qed

definition passes :: "skbuff \<Rightarrow> skbuff \<Rightarrow> bool" where
  "passes s v \<longleftrightarrow> seq v < seq s \<or> seq s < seq v \<and> seq v < end_seq s"

definition fits_before :: "skbuff \<Rightarrow> skbuff \<Rightarrow> bool" where
  "fits_before s v \<longleftrightarrow> seq s < seq v \<and> end_seq s \<le> seq v"

lemma tcp_data_insert_ordered_body_run:
  assumes "x \<noteq> null" and "skbs w x = Some s" and "v \<noteq> null" and "skbs w v = Some t"
  shows "passes s t \<Longrightarrow> tcp_data_insert_ordered_body q x v u w = Ok (False, ()) w"
    and "fits_before s t \<Longrightarrow> tcp_data_insert_ordered_body q x v u w
      = sq (queue_add_before q x v) (ret (True, ())) (w\<lparr>skbs := (skbs w)(x \<mapsto> s\<lparr>refcnt := refcnt s + 1\<rparr>)\<rparr>)"
    and "seq s = seq t \<Longrightarrow> tcp_data_insert_ordered_body q x v u w = Ok (True, ()) w"
  using assms by (auto simp: tcp_data_insert_ordered_body_def run list_entry_def passes_def fits_before_def)

text \<open>
  C35. An out-of-order segment that fits before another one destroys the queue: it is linked
  where it belongs and then, since the traversal's early exit does not leave the function,
  once more at the tail. From then on a traversal meets it as the last node, every segment
  behind the insertion point is lost to traversals, the counter is two too many, and two
  references are counted. The segments \<open>ys\<close> in front are those the traversal passes.
\<close>

theorem tcp_data_insert_ordered_loses:
  assumes rep: "qrep w q (ys @ y # zs)" and S: "\<forall>v \<in> set (ys @ [y]). skbs w v = Some (S v)"
    and x: "skbs w x = Some s" "detached w x" "x \<notin> set (q # ys @ y # zs)"
    and passed: "\<forall>v \<in> set ys. passes s (S v)" and before: "fits_before s (S y)"
  shows "\<exists>w'. tcp_data_insert_ordered q x w = Ok () w' \<and> forward w' q (ys @ [x])
    \<and> queues w' q = Some \<lparr>qlen = of_nat (length ys + length zs + 3), qoffset = 0\<rparr>
    \<and> skbs w' = (skbs w)(x \<mapsto> s\<lparr>refcnt := refcnt s + 2\<rparr>)"
proof -
  have nz: "x \<noteq> null" "null \<notin> set (ys @ y # zs)" using x(2) rep by (auto simp: detached_def qrep_def)
  let ?s1 = "s\<lparr>refcnt := refcnt s + 1\<rparr>"
  let ?w1 = "w\<lparr>skbs := (skbs w)(x \<mapsto> ?s1)\<rparr>"
  have "qrep ?w1 q (ys @ y # zs)" "detached ?w1 x" using rep x(2) by (simp_all add: detached_def)
  from queue_add_before_run [OF this x(3)] obtain w2 where
    w2: "queue_add_before q x y ?w1 = Ok () w2" "qrep w2 q (ys @ x # y # zs)"
      "touches q (insert x (set (ys @ y # zs))) ?w1 w2" by blast
  have loop: "list_for_each_safe q (tcp_data_insert_ordered_body q x) () w = Ok () w2"
  proof (rule list_for_each_safe_first [OF rep])
    show "tcp_data_insert_ordered_body q x v () w = Ok (False, ()) w" if v: "v \<in> set ys" for v
    proof -
      have "v \<noteq> null" using nz(2) v by auto
      then show ?thesis
        using tcp_data_insert_ordered_body_run(1) [OF nz(1) x(1), of v "S v"] S passed v by simp
    qed
    show "tcp_data_insert_ordered_body q x y () w = Ok (True, ()) w2"
      using tcp_data_insert_ordered_body_run(2) [OF nz(1) x(1)] nz(2) S before w2(1)
      by (simp add: bnd_run run_basic)
  qed
  let ?s2 = "s\<lparr>refcnt := refcnt s + 2\<rparr>"
  let ?w3 = "w2\<lparr>skbs := (skbs w2)(x \<mapsto> ?s2)\<rparr>"
  have "skbs w2 = (skbs w)(x \<mapsto> ?s1)" using touches_skbs(1) [OF w2(3)] by simp
  then have up: "upd_skb x (\<lambda>s. s\<lparr>refcnt := refcnt s + 1\<rparr>) w2 = Ok () ?w3" and sk: "skbs ?w3 = (skbs w)(x \<mapsto> ?s2)"
    using nz(1) by (simp_all add: upd_skb_run add.commute)
  have "qrep ?w3 q (ys @ x # y # zs)" using w2(2) by simp
  from queue_add_tail_linked [OF this] obtain w4 where
    w4: "queue_add_tail q x ?w3 = Ok () w4" "touches q (set (x # y # zs)) ?w3 w4" "forward w4 q (ys @ [x])"
      "queues w4 q = Some \<lparr>qlen = of_nat (length ys + length zs + 3), qoffset = 0\<rparr>" by blast
  have "tcp_data_insert_ordered q x w = Ok () w4"
    using loop up w4(1) by (simp add: tcp_data_insert_ordered_def bnd_run)
  with w4(3,4) touches_skbs(1) [OF w4(2)] sk show ?thesis by (intro exI [of _ w4]) simp
qed

theorem tcp_data_insert_ordered_loses_witness:
  "\<exists>w w'. qrep (w :: tcp_world) 40 [128, 136] \<and> tcp_data_insert_ordered 40 144 w = Ok () w' \<and> forward w' 40 [144]"
proof -
  let ?S = "(\<lambda>x :: ptr. SkBuff_init 0 0)(128 := (SkBuff_init 0 0)\<lparr>seq := 20, end_seq := 30\<rparr>,
    136 := (SkBuff_init 0 0)\<lparr>seq := 30, end_seq := 40\<rparr>, 144 := (SkBuff_init 0 0)\<lparr>seq := 10, end_seq := 20\<rparr>)"
  let ?w = "put_queue 40 [128, 136] (blank\<lparr>nodes := [144 \<mapsto> \<lparr>lprev = 144, lnext = 144\<rparr>],
    skbs := [128 \<mapsto> ?S 128, 136 \<mapsto> ?S 136, 144 \<mapsto> ?S 144]\<rparr>)"
  have q: "qrep ?w 40 ([] @ 128 # [136])"
    by (simp add: put_queue_def blank_def qrep_def linked_def nx_def pv_def)
  have "\<exists>w'. tcp_data_insert_ordered 40 144 ?w = Ok () w' \<and> forward w' 40 ([] @ [144])"
    using tcp_data_insert_ordered_loses [OF q, of ?S 144 "?S 144"]
    by (simp add: put_queue_def blank_def detached_def fits_before_def) blast
  with q show ?thesis by auto
qed

section \<open>Options\<close>

definition but_opts :: "tcp_sock \<Rightarrow> tcp_sock" where
  "but_opts t = t\<lparr>smss := 0, sackok := 0, sacks_allowed := 0, tsopt := 0\<rparr>"

lemma but_opts_simps [simp]:
  "but_opts (t\<lparr>smss := a\<rparr>) = but_opts t" "but_opts (t\<lparr>sackok := b\<rparr>) = but_opts t"
  "but_opts (t\<lparr>sacks_allowed := c\<rparr>) = but_opts t" "but_opts (t\<lparr>tsopt := d\<rparr>) = but_opts t"
  by (simp_all add: but_opts_def)

definition opts_rel :: "tcp_sock \<Rightarrow> tcp_sock \<Rightarrow> bool" where
  "opts_rel t t' \<longleftrightarrow> but_opts t' = but_opts t
     \<and> (smss t' = smss t \<or> 536 < smss t' \<and> smss t' \<le> 1460)
     \<and> (sacks_allowed t' = sacks_allowed t \<or> sacks_allowed t' \<in> {3, 4})
     \<and> (sackok t' = sackok t \<or> sackok t' = 0) \<and> (tsopt t' = tsopt t \<or> tsopt t' = 0)"

lemma opts_rel_refl [simp]: "opts_rel t t"
  by (simp add: opts_rel_def)

lemma opts_rel_trans: "opts_rel t u \<Longrightarrow> opts_rel u v \<Longrightarrow> opts_rel t v"
  unfolding opts_rel_def by (elim conjE, intro conjI) (simp, metis, metis, metis, metis)

text \<open>\<open>only_opts\<close>: a computation on the connection returns and changes only its options.\<close>

definition only_opts :: "ptr \<Rightarrow> 'w tcp_world_scheme \<Rightarrow> (fault + 'a \<times> 'w tcp_world_scheme) option \<Rightarrow> bool" where
  "only_opts tsk w r \<longleftrightarrow> (\<forall>t. tsks w tsk = Some t \<longrightarrow>
     (\<exists>x t'. r = Ok x (w\<lparr>tsks := (tsks w)(tsk \<mapsto> t')\<rparr>) \<and> opts_rel t t'))"

lemma only_opts_sq:
  assumes "only_opts tsk w (m w)"
    and "\<And>t'. tsks w tsk \<noteq> None \<Longrightarrow> only_opts tsk (w\<lparr>tsks := (tsks w)(tsk \<mapsto> t')\<rparr>) (n (w\<lparr>tsks := (tsks w)(tsk \<mapsto> t')\<rparr>))"
  shows "only_opts tsk w (sq m n w)"
  unfolding only_opts_def
proof (intro allI impI)
  fix t
  assume t: "tsks w tsk = Some t"
  from assms(1) t obtain x t1 where 1: "m w = Ok x (w\<lparr>tsks := (tsks w)(tsk \<mapsto> t1)\<rparr>)" "opts_rel t t1"
    unfolding only_opts_def by blast
  from assms(2) [of t1] t obtain y t2 where
    "n (w\<lparr>tsks := (tsks w)(tsk \<mapsto> t1)\<rparr>) = Ok y (w\<lparr>tsks := (tsks w)(tsk \<mapsto> t2)\<rparr>)" "opts_rel t1 t2"
    unfolding only_opts_def by auto
  with 1 show "\<exists>x t'. sq m n w = Ok x (w\<lparr>tsks := (tsks w)(tsk \<mapsto> t')\<rparr>) \<and> opts_rel t t'"
    by (auto simp: bnd_run intro: opts_rel_trans)
qed

lemma only_opts_same [simp]: "only_opts tsk w (Ok x w)"
  unfolding only_opts_def
proof (intro allI impI)
  fix t
  assume "tsks w tsk = Some t"
  then have "Ok x w = Ok x (w\<lparr>tsks := (tsks w)(tsk \<mapsto> t)\<rparr>)" by (simp add: fun_upd_idem)
  then show "\<exists>y t'. Ok x w = Ok y (w\<lparr>tsks := (tsks w)(tsk \<mapsto> t')\<rparr>) \<and> opts_rel t t'"
    using opts_rel_refl by blast
qed

lemma only_opts_upd:
  "tsk \<noteq> null \<Longrightarrow> (\<And>t. opts_rel t (f t)) \<Longrightarrow> only_opts tsk w (upd_tsk tsk f w)"
  by (auto simp: only_opts_def run)

lemma tcp_parse_tail_only_opts: "tsk \<noteq> null \<Longrightarrow> only_opts tsk w (tcp_parse_tail tsk a b w)"
  by (auto simp: only_opts_def tcp_parse_tail_def run opts_rel_def)

lemma tcp_parse_mss_only_opts:
  assumes "tsk \<noteq> null" and "skb \<noteq> null" and "skbs w skb = Some s" and "in_buf s (at + 2) 2"
  shows "only_opts tsk w (tcp_parse_mss tsk skb at w)"
proof -
  let ?m = "ntohs (get16 (take 2 (drop (nat (at + 2)) (buf s))) 0)"
  have "tcp_parse_mss tsk skb at w
      = (if 536 < ?m \<and> ?m \<le> 1460 then upd_tsk tsk (\<lambda>t. t\<lparr>smss := ?m\<rparr>) w else Ok () w)"
    using assms by (simp add: tcp_parse_mss_def bnd_run read_buf_run Let_def onlyif_run)
  then show ?thesis
    using only_opts_upd [OF assms(1), of "\<lambda>t. t\<lparr>smss := ?m\<rparr>" w] by (auto simp: opts_rel_def)
qed

definition opts_room :: "skbuff \<Rightarrow> int \<Rightarrow> u8 \<Rightarrow> bool" where
  "opts_room s at n \<longleftrightarrow> (0 < n \<and> n < 20 \<longrightarrow> 0 \<le> at \<and> at + int (unat n) + 3 \<le> int (length (buf s)))"

lemma opts_room_step:
  assumes "opts_room s at n" and "0 < n" and "n < 20"
  shows "opts_room s (at + 4) (n - 4)" and "opts_room s (at + 1) (n - 1)" and "opts_room s at (n - 1)"
    and "in_buf s at 1" and "in_buf s (at + 2) 2"
proof -
  have n: "0 < unat n" "unat n < 20" using assms(2,3) by (simp_all add: word_less_nat_alt)
  have one: "unat (n - 1) = unat n - 1" using assms(2) by (simp add: unat_minus_one)
  have four: "unat (n - 4) = (if 4 \<le> unat n then unat n - 4 else 252 + unat n)"
    by (simp add: unat_sub_if')
  show "opts_room s (at + 4) (n - 4)"
    using assms n four by (auto simp: opts_room_def word_less_nat_alt split: if_splits)
  show "opts_room s (at + 1) (n - 1)" "opts_room s at (n - 1)"
    using assms n one by (auto simp: opts_room_def)
  have "0 \<le> at" "at + int (unat n) + 3 \<le> int (length (buf s))"
    using assms by (simp_all add: opts_room_def)
  with n show "in_buf s at 1" "in_buf s (at + 2) 2"
    unfolding in_buf_def by linarith+
qed

lemma tcp_parse_loop_only_opts:
  fixes w :: "'w tcp_world_scheme"
  assumes "tsk \<noteq> null" and "skb \<noteq> null"
  shows "skbs w skb = Some s \<Longrightarrow> opts_room s at n \<Longrightarrow> only_opts tsk w (tcp_parse_loop tsk skb at n a b w)"
proof (induction n arbitrary: at a b w rule: measure_induct_rule [where f = opts_left])
  case (less n)
  show ?case
  proof (cases "0 < n \<and> n < 20")
    case False
    then show ?thesis by (subst tcp_parse_loop.simps) (auto simp: run_basic)
  next
    case True
    then have n: "0 < n" "n < 20" by auto
    note room = opts_room_step [OF less.prems(2) n]
    have tail: "only_opts tsk u (sq (tcp_parse_tail tsk c d) (tcp_parse_loop tsk skb at' n' c d) u)"
      if "skbs u skb = Some s" "opts_room s at' n'" "opts_left n' < opts_left n"
      for u :: "'w tcp_world_scheme" and at' n' c d
    proof (rule only_opts_sq [OF tcp_parse_tail_only_opts [OF assms(1)]])
      fix t'
      show "only_opts tsk (u\<lparr>tsks := (tsks u)(tsk \<mapsto> t')\<rparr>)
          (tcp_parse_loop tsk skb at' n' c d (u\<lparr>tsks := (tsks u)(tsk \<mapsto> t')\<rparr>))"
        by (rule less.IH [OF that(3) _ that(2)]) (simp add: that(1))
    qed
    note rest = tail [OF _ room(1) opts_left_dec(2) [OF n]] tail [OF _ room(2) opts_left_dec(1) [OF n]]
      tail [OF _ room(3) opts_left_dec(1) [OF n]]
    have mss: "only_opts tsk w (sq (tcp_parse_mss tsk skb at) (sq (tcp_parse_tail tsk a b)
        (tcp_parse_loop tsk skb (at + 4) (n - 4) a b)) w)"
      by (rule only_opts_sq) (use assms less.prems(1) room(5) rest(1) in \<open>simp_all add: tcp_parse_mss_only_opts\<close>)
    have read: "read_buf skb at 1 w = Ok (take 1 (drop (nat at) (buf s))) w"
      using assms(2) less.prems(1) room(4) by (simp add: read_buf_run)
    show ?thesis
      using mss rest(2,3) [OF less.prems(1)] True read
      by (subst tcp_parse_loop.simps) (simp add: bnd_run [of "read_buf _ _ _"] del: take_Suc)
  qed
qed

lemma buf_SkBuff_init [simp]: "buf (SkBuff_init r n) = replicate n 0"
  by (simp add: SkBuff_init_def)

text \<open>
  C10. Whatever bytes a segment has for options, reading them ends, stays within a buffer of
  76 bytes, and changes nothing of the connection but its four option members: the segment
  size is afterwards what it was or a value above 536 and up to 1460, the number of
  acknowledgement blocks is what it was, 3 or 4, and the two flags can only be cleared.
\<close>

theorem tcp_parse_opts_bounds:
  assumes "tsk \<noteq> null" and "tsks w tsk = Some t" and "skb \<noteq> null" and "skbs w skb = Some s" and "76 \<le> length (buf s)"
  shows "\<exists>t'. tcp_parse_opts tsk skb w = Ok 0 (w\<lparr>tsks := (tsks w)(tsk \<mapsto> t')\<rparr>) \<and> opts_rel t t'"
proof -
  let ?n = "of_nat (tcp_hlen (skb_hdr s)) - 20 :: u8"
  have at: "tcp_opts_at = 54" by (simp add: tcp_opts_at_def Eth_Hdr_size_def Ip_Hdr_size_def Tcp_Hdr_size_def)
  have "opts_room s tcp_opts_at ?n"
    unfolding opts_room_def
  proof (intro impI conjI)
    assume "0 < ?n \<and> ?n < 20"
    then have "unat ?n < unat (20 :: u8)" by (simp only: word_less_nat_alt)
    then have "unat ?n < 20" by simp
    then have "int (unat ?n) < 20" by (simp only: of_nat_less_iff [where 'a = int, of _ 20, simplified])
    with at assms(5) show "tcp_opts_at + int (unat ?n) + 3 \<le> int (length (buf s))" by linarith
  qed (simp add: at)
  from tcp_parse_loop_only_opts [OF assms(1,3,4) this, of False False] assms(2) obtain x t' where
    "tcp_parse_loop tsk skb tcp_opts_at ?n False False w = Ok x (w\<lparr>tsks := (tsks w)(tsk \<mapsto> t')\<rparr>)" "opts_rel t t'"
    unfolding only_opts_def by blast
  then show ?thesis
    using assms by (auto simp: tcp_parse_opts_def bnd_run read_hdr_run room_for_hdr_def run_basic)
qed

theorem tcp_parse_opts_bounds_witness:
  "\<exists>w t'. tcp_parse_opts 64 128 (w :: tcp_world) = Ok 0 (w\<lparr>tsks := (tsks w)(64 \<mapsto> t')\<rparr>) \<and> opts_rel blank_tsk t'"
proof -
  let ?w = "blank\<lparr>tsks := [64 \<mapsto> blank_tsk], skbs := [128 \<mapsto> SkBuff_init 0 100]\<rparr>"
  have "\<exists>t'. tcp_parse_opts 64 128 ?w = Ok 0 (?w\<lparr>tsks := (tsks ?w)(64 \<mapsto> t')\<rparr>) \<and> opts_rel blank_tsk t'"
    by (rule tcp_parse_opts_bounds [where s = "SkBuff_init 0 100"]) (simp, simp, simp, simp, simp)
  then show ?thesis by blast
qed

section \<open>Acceptance\<close>

text \<open>
  C14. The window check: a segment is accepted when its number is at least the next expected
  one and at most the right edge of the window, both as plain unsigned numbers. Without
  wrap-around that is RFC 793's test of the first byte, \<open>seq - rcv_nxt < rcv_wnd\<close>, except
  that the byte just behind the window passes too; when the window wraps around 0, every
  segment is refused.
\<close>

theorem tcp_verify_segment_window:
  assumes "sk \<noteq> null" and "tsks w sk = Some t" and "skb \<noteq> null" and "skbs w skb = Some s" and "room_for_hdr s"
  defines "nxt \<equiv> rcv_nxt (tcb t)" and "wnd \<equiv> rcv_wnd (tcb t)" and "n \<equiv> th_seq (skb_hdr s)"
  shows "tcp_verify_segment sk skb w = Ok (if wnd = 0 \<and> 0 < data_len s then 0
      else if unat nxt + unat wnd < 2 ^ 32 then (if n - nxt < wnd \<or> n = nxt + wnd then 1 else 0) else 0) w"
proof -
  have acc: "tcp_verify_segment sk skb w = Ok (if wnd = 0 \<and> 0 < data_len s then 0
      else if n < nxt \<or> nxt + wnd < n then 0 else 1) w"
    using assms(1-5) by (simp add: tcp_verify_segment_def run nxt_def wnd_def n_def)
  show ?thesis
  proof (cases "unat nxt + unat wnd < 2 ^ 32")
    case True
    then have sum: "unat (nxt + wnd) = unat nxt + unat wnd" using unat_add_lem [of nxt wnd] by simp
    have eq: "(n < nxt \<or> nxt + wnd < n) \<longleftrightarrow> \<not> (n - nxt < wnd \<or> n = nxt + wnd)"
    proof (cases "nxt \<le> n")
      case le: True
      then have "unat (n - nxt) = unat n - unat nxt" by (rule unat_sub)
      then have "n - nxt < wnd \<longleftrightarrow> unat n - unat nxt < unat wnd" by (simp only: word_less_nat_alt)
      moreover have "nxt + wnd < n \<longleftrightarrow> unat nxt + unat wnd < unat n" using sum by (simp only: word_less_nat_alt)
      moreover have "n = nxt + wnd \<longleftrightarrow> unat n = unat nxt + unat wnd" by (simp only: word_unat_eq_iff sum)
      moreover have "\<not> n < nxt" "unat nxt \<le> unat n" using le by (simp, simp add: word_le_nat_alt)
      ultimately show ?thesis by linarith
    next
      case False
      have "2 ^ 32 - unat nxt \<le> unat (n - nxt)"
        using False by (simp add: unat_sub_if' word_le_nat_alt)
      then have "\<not> n - nxt < wnd" using True by (simp add: word_less_nat_alt)
      moreover have "n \<noteq> nxt + wnd"
        using False sum by (auto simp: word_le_nat_alt)
      moreover have "n < nxt" using False by (rule not_le_imp_less)
      ultimately show ?thesis by simp
    qed
    show ?thesis unfolding acc eq using True by simp
  next
    case False
    have "unat nxt < 2 ^ 32" "unat wnd < 2 ^ 32" by (rule order_less_le_trans, rule unsigned_less, simp)+
    with False have "unat (nxt + wnd) < unat nxt" by (simp add: unat_plus_if_size word_size)
    then have "nxt + wnd < nxt" by (simp add: word_less_nat_alt)
    then have "n < nxt \<or> nxt + wnd < n" by (meson not_le_imp_less order_less_le_trans)
    with False show ?thesis unfolding acc by simp
  qed
qed

theorem tcp_verify_segment_window_witness:
  "\<exists>w. tcp_verify_segment 64 128 (w :: tcp_world) = Ok 0 w"
proof -
  let ?t = "blank_tsk\<lparr>tcb := (tcb blank_tsk)\<lparr>rcv_nxt := 0xffffffff, rcv_wnd := 100\<rparr>\<rparr>"
  let ?w = "blank\<lparr>tsks := [64 \<mapsto> ?t], skbs := [128 \<mapsto> SkBuff_init 0 100]\<rparr>"
  have "tcp_verify_segment 64 128 ?w = Ok (if rcv_wnd (tcb ?t) = 0 \<and> 0 < data_len (SkBuff_init 0 100) then 0
      else if unat (rcv_nxt (tcb ?t)) + unat (rcv_wnd (tcb ?t)) < 2 ^ 32 then
        (if th_seq (skb_hdr (SkBuff_init 0 100)) - rcv_nxt (tcb ?t) < rcv_wnd (tcb ?t)
          \<or> th_seq (skb_hdr (SkBuff_init 0 100)) = rcv_nxt (tcb ?t) + rcv_wnd (tcb ?t) then 1 else 0) else 0) ?w"
    by (rule tcp_verify_segment_window) (simp, simp, simp, simp, simp add: room_for_hdr_def)
  then have "tcp_verify_segment 64 128 ?w = Ok 0 ?w" by simp
  then show ?thesis by blast
qed

section \<open>The handshake\<close>



end
