(* ===== verification/Tcp_User.thy ===== *)
theory Tcp_User
  imports Tcp_Input
begin

text \<open>
  The entry points of TCP: the calls of the user (\<open>Net_Ops\<close> of \<open>src/tcp.cpp\<close>), the
  arrival of a segment \<open>tcp_in\<close>, the release of a socket and the handlers the timers run.
\<close>

unbundle bit_operations_syntax

section \<open>The user's calls\<close>

text \<open>
  The address is given by \<open>sin_port\<close> and \<open>s_addr\<close> as they lie in memory. The kernel's
  answer to the temporary socket of \<open>generate_port\<close> is \<open>next_port\<close>.
\<close>

definition generate_port :: "('w tcp_world_scheme, u16) M" where
  "generate_port = bnd (get next_port) (\<lambda>p. case p of
     None \<Rightarrow> fail (Throw ''Failed to create temporary socket'') | Some port \<Rightarrow> ret port)"

definition tcp_v4_connect :: "'w ip_out \<Rightarrow> ptr \<Rightarrow> u16 \<Rightarrow> u32 \<Rightarrow> ('w tcp_world_scheme, int) M" where
  "tcp_v4_connect ipo sk sin_port s_addr =
     sq (upd_sk sk (\<lambda>k. k\<lparr>dport := sin_port\<rparr>))
     (bnd generate_port (\<lambda>port. sq (upd_sk sk (\<lambda>k. k\<lparr>sport := port\<rparr>))
     (sq (upd_sk sk (\<lambda>k. k\<lparr>daddr := s_addr\<rparr>)) (tcp_connect ipo sk))))"

definition tcp_disconnect :: "ptr \<Rightarrow> int \<Rightarrow> ('w tcp_world_scheme, int) M" where
  "tcp_disconnect sk flags = ret 0"

definition tcp_write :: "'w ip_out \<Rightarrow> ptr \<Rightarrow> u8 list \<Rightarrow> int \<Rightarrow> ('w tcp_world_scheme, int) M" where
  "tcp_write ipo sk buff n = bnd (load socks sk) (\<lambda>k.
     if sk_err k \<noteq> 0 then ret (sk_err k)
     else if sk_state k = TCP_ESTABLISHED \<or> sk_state k = TCP_CLOSE_WAIT then tcp_send ipo sk buff n
     else ret (- EBADF))"

definition tcp_read :: "ptr \<Rightarrow> int \<Rightarrow> ('w tcp_world_scheme, int) M" where
  "tcp_read sk n = bnd (load socks sk) (\<lambda>k. case sk_state k of
       TCP_CLOSE \<Rightarrow> ret (- EBADF)
     | TCP_CLOSE_WAIT \<Rightarrow> bnd (isEmpty (receive_queue k)) (\<lambda>e. if e then ret (-1)
         else bnd (load tsks sk) (\<lambda>t. if tflags t AND TCP_FIN \<noteq> 0
           then sq (upd_tsk sk (\<lambda>t. t\<lparr>tflags := tflags t AND NOT TCP_FIN\<rparr>)) (ret 0)
           else ret (-1)))
     | TCP_CLOSING \<Rightarrow> ret (sk_err k)
     | TCP_LAST_ACK \<Rightarrow> ret (sk_err k)
     | TCP_TIME_WAIT \<Rightarrow> ret (sk_err k)
     | _ \<Rightarrow> ret (-1))"

definition tcp_close :: "'w ip_out \<Rightarrow> ptr \<Rightarrow> ('w tcp_world_scheme, int) M" where
  "tcp_close ipo sk = bnd (load socks sk) (\<lambda>k. case sk_state k of
       TCP_LISTEN \<Rightarrow> tcp_done sk
     | TCP_SYN_SENT \<Rightarrow> tcp_done sk
     | TCP_SYN_RECEIVED \<Rightarrow> tcp_done sk
     | TCP_ESTABLISHED \<Rightarrow> sq (tcp_set_state sk TCP_FIN_WAIT_1) (sq (tcp_queue_fin ipo sk) (ret 0))
     | TCP_CLOSE_WAIT \<Rightarrow> sq (tcp_queue_fin ipo sk) (ret 0)
     | _ \<Rightarrow> sq (upd_sk sk (\<lambda>k. k\<lparr>sk_err := - EBADF\<rparr>)) (ret (-1)))"

definition tcp_abort :: "'w ip_out \<Rightarrow> ptr \<Rightarrow> ('w tcp_world_scheme, int) M" where
  "tcp_abort ipo sk = sq (tcp_send_reset ipo sk) (tcp_done sk)"

section \<open>Arrival\<close>

definition tcp_in :: "'w ip_out \<Rightarrow> ptr \<Rightarrow> ('w tcp_world_scheme, unit) M" where
  "tcp_in ipo skb = sq (tcp_init_segment skb) (bnd (read_hdr skb) (\<lambda>h.
     bnd (inet_lookup skb (th_sport h) (th_dport h)) (\<lambda>sk.
       if sk = null then free_skb skb
       else bnd (load socks sk) (\<lambda>k. sq (socket_wr_acquire (sk_socket k))
         (sq (tcp_input_state ipo sk skb)
         (bnd (load socks sk) (\<lambda>k. sq (socket_release (sk_socket k)) skip)))))))"

section \<open>Handlers\<close>

definition tcp_linger :: "ptr \<Rightarrow> ('w tcp_world_scheme, unit) M" where
  "tcp_linger sk = bnd (load socks sk) (\<lambda>k. sq (socket_wr_acquire (sk_socket k))
     (bnd (load tsks sk) (\<lambda>t. sq (Timer_cancel (linger t))
     (sq (upd_tsk sk (\<lambda>t. t\<lparr>linger := null\<rparr>))
     (sq (tcp_done sk)
     (bnd (load socks sk) (\<lambda>k. sq (socket_release (sk_socket k)) skip)))))))"

definition tcp_user_timeout :: "'w ip_out \<Rightarrow> ptr \<Rightarrow> ('w tcp_world_scheme, unit) M" where
  "tcp_user_timeout ipo sk = bnd (load socks sk) (\<lambda>k. sq (socket_wr_acquire (sk_socket k))
     (bnd (load tsks sk) (\<lambda>t. sq (Timer_cancel (linger t))
     (sq (upd_tsk sk (\<lambda>t. t\<lparr>linger := null\<rparr>))
     (sq (tcp_abort ipo sk)
     (bnd (load socks sk) (\<lambda>k. sq (socket_release (sk_socket k)) skip)))))))"

definition inet_free :: "ptr \<Rightarrow> ('w tcp_world_scheme, int) M" where
  "inet_free so = bnd (load sockets so) (\<lambda>s. sq (sock_free (so_sk s))
     (sq (upd (socks_update (\<lambda>h. h(so_sk s := None))))
     (sq (upd (tsks_update (\<lambda>h. h(so_sk s := None)))) (ret 0))))"

definition socket_free :: "ptr \<Rightarrow> ('w tcp_world_scheme, int) M" where
  "socket_free so = sq (socket_wr_acquire so) (bnd (get sockets_queue) (\<lambda>q.
     sq (queue_del q so) (sq (upd (sock_amount_update (\<lambda>n. n - 1)))
     (bnd (load sockets so) (\<lambda>s. sq (onlyif (so_ops s) (sq (inet_free so) skip))
       (socket_release so))))))"

definition socket_garbage_collect :: "ptr \<Rightarrow> ('w tcp_world_scheme, unit) M" where
  "socket_garbage_collect arg = bnd (socket_find arg) (\<lambda>so.
     onlyif (so \<noteq> null) (sq (socket_free so) skip))"

text \<open>What a closure calls: the function and object its timer was created with.\<close>

fun run_handler :: "'w ip_out \<Rightarrow> handler \<Rightarrow> ('w tcp_world_scheme, unit) M" where
  "run_handler ipo (Connect_Rto tsk) = tcp_connect_rto ipo tsk"
| "run_handler ipo (Retransmission_Timeout tsk) = tcp_retransmission_timeout ipo tsk"
| "run_handler ipo (Send_Delack sk) = tcp_send_delack ipo sk"
| "run_handler ipo (Linger sk) = tcp_linger sk"
| "run_handler ipo (User_Timeout sk) = tcp_user_timeout ipo sk"
| "run_handler ipo (Garbage_Collect so) = socket_garbage_collect so"

end
