(* ===== verification/System_Calls.thy ===== *)
theory System_Calls
  imports Tcp_User
begin

text \<open>
  The socket layer: the INET family's operations (\<open>src/inet.cpp\<close>) and the system calls of
  \<open>src/socket.cpp\<close>. A call \<open>_name\<close> of the code is \<open>sys_name\<close> here.

  The parameter \<open>others\<close> is what the other threads of the stack do while a call sleeps.
  The one \<open>Sock_Ops\<close> table of the stack is INET's, so \<open>so_ops\<close> says whether the pointer is
  set; theory \<open>Operations\<close> holds the tables and shows that calls go through them. A user's buffer is the list of its bytes; calls that fill one return it.
\<close>

unbundle bit_operations_syntax

type_synonym 'w others = "('w tcp_world_scheme, unit) M"

record sockaddr_in =
  sin_family :: u16
  sin_port :: u16
  sin_addr :: u32

text \<open>Constants of the system's headers.\<close>

definition AF_UNSPEC :: u16 where "AF_UNSPEC = 0"
definition AF_INET :: u16 where "AF_INET = 2"
definition SOCK_STREAM :: int where "SOCK_STREAM = 1"
definition O_NONBLOCK :: int where "O_NONBLOCK = 0x800"
definition F_GETFL :: int where "F_GETFL = 3"
definition F_SETFL :: int where "F_SETFL = 4"
definition SOL_SOCKET :: int where "SOL_SOCKET = 1"
definition SO_ERROR :: int where "SO_ERROR = 4"
definition POLLNVAL :: u16 where "POLLNVAL = 0x020"

definition ENOPROTOOPT :: int where "ENOPROTOOPT = 92"
definition EAFNOSUPPORT :: int where "EAFNOSUPPORT = 97"
definition EALREADY :: int where "EALREADY = 114"
definition EINPROGRESS :: int where "EINPROGRESS = 115"

text \<open>Assigning a \<open>k\<close>-bit unsigned value to an \<open>int\<close>, and an \<open>int\<close> to a \<open>short\<close>.\<close>

definition int_of_unsigned :: "int \<Rightarrow> int" where
  "int_of_unsigned n = sint (word_of_int n :: 32 word)"

definition short_of_int :: "int \<Rightarrow> int" where
  "short_of_int n = sint (word_of_int n :: 16 word)"

section \<open>The INET family\<close>

text \<open>
  \<open>sk_alloc\<close> makes a \<open>Tcp_Sock\<close>; \<open>raw\<close> is what its memory held. The table \<open>inet_ops\<close>
  has one row, chosen by a common bit of the types.
\<close>

definition sk_alloc :: "sock \<Rightarrow> ('w tcp_world_scheme, ptr) M" where
  "sk_alloc raw = tcp_alloc_sock raw"

definition inet_create :: "sock \<Rightarrow> ptr \<Rightarrow> int \<Rightarrow> ('w tcp_world_scheme, int) M" where
  "inet_create raw so proto = bnd (load sockets so) (\<lambda>s.
     if SOCK_STREAM AND so_type s = 0 then ret 1
     else sq (upd_so so (\<lambda>s. s\<lparr>so_ops := True\<rparr>)) (bnd (sk_alloc raw) (\<lambda>sk.
       sq (upd_sk sk (\<lambda>k. k\<lparr>sk_protocol := proto\<rparr>)) (sq (sock_init_data so sk) (ret 0)))))"

definition inet_socket :: "ptr \<Rightarrow> int \<Rightarrow> ('w tcp_world_scheme, int) M" where
  "inet_socket so proto = ret 0"

text \<open>Sleeping on the \<open>Wait_Lock\<close> of a socket: woken when another thread clears the flag.\<close>

definition socket_sleep :: "'w others \<Rightarrow> ptr \<Rightarrow> ('w tcp_world_scheme, unit) M" where
  "socket_sleep others so = sq (upd_so so (\<lambda>s. s\<lparr>so_sleeping := True\<rparr>)) (sq others
     (bnd (load sockets so) (\<lambda>s. if so_sleeping s then fail Blocked else skip)))"

partial_function (option) connect_wait_loop ::
    "'w others \<Rightarrow> ptr \<Rightarrow> ptr \<Rightarrow> ('w tcp_world_scheme, unit) M" where
  "connect_wait_loop others so sk w =
     bnd (load sockets so) (\<lambda>s. bnd (load socks sk) (\<lambda>k.
       if so_state s = SS_CONNECTING \<and> sk_err k = - EINPROGRESS
       then sq (socket_release so) (sq (socket_sleep others so) (sq (socket_wr_acquire so)
         (connect_wait_loop others so sk)))
       else ret ())) w"

declare connect_wait_loop.simps [code]

text \<open>The block under \<open>unique_lock\<close>: its constructor locks, its destructor unlocks.\<close>

definition connect_wait :: "'w others \<Rightarrow> ptr \<Rightarrow> ptr \<Rightarrow> ('w tcp_world_scheme, unit) M" where
  "connect_wait others so sk = bnd (load sockets so) (\<lambda>s.
     if so_locked s then fail Deadlock
     else sq (upd_so so (\<lambda>s. s\<lparr>so_locked := True\<rparr>)) (sq (connect_wait_loop others so sk)
       (bnd (load sockets so) (\<lambda>s. if so_locked s then upd_so so (\<lambda>s. s\<lparr>so_locked := False\<rparr>)
         else fail NotOwner))))"

definition get_err :: "ptr \<Rightarrow> ('w tcp_world_scheme, int) M" where
  "get_err sk = bnd (load socks sk) (\<lambda>k. ret (sk_err k))"

definition set_err :: "ptr \<Rightarrow> int \<Rightarrow> ('w tcp_world_scheme, unit) M" where
  "set_err sk e = upd_sk sk (\<lambda>k. k\<lparr>sk_err := e\<rparr>)"

definition inet_stream_connect ::
    "'w ip_out \<Rightarrow> 'w others \<Rightarrow> ptr \<Rightarrow> sockaddr_in \<Rightarrow> int \<Rightarrow> int \<Rightarrow> ('w tcp_world_scheme, int) M" where
  "inet_stream_connect ipo others so addr addr_len flags = bnd (load sockets so) (\<lambda>s.
     let sk = so_sk s in
     if 0 \<le> addr_len \<and> addr_len < 2 then ret (- EINVAL)
     else if sin_family addr = AF_UNSPEC
     then bnd (load socks sk) (\<lambda>_. sq (tcp_disconnect sk flags) (ret (- EAFNOSUPPORT)))
     else case so_state s of
       SS_CONNECTED \<Rightarrow> sq (set_err sk (- EISCONN)) (get_err sk)
     | SS_CONNECTING \<Rightarrow> sq (set_err sk (- EALREADY)) (get_err sk)
     | SS_UNCONNECTED \<Rightarrow> sq (set_err sk (- EISCONN)) (bnd (load socks sk) (\<lambda>k.
         if sk_state k \<noteq> TCP_CLOSE then ret (sk_err k)
         else sq (tcp_v4_connect ipo sk (sin_port addr) (sin_addr addr))
           (sq (upd_so so (\<lambda>s. s\<lparr>so_state := SS_CONNECTING\<rparr>))
           (sq (set_err sk (- EINPROGRESS))
           (bnd (load sockets so) (\<lambda>s.
             if so_flags s AND O_NONBLOCK \<noteq> 0 then get_err sk
             else sq (connect_wait others so sk) (sq (socket_wr_acquire so)
               (bnd (get_err sk) (\<lambda>e.
                 if e \<noteq> 0 then ret e
                 else sq (upd_so so (\<lambda>s. s\<lparr>so_state := SS_CONNECTED\<rparr>)) (get_err sk))))))))))
     | _ \<Rightarrow> sq (set_err sk (- EINVAL)) (get_err sk))"

definition inet_write :: "'w ip_out \<Rightarrow> ptr \<Rightarrow> u8 list \<Rightarrow> int \<Rightarrow> ('w tcp_world_scheme, int) M" where
  "inet_write ipo so buff n = bnd (load sockets so) (\<lambda>s. tcp_write ipo (so_sk s) buff n)"

definition inet_read :: "ptr \<Rightarrow> int \<Rightarrow> ('w tcp_world_scheme, int) M" where
  "inet_read so n = bnd (load sockets so) (\<lambda>s. tcp_read (so_sk s) n)"

definition inet_close :: "'w ip_out \<Rightarrow> ptr \<Rightarrow> ('w tcp_world_scheme, int) M" where
  "inet_close ipo so = (if so = null then ret 0
     else bnd (load sockets so) (\<lambda>s. tcp_close ipo (so_sk s)))"

definition inet_abort :: "'w ip_out \<Rightarrow> ptr \<Rightarrow> ('w tcp_world_scheme, int) M" where
  "inet_abort ipo so = bnd (load sockets so) (\<lambda>s.
     sq (onlyif (so_sk s \<noteq> null) (sq (tcp_abort ipo (so_sk s)) skip)) (ret 0))"

text \<open>
  The two name calls fill the family, port and address of the user's \<open>sockaddr_in\<close>, in
  network order, and set the length to 16; \<open>None\<close> when they write nothing.
\<close>

definition inet_getpeername :: "ptr \<Rightarrow> ('w tcp_world_scheme, int \<times> sockaddr_in option) M" where
  "inet_getpeername so = bnd (load sockets so) (\<lambda>s.
     if so_sk s = null then ret (-1, None)
     else bnd (load socks (so_sk s)) (\<lambda>k. ret (0, Some \<lparr>sin_family = AF_INET,
       sin_port = htons (dport k), sin_addr = htonl (daddr k)\<rparr>)))"

definition inet_getsockname :: "ptr \<Rightarrow> ('w tcp_world_scheme, int \<times> sockaddr_in option) M" where
  "inet_getsockname so = bnd (load sockets so) (\<lambda>s.
     if so_sk s = null then ret (-1, None)
     else bnd (load socks (so_sk s)) (\<lambda>k. ret (0, Some \<lparr>sin_family = AF_INET,
       sin_port = htons (sport k), sin_addr = htonl (saddr k)\<rparr>)))"

section \<open>System calls\<close>

definition Socket_new :: "int \<Rightarrow> ('w tcp_world_scheme, ptr) M" where
  "Socket_new pid = bnd new_addr (\<lambda>p. bnd (get raw_ptr) (\<lambda>raw.
     sq (init_node p) (sq (upd (sockets_update (\<lambda>h. h(p \<mapsto> Socket_init raw 0 pid)))) (ret p))))"

text \<open>\<open>families\<close> has 128 places; all but that of \<open>AF_INET\<close> are null.\<close>

definition sys_socket :: "sock \<Rightarrow> int \<Rightarrow> int \<Rightarrow> int \<Rightarrow> int \<Rightarrow> ('w tcp_world_scheme, int) M" where
  "sys_socket raw pid domain ty proto = bnd (Socket_new pid) (\<lambda>so.
     sq (upd_so so (\<lambda>s. s\<lparr>so_type := short_of_int ty\<rparr>))
     (if domain < 0 \<or> 128 \<le> domain then fail OutOfBounds
      else if domain \<noteq> uint AF_INET then sq (socket_free so) (ret (-1))
      else bnd (inet_create raw so proto) (\<lambda>rc.
        if rc \<noteq> 0 then sq (socket_free so) (ret (-1))
        else bnd (get sockets_queue) (\<lambda>q. sq (queue_add_tail q so)
          (sq (upd (sock_amount_update (\<lambda>n. n + 1)))
          (sq (socket_rd_acquire so)
          (bnd (load sockets so) (\<lambda>s. sq (socket_release so) (ret (so_fd s))))))))))"

definition sys_connect ::
    "'w ip_out \<Rightarrow> 'w others \<Rightarrow> int \<Rightarrow> int \<Rightarrow> sockaddr_in \<Rightarrow> int \<Rightarrow> ('w tcp_world_scheme, int) M" where
  "sys_connect ipo others pid fd addr addr_len = bnd (get_socket pid fd) (\<lambda>so.
     if so = null then ret (-1)
     else sq (socket_wr_acquire so) (bnd (load sockets so) (\<lambda>s.
       if \<not> so_ops s then fail NullDeref
       else bnd (inet_stream_connect ipo others so addr (int_of_unsigned addr_len) 0) (\<lambda>rc.
         sq (if rc \<in> {- EINVAL, - EAFNOSUPPORT, - ECONNREFUSED, - ETIMEDOUT}
             then sq (socket_release so) (sq (socket_free so) skip)
             else sq (socket_release so) skip)
           (ret rc)))))"

text \<open>The calls that look a socket up and run one operation of its table under its lock.\<close>

definition with_socket ::
    "int \<Rightarrow> int \<Rightarrow> 'a \<Rightarrow> (ptr \<Rightarrow> ('w tcp_world_scheme, 'a) M) \<Rightarrow> ('w tcp_world_scheme, 'a) M" where
  "with_socket pid fd missing f = bnd (get_socket pid fd) (\<lambda>so.
     if so = null then ret missing
     else sq (socket_wr_acquire so) (bnd (f so) (\<lambda>rc. sq (socket_release so) (ret rc))))"

definition with_ops ::
    "int \<Rightarrow> int \<Rightarrow> 'a \<Rightarrow> (ptr \<Rightarrow> ('w tcp_world_scheme, 'a) M) \<Rightarrow> ('w tcp_world_scheme, 'a) M" where
  "with_ops pid fd missing f = with_socket pid fd missing (\<lambda>so.
     bnd (load sockets so) (\<lambda>s. if so_ops s then f so else fail NullDeref))"

definition sys_write :: "'w ip_out \<Rightarrow> int \<Rightarrow> int \<Rightarrow> u8 list \<Rightarrow> int \<Rightarrow> ('w tcp_world_scheme, int) M" where
  "sys_write ipo pid fd buff count =
     with_ops pid fd (-1) (\<lambda>so. inet_write ipo so buff (int_of_unsigned count))"

definition sys_read :: "int \<Rightarrow> int \<Rightarrow> int \<Rightarrow> ('w tcp_world_scheme, int) M" where
  "sys_read pid fd count = with_ops pid fd (-1) (\<lambda>so. inet_read so (int_of_unsigned count))"

definition sys_close :: "'w ip_out \<Rightarrow> int \<Rightarrow> int \<Rightarrow> ('w tcp_world_scheme, int) M" where
  "sys_close ipo pid fd = with_ops pid fd (-1) (inet_close ipo)"

definition sys_getpeername :: "int \<Rightarrow> int \<Rightarrow> ('w tcp_world_scheme, int \<times> sockaddr_in option) M" where
  "sys_getpeername pid fd = with_ops pid fd (- EBADF, None) inet_getpeername"

definition sys_getsockname :: "int \<Rightarrow> int \<Rightarrow> ('w tcp_world_scheme, int \<times> sockaddr_in option) M" where
  "sys_getsockname pid fd = with_ops pid fd (- EBADF, None) inet_getsockname"

text \<open>The argument of \<open>F_SETFL\<close> is absent when the variadic pack is empty.\<close>

definition sys_fcntl :: "int \<Rightarrow> int \<Rightarrow> int \<Rightarrow> int option \<Rightarrow> ('w tcp_world_scheme, int) M" where
  "sys_fcntl pid fd cmd arg = with_socket pid fd (- EBADF) (\<lambda>so.
     if cmd = F_GETFL then bnd (load sockets so) (\<lambda>s. ret (so_flags s))
     else if cmd = F_SETFL
     then (case arg of None \<Rightarrow> ret (- EINVAL)
       | Some v \<Rightarrow> sq (upd_so so (\<lambda>s. s\<lparr>so_flags := v\<rparr>)) (ret 0))
     else ret (-1))"

text \<open>The result is the return code with the value written to \<open>optval\<close> (and 4 to \<open>optlen\<close>).\<close>

definition sys_getsockopt :: "int \<Rightarrow> int \<Rightarrow> int \<Rightarrow> int \<Rightarrow> ('w tcp_world_scheme, int \<times> int option) M" where
  "sys_getsockopt pid fd level optname = with_socket pid fd (- EBADF, None) (\<lambda>so.
     if level \<noteq> SOL_SOCKET then ret (- EINVAL, None)
     else if optname \<noteq> SO_ERROR then ret (- ENOPROTOOPT, None)
     else bnd (load sockets so) (\<lambda>s. bnd (get_err (so_sk s)) (\<lambda>e. ret (0, Some e))))"

section \<open>Polling\<close>

record pollfd =
  pf_fd :: int
  pf_events :: u16
  pf_revents :: u16

text \<open>
  One pass over the descriptors: the array with the new events and the number of ready
  ones, or \<open>None\<close> at the first unknown descriptor. \<open>revents\<close> is a \<open>short\<close>, so it is
  positive when its top bit is clear.
\<close>

primrec poll_pass :: "int \<Rightarrow> pollfd list \<Rightarrow> int \<Rightarrow> ('w tcp_world_scheme, pollfd list \<times> int option) M" where
  "poll_pass pid [] polled = ret ([], Some polled)"
| "poll_pass pid (p # ps) polled = bnd (get_socket pid (pf_fd p)) (\<lambda>so.
     if so = null then ret (p # ps, None)
     else sq (socket_rd_acquire so) (bnd (load sockets so) (\<lambda>s. bnd (load socks (so_sk s)) (\<lambda>k.
       bnd (ret (poll_events k AND (pf_events p OR POLLHUP OR POLLERR OR POLLNVAL))) (\<lambda>r.
       sq (socket_release so)
         (bnd (poll_pass pid ps (if 0 < sint r then polled + 1 else polled)) (\<lambda>(qs, n).
           ret (p\<lparr>pf_revents := r\<rparr> # qs, n))))))))"

partial_function (option) sys_poll ::
    "'w others \<Rightarrow> int \<Rightarrow> pollfd list \<Rightarrow> int \<Rightarrow> ('w tcp_world_scheme, pollfd list \<times> int) M" where
  "sys_poll others pid fds timeout w =
     bnd (poll_pass pid fds 0) (\<lambda>(fds', r). case r of
         None \<Rightarrow> ret (fds', - EBADF)
       | Some polled \<Rightarrow>
         if 0 < polled \<or> timeout = 0 then ret (fds', polled)
         else sq others (sys_poll others pid fds'
           (if 0 < timeout then (if 10 < timeout then timeout - 10 else 0) else timeout))) w"

declare sys_poll.simps [code]

section \<open>All sockets\<close>

definition abort_sockets_body :: "'w ip_out \<Rightarrow> ptr \<Rightarrow> unit \<Rightarrow> ('w tcp_world_scheme, bool \<times> unit) M" where
  "abort_sockets_body ipo pos u = bnd (load sockets (list_entry pos 0)) (\<lambda>s.
     if \<not> so_ops s then fail NullDeref
     else sq (inet_abort ipo (list_entry pos 0)) (ret (False, ())))"

definition abort_sockets :: "'w ip_out \<Rightarrow> ('w tcp_world_scheme, unit) M" where
  "abort_sockets ipo = bnd (get sockets_queue) (\<lambda>q. list_for_each_safe q (abort_sockets_body ipo) ())"

section \<open>The timer service with its debugging output\<close>

text \<open>
  Every 5000 ticks the service prints the sockets and counts the timers. Printing a socket
  takes its lock and follows its \<open>sk\<close>; the text itself is left out.
\<close>

definition socket_debug_body :: "ptr \<Rightarrow> unit \<Rightarrow> ('w tcp_world_scheme, bool \<times> unit) M" where
  "socket_debug_body pos u = sq (socket_rd_acquire (list_entry pos 0))
     (bnd (load sockets (list_entry pos 0)) (\<lambda>s. bnd (load socks (so_sk s)) (\<lambda>k.
     sq (queue_size (receive_queue k)) (sq (queue_size (write_queue k))
     (sq (socket_release (list_entry pos 0)) (ret (False, ())))))))"

definition socket_debug :: "('w tcp_world_scheme, unit) M" where
  "socket_debug = bnd (get sockets_queue) (\<lambda>q. list_for_each q socket_debug_body ())"

definition timer_debug :: "('w tcp_world_scheme, int) M" where
  "timer_debug = bnd (get timers_queue) (\<lambda>q.
     list_for_each q (\<lambda>pos cnt. bnd (arith (cnt + 1)) (\<lambda>n. ret (False, n))) 0)"

definition timers_start_round :: "('w tcp_world_scheme, unit) M" where
  "timers_start_round = sq timers_start_step (bnd (get tick) (\<lambda>now.
     onlyif (5000 dvd sint now) (sq socket_debug (sq timer_debug skip))))"

end
