(* ===== verification/Stack_Rules.thy ===== *)
theory Stack_Rules
  imports System_Calls
begin

text \<open>
  What the whole of TCP and of the socket layer keeps, as rules over an interface.

  The locale \<open>stack_rel\<close> fixes a relation \<open>R\<close> between states and the function \<open>ipo\<close> of the
  layer below, and asks that the elementary updates of the state and \<open>ipo\<close> keep \<open>R\<close>; inside
  it every function of the stack is shown to keep \<open>R\<close>, following the code's shape. It is
  interpreted on the stack's own \<open>ip_output\<close>, once for an invariant of the state and once
  for the part of the state the stack does not own.
\<close>

unbundle bit_operations_syntax

section \<open>Traversals and loops\<close>

text \<open>
  A loop keeps a reflexive and transitive relation when its body does: fixed-point
  induction, for which what \<open>keeps\<close> says of a partial function is admissible.
\<close>

lemma keeps_admissible: "option.admissible (\<lambda>F. \<forall>a. keeps R (\<lambda>w. F (g a w)))"
proof -
  have eq: "(\<lambda>F. \<forall>a. keeps R (\<lambda>w. F (g a w)))
      = (\<lambda>F. \<forall>x y. F x = Some y \<longrightarrow> (\<forall>a w z w'. x = g a w \<longrightarrow> y = Inr (z, w') \<longrightarrow> R w w'))"
    by (auto simp: keeps_def fun_eq_iff)
  show ?thesis
    unfolding eq by (rule option_admissible)
qed

lemma keeps_None [keep]: "keeps R (\<lambda>w. None)"
  by (simp add: keeps_def)

lemma keeps_if_apply [keep]:
  "(c \<Longrightarrow> keeps R m) \<Longrightarrow> (\<not> c \<Longrightarrow> keeps R n) \<Longrightarrow> keeps R (\<lambda>w. if c then m w else n w)"
  by (cases c) simp_all

lemma keeps_Ok [keep]: "reflp R \<Longrightarrow> keeps R (Ok x)"
  by (simp add: keeps_def reflp_def)

lemma keeps_list_for_each [keep]:
  assumes "reflp R" and "transp R" and f: "\<And>p s. keeps R (f p s)"
  shows "keeps R (list_for_each head f s)"
proof -
  have "\<forall>(pos, s) \<in> UNIV. keeps R (list_for_each_from head pos f s)"
  proof (rule list_for_each_from.fixp_induct [where P = "\<lambda>F. \<forall>(pos, s) \<in> UNIV. keeps R (F head pos f s)"])
    show "option.admissible (\<lambda>F. \<forall>(pos, s) \<in> UNIV. keeps R ((curry (curry (curry (curry F)))) head pos f s))"
      using keeps_admissible [of R "\<lambda>(pos, s) w. ((((head, pos), f), s), w)"] by (simp add: curry_def split_def)
  qed (use assms in \<open>auto intro!: keep\<close>)
  then show ?thesis using assms unfolding list_for_each_def by (auto intro!: keep)
qed

lemma keeps_list_for_each_safe [keep]:
  assumes "reflp R" and "transp R" and f: "\<And>p s. keeps R (f p s)"
  shows "keeps R (list_for_each_safe head f s)"
proof -
  have "\<forall>(pos, p, s) \<in> UNIV. keeps R (list_for_each_safe_from head pos p f s)"
  proof (rule list_for_each_safe_from.fixp_induct [where P = "\<lambda>F. \<forall>(pos, p, s) \<in> UNIV. keeps R (F head pos p f s)"])
    show "option.admissible (\<lambda>F. \<forall>(pos, p, s) \<in> UNIV. keeps R ((curry (curry (curry (curry (curry F))))) head pos p f s))"
      using keeps_admissible [of R "\<lambda>(pos, p, s) w. (((((head, pos), p), f), s), w)"] by (simp add: curry_def split_def)
  qed (use assms in \<open>auto intro!: keep\<close>)
  then show ?thesis using assms unfolding list_for_each_safe_def by (auto intro!: keep)
qed

lemma keeps_clear_queue [keep]:
  assumes "reflp R" and "transp R" and "keeps R (dequeue q)" and "\<And>p. keeps R (f p)"
  shows "keeps R (clear_queue q f)"
proof (rule clear_queue.fixp_induct [where P = "\<lambda>F. keeps R (F q f)"])
  show "option.admissible (\<lambda>F. keeps R ((curry (curry F)) q f))"
    using keeps_admissible [of R "\<lambda>_ w. ((q, f), w)"] by (simp add: curry_def)
qed (use assms in \<open>auto intro!: keep\<close>)


lemma keeps_tcp_state [keep]:
  "keeps R a0 \<Longrightarrow> keeps R a1 \<Longrightarrow> keeps R a2 \<Longrightarrow> keeps R a3 \<Longrightarrow> keeps R a4 \<Longrightarrow> keeps R a5 \<Longrightarrow>
   keeps R a6 \<Longrightarrow> keeps R a7 \<Longrightarrow> keeps R a8 \<Longrightarrow> keeps R a9 \<Longrightarrow> keeps R a10 \<Longrightarrow>
   keeps R (case s of TCP_LISTEN \<Rightarrow> a0 | TCP_SYN_SENT \<Rightarrow> a1 | TCP_SYN_RECEIVED \<Rightarrow> a2 | TCP_ESTABLISHED \<Rightarrow> a3
     | TCP_FIN_WAIT_1 \<Rightarrow> a4 | TCP_FIN_WAIT_2 \<Rightarrow> a5 | TCP_CLOSE \<Rightarrow> a6 | TCP_CLOSE_WAIT \<Rightarrow> a7
     | TCP_CLOSING \<Rightarrow> a8 | TCP_LAST_ACK \<Rightarrow> a9 | TCP_TIME_WAIT \<Rightarrow> a10)"
  by (cases s) simp_all

lemma keeps_socket_state [keep]:
  "keeps R a0 \<Longrightarrow> keeps R a1 \<Longrightarrow> keeps R a2 \<Longrightarrow> keeps R a3 \<Longrightarrow> keeps R a4 \<Longrightarrow>
   keeps R (case s of SS_FREE \<Rightarrow> a0 | SS_UNCONNECTED \<Rightarrow> a1 | SS_CONNECTING \<Rightarrow> a2
     | SS_CONNECTED \<Rightarrow> a3 | SS_DISCONNECTING \<Rightarrow> a4)"
  by (cases s) simp_all

section \<open>The state machine\<close>

text \<open>
  The arcs of the TCP connection diagram (RFC 793, figure 6) that the code takes. The
  figure's arcs into CLOSED and those into TIME-WAIT from FIN-WAIT-1 and FIN-WAIT-2 are
  missing: they go through the teardown of the timers, which faults.
\<close>

inductive tcp_move :: "tcp_state \<Rightarrow> tcp_state \<Rightarrow> bool" where
  Open: "s \<in> {TCP_CLOSE, TCP_LISTEN} \<Longrightarrow> tcp_move s TCP_SYN_SENT"
| Simultaneous_Open: "tcp_move TCP_SYN_SENT TCP_SYN_RECEIVED"
| Handshake: "s \<in> {TCP_SYN_SENT, TCP_SYN_RECEIVED} \<Longrightarrow> tcp_move s TCP_ESTABLISHED"
| Peer_Fin: "s \<in> {TCP_SYN_RECEIVED, TCP_ESTABLISHED} \<Longrightarrow> tcp_move s TCP_CLOSE_WAIT"
| User_Close: "tcp_move TCP_ESTABLISHED TCP_FIN_WAIT_1"
| Fin_Acked: "tcp_move TCP_FIN_WAIT_1 TCP_FIN_WAIT_2"
| Simultaneous_Close: "tcp_move TCP_FIN_WAIT_1 TCP_CLOSING"
| Both_Acked: "tcp_move TCP_CLOSING TCP_TIME_WAIT"
| Last_Fin: "tcp_move TCP_CLOSE_WAIT TCP_LAST_ACK"

inductive_simps tcp_move_simps [simp]: "tcp_move s t"
inductive_cases tcp_moveE [elim]: "tcp_move s t"

text \<open>
  \<open>keeps_when P R m\<close>: \<open>m\<close> keeps \<open>R\<close> from the states that satisfy \<open>P\<close>. The
  precondition of interest is \<open>in_state sk s\<close>: the sock at \<open>sk\<close> is in the TCP state
  \<open>s\<close>. It is established by reading the sock and lasts as long as the socks are not
  changed.
\<close>

definition keeps_when :: "('w \<Rightarrow> bool) \<Rightarrow> ('w \<Rightarrow> 'w \<Rightarrow> bool) \<Rightarrow> ('w, 'a) M \<Rightarrow> bool" where
  "keeps_when P R m \<longleftrightarrow> (\<forall>w x w'. P w \<longrightarrow> m w = Ok x w' \<longrightarrow> R w w')"

definition in_state :: "ptr \<Rightarrow> tcp_state \<Rightarrow> 'w sock_world_scheme \<Rightarrow> bool" where
  "in_state sk s w \<longleftrightarrow> (\<exists>k. socks w sk = Some k \<and> sk_state k = s)"

lemma keeps_when_any: "keeps R m \<Longrightarrow> keeps_when P R m"
  by (simp add: keeps_when_def keeps_def)

lemma keeps_when_upd: "(\<And>w. P w \<Longrightarrow> R w (g w)) \<Longrightarrow> keeps_when P R (upd g)"
  by (simp add: keeps_when_def upd_apply)

lemma keeps_when_last:
  "transp R \<Longrightarrow> keeps_when P R m \<Longrightarrow> (\<And>x. keeps R (f x)) \<Longrightarrow> keeps_when P R (bnd m f)"
  unfolding keeps_when_def by (blast dest: keepsD transpD)

lemma keeps_when_bnd:
  assumes "transp R" and "keeps R m" and "keeps (same socks) m"
    and "\<And>x. keeps_when (in_state sk s) R (f x)"
  shows "keeps_when (in_state sk s) R (bnd m f)"
  unfolding keeps_when_def
proof (intro allI impI)
  fix w y w'
  assume "in_state sk s w" and "bnd m f w = Ok y w'"
  then obtain x u where run: "m w = Ok x u" "f x u = Ok y w'" by (elim bnd_OkE)
  with \<open>in_state sk s w\<close> have "in_state sk s u"
    using keepsD [OF assms(3)] by (auto simp: in_state_def same_def)
  then have "R u w'" using assms(4) run(2) by (simp add: keeps_when_def)
  with keepsD [OF assms(2) run(1)] show "R w w'" using assms(1) by (elim transpE)
qed

lemma keeps_load_state:
  "(\<And>k. keeps_when (in_state sk (sk_state k)) R (f k)) \<Longrightarrow> keeps R (bnd (load socks sk) f)"
  unfolding keeps_def keeps_when_def in_state_def by (auto elim!: bnd_OkE)

lemma keeps_when_state:
  assumes "s = TCP_LISTEN \<Longrightarrow> keeps_when P R a0" "s = TCP_SYN_SENT \<Longrightarrow> keeps_when P R a1"
    "s = TCP_SYN_RECEIVED \<Longrightarrow> keeps_when P R a2" "s = TCP_ESTABLISHED \<Longrightarrow> keeps_when P R a3"
    "s = TCP_FIN_WAIT_1 \<Longrightarrow> keeps_when P R a4" "s = TCP_FIN_WAIT_2 \<Longrightarrow> keeps_when P R a5"
    "s = TCP_CLOSE \<Longrightarrow> keeps_when P R a6" "s = TCP_CLOSE_WAIT \<Longrightarrow> keeps_when P R a7"
    "s = TCP_CLOSING \<Longrightarrow> keeps_when P R a8" "s = TCP_LAST_ACK \<Longrightarrow> keeps_when P R a9"
    "s = TCP_TIME_WAIT \<Longrightarrow> keeps_when P R a10"
  shows "keeps_when P R (case s of TCP_LISTEN \<Rightarrow> a0 | TCP_SYN_SENT \<Rightarrow> a1 | TCP_SYN_RECEIVED \<Rightarrow> a2
     | TCP_ESTABLISHED \<Rightarrow> a3 | TCP_FIN_WAIT_1 \<Rightarrow> a4 | TCP_FIN_WAIT_2 \<Rightarrow> a5 | TCP_CLOSE \<Rightarrow> a6
     | TCP_CLOSE_WAIT \<Rightarrow> a7 | TCP_CLOSING \<Rightarrow> a8 | TCP_LAST_ACK \<Rightarrow> a9 | TCP_TIME_WAIT \<Rightarrow> a10)"
  using assms by (cases s) simp_all

lemma keeps_when_if:
  "(c \<Longrightarrow> keeps_when P R m) \<Longrightarrow> (\<not> c \<Longrightarrow> keeps_when P R n) \<Longrightarrow> keeps_when P R (if c then m else n)"
  by simp

text \<open>Teardown never returns, so it keeps everything.\<close>

lemma tcp_clear_timers_never: "tcp_clear_timers sk w \<noteq> Ok x w'"
  using tcp_clear_timers_faults [of sk w] by auto

lemma keeps_teardown [keep]:
  "keeps R (tcp_clear_timers sk)"
  "keeps R (tcp_free sk)"
  "keeps R (tcp_done sk)"
  "keeps R (tcp_enter_time_wait sk)"
  unfolding tcp_free_def tcp_done_def tcp_enter_time_wait_def keeps_def
  by (auto simp: tcp_clear_timers_never)

lemma keeps_new_addr:
  assumes "reflp R" and "transp R" and "\<And>f. keeps R (upd (pool_update f))"
  shows "keeps R new_addr"
  unfolding new_addr_def using assms by (auto intro!: keep)

text \<open>A relation that does not look at the socks, and one that does not look at the pool.\<close>

lemma keeps_socks_any:
  assumes "reflp R" and "transp R" and "\<And>f. keeps R (upd (socks_update f))"
  shows "keeps R (upd_sk p g)" and "keeps_when P R (tcp_set_state p st)"
  unfolding tcp_set_state_def upd_sk_def using assms by (auto intro!: keep keeps_when_any)

section \<open>The interface\<close>

text \<open>
  What an update of a \<open>Tcp_Sock\<close> may rely on and must leave: both segment sizes in their
  bounds, the SACK switch 0 or 1, and room for four blocks.
\<close>

definition tsk_ok :: "tcp_sock \<Rightarrow> bool" where
  "tsk_ok t \<longleftrightarrow> 536 \<le> smss t \<and> smss t \<le> 1460 \<and> rmss t = 1460 \<and> sackok t \<le> 1 \<and> length (sacks t) = 4"

lemma tsk_ok_cong [simp]:
  "tsk_ok (t\<lparr>tcp_header_len := a\<rparr>) = tsk_ok t" "tsk_ok (t\<lparr>tcb := b\<rparr>) = tsk_ok t"
  "tsk_ok (t\<lparr>tflags := c\<rparr>) = tsk_ok t" "tsk_ok (t\<lparr>backoff := c\<rparr>) = tsk_ok t"
  "tsk_ok (t\<lparr>srtt := i\<rparr>) = tsk_ok t" "tsk_ok (t\<lparr>rttvar := i\<rparr>) = tsk_ok t"
  "tsk_ok (t\<lparr>rto := r\<rparr>) = tsk_ok t" "tsk_ok (t\<lparr>retransmit := p\<rparr>) = tsk_ok t"
  "tsk_ok (t\<lparr>delack := p\<rparr>) = tsk_ok t" "tsk_ok (t\<lparr>keepalive := p\<rparr>) = tsk_ok t"
  "tsk_ok (t\<lparr>linger := p\<rparr>) = tsk_ok t" "tsk_ok (t\<lparr>delacks := c\<rparr>) = tsk_ok t"
  "tsk_ok (t\<lparr>cwnd := a\<rparr>) = tsk_ok t" "tsk_ok (t\<lparr>inflight := r\<rparr>) = tsk_ok t"
  "tsk_ok (t\<lparr>sacks_allowed := c\<rparr>) = tsk_ok t" "tsk_ok (t\<lparr>sacklen := c\<rparr>) = tsk_ok t"
  "tsk_ok (t\<lparr>tsopt := c\<rparr>) = tsk_ok t" "tsk_ok (t\<lparr>ofo_queue := p\<rparr>) = tsk_ok t"
  "tsk_ok (t\<lparr>sacks := (sacks t)[k := z]\<rparr>) = tsk_ok t"
  "tsk_ok t \<Longrightarrow> tsk_ok (t\<lparr>sackok := 0\<rparr>)"
  "tsk_ok t \<Longrightarrow> 536 < m \<Longrightarrow> m \<le> 1460 \<Longrightarrow> tsk_ok (t\<lparr>smss := m\<rparr>)"
  by (simp_all add: tsk_ok_def)

locale buffer_rel =
  fixes R :: "'w skb_world_scheme \<Rightarrow> 'w skb_world_scheme \<Rightarrow> bool"
  assumes R_refl: "reflp R"
    and R_trans: "transp R"
    and R_nodes: "keeps R (upd (nodes_update f1))"
    and R_queues: "keeps R (upd (queues_update f2))"
    and R_skbs: "keeps R (upd (skbs_update f3))"
    and R_new: "keeps R new_addr"

locale sock_rel = buffer_rel R
  for R :: "'w tcp_world_scheme \<Rightarrow> 'w tcp_world_scheme \<Rightarrow> bool" +
  assumes R_timers: "keeps R (upd (timers_update f5))"
    and R_tick: "keeps R (upd (tick_update f6))"
    and R_spawned: "keeps R (upd (spawned_update f7))"
    and R_sk: "(\<And>k. sk_state (f8 k) = sk_state k) \<Longrightarrow> keeps R (upd_sk p f8)"
    and R_move: "s = s' \<or> tcp_move s s' \<Longrightarrow> keeps_when (in_state p s) R (tcp_set_state p s')"
    and R_sk_del: "keeps R (upd (socks_update (\<lambda>h. h(p := None))))"
    and R_trace: "keeps R (upd (tcp_out_update f9))"
    and R_tsk: "(\<And>t. tsk_ok t \<Longrightarrow> tsk_ok (g t)) \<Longrightarrow> keeps R (upd_tsk p g)"
    and R_tsk_new: "keeps R (tcp_alloc_sock raw_sk)"
    and R_tsk_del: "keeps R (upd (tsks_update (\<lambda>h. h(p := None))))"

locale output_rel = sock_rel R
  for R :: "'w tcp_world_scheme \<Rightarrow> 'w tcp_world_scheme \<Rightarrow> bool" +
  fixes ipo :: "ptr \<Rightarrow> ptr \<Rightarrow> ('w tcp_world_scheme, int) M"
  assumes R_ipo: "keeps R (ipo sk skb)"

locale socket_rel = sock_rel R
  for R :: "'w tcp_world_scheme \<Rightarrow> 'w tcp_world_scheme \<Rightarrow> bool" +
  assumes R_amount: "keeps R (upd (sock_amount_update f10))"
    and R_socket: "(\<And>s. so_fd (f s) = so_fd s) \<Longrightarrow> keeps R (upd_so p f)"
    and R_socket_new: "keeps R (upd (sockets_update (\<lambda>h. h(p \<mapsto> Socket_init raw n pid))))"
    and R_socket_del: "keeps R (upd (sockets_update (\<lambda>h. h(p := None))))"

locale stack_rel = output_rel R ipo + socket_rel R
  for R :: "'w tcp_world_scheme \<Rightarrow> 'w tcp_world_scheme \<Rightarrow> bool"
    and ipo :: "ptr \<Rightarrow> ptr \<Rightarrow> ('w tcp_world_scheme, int) M"

context buffer_rel begin

lemmas R_buffer_rules [keep] = R_refl R_trans R_nodes R_queues R_skbs R_new

lemma R_queue_ops [keep]:
  "keeps R (list_add q x a b)"
  "keeps R (isEmpty q)"
  "keeps R (queue_size q)"
  "keeps R (queue_first_entry q)"
  "keeps R (queue_add q x)"
  "keeps R (queue_add_tail q x)"
  "keeps R (queue_add_before q x t)"
  "keeps R (queue_del q x)"
  "keeps R (dequeue q)"
  "keeps R (init_node x)"
  "keeps R (queue_init q off)"
  unfolding list_add_def isEmpty_def queue_size_def queue_first_entry_def queue_add_def
    queue_add_tail_def queue_add_before_def queue_del_def dequeue_def set_prev_def set_next_def
    set_len_def init_node_def queue_init_def
  by (auto intro!: keep)

lemma R_skb_ops [keep]:
  "keeps R (upd_skb p f)"
  "keeps R (read_buf p i n)"
  "keeps R (write_buf p i bs)"
  "keeps R (SkBuff_new n)"
  "keeps R (SkBuff_delete p)"
  "keeps R (reserve_headroom p i)"
  "keeps R (push p i)"
  "keeps R (reset_header p)"
  "keeps R (free_skb p)"
  "keeps R (skb_put p)"
  "keeps R (skb_queue_free p)"
  unfolding upd_skb_def read_buf_def write_buf_def SkBuff_new_def SkBuff_delete_def
    reserve_headroom_def push_def reset_header_def free_skb_def skb_put_def skb_queue_free_def
  by (auto intro!: keep)

lemma R_hdr_ops [keep]:
  "keeps R (read_hdr p)"
  "keeps R (write_hdr p h)"
  "keeps R (upd_hdr p k)"
  "keeps R (load_ip_hdr p)"
  "keeps R (store_ip_hdr p i)"
  "keeps R (upd_ip_hdr p f)"
  unfolding read_hdr_def write_hdr_def upd_hdr_def load_ip_hdr_def store_ip_hdr_def upd_ip_hdr_def
    Let_def
  by (auto intro!: keep)

end

text \<open>What leaves the socks alone lets a precondition on a TCP state last.\<close>

interpretation same_socks: buffer_rel "same socks"
  by unfold_locales (auto simp: same_def intro!: keep keeps_new_addr keeps_upd)

lemma same_socks_ops [keep]:
  "keeps (same socks) (upd_tsk p g)"
  "keeps (same socks) (upd_tcb p e)"
  "keeps (same socks) (get_tcb p)"
  "keeps (same socks) (tcp_syn_options p)"
  "keeps (same socks) (tcp_alloc_skb a b)"
  "keeps (same socks) (tcp_write_syn_options p opts n)"
  unfolding upd_tsk_def upd_tcb_def get_tcb_def tcp_syn_options_def tcp_alloc_skb_def
    tcp_write_syn_options_def Let_def
  by (auto simp: same_def intro!: keep keeps_upd)

section \<open>Timers and TCP without sockets\<close>

context sock_rel begin

lemmas R_sock_rules [keep] = R_timers R_tick R_spawned R_sk R_sk_del R_trace R_tsk R_tsk_new R_tsk_del

lemma R_tcb_ops [keep]:
  "keeps R (upd_tcb p e)"
  "keeps R (get_tcb p)"
  unfolding upd_tcb_def get_tcb_def by (auto intro!: keep)

lemma R_timer_ops [keep]:
  "keeps R (upd_timer p f)"
  "keeps R timer_get_tick"
  "keeps R (Timer_create n h ty)"
  "keeps R (Timer_release p)"
  "keeps R (Timer_cancel p)"
  "keeps R (timer_free p)"
  "keeps R (timers_tick_body p u)"
  "keeps R timers_tick"
  "keeps R timers_start_step"
  unfolding upd_timer_def timer_get_tick_def Timer_create_def Timer_release_def
    Timer_cancel_def timer_free_def timers_tick_body_def timers_tick_def timers_start_step_def
  by (auto intro!: keep)

lemma R_sk_ops [keep]:
  "keeps R (recv_wakeup p)"
  "keeps R (sock_free p)"
  "keeps R (write_queue_head p)"
  "keeps R (socket_find p)"
  "keeps R (get_socket pid fd)"
  "keeps R (socket_lookup rp lp)"
  "keeps R (inet_lookup p rp lp)"
  unfolding recv_wakeup_def sock_free_def write_queue_head_def socket_find_def socket_find_body_def get_socket_def get_socket_body_def socket_lookup_def socket_lookup_body_def inet_lookup_def
  by (auto intro!: keep)

lemmas R_move_last = keeps_when_last [OF R_trans R_move]

lemma R_tcp_handle_fin_state [keep]: "keeps R (tcp_handle_fin_state sk)"
  unfolding tcp_handle_fin_state_def
  by (intro keeps_load_state keeps_when_state R_move keeps_when_any keep) simp_all

lemma R_core_ops [keep]:
  "keeps R (tcp_recv_notify sk)"
  "keeps R (tcp_stop_rto_timer sk)"
  "keeps R (tcp_release_rto_timer sk)"
  "keeps R (tcp_stop_delack_timer sk)"
  "keeps R (tcp_release_delack_timer sk)"
  "keeps R (tcp_clear_queues sk)"
  "keeps R (tcp_rearm_user_timeout sk)"
  "keeps R (tcp_rtt sk)"
  "keeps R (tcp_init_segment p)"
  "keeps R (tcp_v4_checksum p sa da)"
  unfolding tcp_recv_notify_def tcp_stop_rto_timer_def tcp_release_rto_timer_def
    tcp_stop_delack_timer_def tcp_release_delack_timer_def tcp_clear_queues_def
    tcp_rearm_user_timeout_def tcp_rtt_def tcp_init_segment_def tcp_v4_checksum_def Let_def
  by (auto intro!: keep)

lemma R_sack_ops [keep]:
  "keeps R (get_sack sk i)"
  "keeps R (set_sack sk i f)"
  "keeps R (tcp_calculate_sacks_body sk p n)"
  "keeps R (tcp_calculate_sacks sk)"
  unfolding get_sack_def set_sack_def tcp_calculate_sacks_body_def tcp_calculate_sacks_def
  by (auto intro!: keep)

lemma R_tcp_write_sacks [keep]: "keeps R (tcp_write_sacks sk p i m)"
  by (induction m arbitrary: i) (auto intro!: keep)

lemma R_tcp_options_len_loop [keep]: "keeps R (tcp_options_len_loop sk is k)"
  by (induction "is" arbitrary: k) (auto intro!: keep)

lemma R_options_ops [keep]:
  "keeps R (tcp_alloc_skb a b)"
  "keeps R (tcp_write_syn_options p opts n)"
  "keeps R (tcp_syn_options sk)"
  "keeps R (tcp_write_options sk p)"
  "keeps R (tcp_options_len sk)"
  "keeps R (tcp_out_dbg sk p)"
  unfolding tcp_alloc_skb_def tcp_write_syn_options_def tcp_syn_options_def tcp_write_options_def
    tcp_options_len_def tcp_out_dbg_def Let_def
  by (auto intro!: keep)

end

section \<open>Output\<close>

context output_rel begin

lemmas R_ipo_rule [keep] = R_ipo

lemma R_tcp_transmit_ops [keep]:
  "keeps R (tcp_transmit_skb ipo sk p n)"
  "keeps R (tcp_rearm_rto_timer sk)"
  "keeps R (tcp_queue_transmit_skb ipo sk p)"
  unfolding tcp_transmit_skb_def tcp_rearm_rto_timer_def tcp_queue_transmit_skb_def Let_def
  by (auto intro!: keep)

text \<open>A SYN is only sent from the states a connection is opened in.\<close>

lemma R_tcp_send_syn [keep]: "keeps R (tcp_send_syn ipo sk)"
  unfolding tcp_send_syn_def split_def
  by (intro keeps_load_state keeps_when_if keeps_when_bnd keeps_when_any R_move_last keep) auto

lemma R_output_ops [keep]:
  "keeps R (tcp_send_synsack ipo sk)"
  "keeps R (tcp_send_next_body ipo sk i p st)"
  "keeps R (tcp_send_next ipo sk i)"
  "keeps R (tcp_send_ack ipo sk)"
  "keeps R (tcp_send_fin ipo sk)"
  "keeps R (tcp_queue_fin ipo sk)"
  "keeps R (tcp_send_reset ipo sk)"
  "keeps R (tcp_send_challenge_ack sk p)"
  "keeps R (tcp_connect ipo sk)"
  unfolding tcp_send_synsack_def tcp_send_next_body_def tcp_send_next_def tcp_send_ack_def
    tcp_send_fin_def tcp_queue_fin_def tcp_send_reset_def tcp_send_challenge_ack_def
    tcp_connect_def Let_def
  by (auto intro!: keep)

lemma R_tcp_send_loop [keep]: "keeps R (tcp_send_loop ipo sk mss n bs i)"
proof -
  have "\<forall>a. keeps R (tcp_send_loop ipo sk mss n (fst a) (snd a))"
  proof (rule tcp_send_loop.fixp_induct [where P = "\<lambda>F. \<forall>a. keeps R (F ipo sk mss n (fst a) (snd a))"])
    show "option.admissible (\<lambda>F. \<forall>a. keeps R
        ((curry (curry (curry (curry (curry (curry F)))))) ipo sk mss n (fst a) (snd a)))"
      using keeps_admissible [of R "\<lambda>a w. ((((((ipo, sk), mss), n), fst a), snd a), w)"]
      by (simp add: curry_def)
  qed (auto intro!: keep)
  then show ?thesis by (metis fst_conv snd_conv)
qed

lemma R_tcp_consume_ofo_queue [keep]: "keeps R (tcp_consume_ofo_queue sk)"
proof (rule tcp_consume_ofo_queue.fixp_induct [where P = "\<lambda>F. keeps R (F sk)"])
  show "option.admissible (\<lambda>F. keeps R (curry F sk))"
    using keeps_admissible [of R "\<lambda>_ w. (sk, w)"] by (simp add: curry_def)
qed (auto intro!: keep)

lemma R_tcp_clean_rto_loop [keep]: "keeps R (tcp_clean_rto_loop sk una)"
proof (rule tcp_clean_rto_loop.fixp_induct [where P = "\<lambda>F. keeps R (F sk una)"])
  show "option.admissible (\<lambda>F. keeps R ((curry (curry F)) sk una))"
    using keeps_admissible [of R "\<lambda>_ w. ((sk, una), w)"] by (simp add: curry_def)
qed (auto intro!: keep)

lemma R_tcp_parse_loop [keep]: "keeps R (tcp_parse_loop sk p i n s ts)"
proof (induction sk p i n s ts rule: tcp_parse_loop.induct)
  case (1 sk p i n s ts)
  have mss: "keeps R (tcp_parse_mss sk p i)" for i
    unfolding tcp_parse_mss_def Let_def by (auto intro!: keep)
  have tail: "keeps R (tcp_parse_tail sk a b)" for a b
    unfolding tcp_parse_tail_def by (auto intro!: keep)
  show ?case
    by (subst tcp_parse_loop.simps) (use 1 mss tail in \<open>auto intro!: keep\<close>)
qed

lemma R_data_ops [keep]:
  "keeps R (tcp_send ipo sk bs i)"
  "keeps R (tcp_data_insert_ordered q p)"
  "keeps R (tcp_data_queue ipo sk p)"
  "keeps R (tcp_parse_opts sk p)"
  "keeps R (tcp_clean_rto_queue sk una)"
  unfolding tcp_send_def tcp_data_insert_ordered_def tcp_data_insert_ordered_body_def
    tcp_data_queue_def tcp_parse_opts_def tcp_clean_rto_queue_def
  by (auto intro!: keep)

lemma R_connect_ops [keep]:
  "keeps R generate_port"
  "keeps R (tcp_v4_connect ipo sk port a)"
  "keeps R (get_err sk)"
  "keeps R (set_err sk i)"
  unfolding generate_port_def tcp_v4_connect_def get_err_def set_err_def
  by (auto intro!: keep)

end

section \<open>Sockets\<close>

context socket_rel begin

lemmas R_socket_rules [keep] = R_amount R_socket R_socket_new R_socket_del

lemma R_sock_ops [keep]:
  "keeps R (socket_wr_acquire p)"
  "keeps R (socket_rd_acquire p)"
  "keeps R (Socket_delete p)"
  "keeps R (socket_release p)"
  "keeps R (socket_wakeup p)"
  "keeps R (socket_delete p)"
  "keeps R (sock_connected p)"
  "keeps R (sock_init_data p r)"
  unfolding socket_wr_acquire_def socket_rd_acquire_def socket_release_def
    Socket_delete_def socket_wakeup_def socket_delete_def sock_connected_def
    sock_init_data_def by (auto intro!: keep)

end

section \<open>Input, handlers and system calls\<close>

context stack_rel begin

lemma R_handler_ops [keep]:
  "keeps R (tcp_notify_user sk)"
  "keeps R (tcp_send_delack ipo sk)"
  "keeps R (tcp_connect_rto ipo sk)"
  "keeps R (tcp_retransmission_timeout ipo sk)"
  unfolding tcp_notify_user_def tcp_send_delack_def tcp_connect_rto_def
    tcp_retransmission_timeout_def by (auto intro!: keep)

lemma R_segment_ops [keep]:
  "keeps R (tcp_drop p)"
  "keeps R (tcp_verify_segment sk p)"
  "keeps R (tcp_reset sk)"
  "keeps R (tcp_discard p)"
  "keeps R (tcp_listen p)"
  "keeps R (tcp_closed ipo sk p)"
  "keeps R (input_ack sk p)"
  "keeps R (input_text ipo sk p)"
  "keeps R (input_delack ipo sk p)"
  unfolding tcp_drop_def tcp_verify_segment_def tcp_reset_def tcp_discard_def tcp_listen_def
    tcp_closed_def input_ack_def input_text_def input_delack_def
  by (auto intro!: keep)

text \<open>The arrival of a segment moves a connection along the arcs, from the state it is in.\<close>

lemma R_tcp_synsent: "keeps_when (in_state sk TCP_SYN_SENT) R (tcp_synsent ipo sk p)"
  unfolding tcp_synsent_def
  by (intro keeps_when_if keeps_when_bnd [where m = "read_hdr q" for q]
      keeps_when_bnd [where m = "upd_tcb q e" for q e] keeps_when_bnd [where m = "get_tcb q" for q]
      keeps_when_bnd [where m = "if c then n else skip" for c n]
      R_move_last keeps_when_last keeps_when_any keep) auto

lemma R_input_states [keep]: "keeps R (input_states sk p)"
  unfolding input_states_def
  by (intro keeps_load_state keeps_when_state keeps_when_if keeps_when_bnd R_move_last keeps_when_any keep) auto

lemma R_input_acked [keep]: "keeps R (input_acked ipo sk p)"
  unfolding input_acked_def
  by (intro keeps_load_state keeps_when_state keeps_when_if keeps_when_bnd R_move_last keeps_when_any keep) auto

lemma R_input_fin [keep]: "keeps R (input_fin ipo sk p b)"
proof -
  have "keeps R (bnd (load socks sk) (\<lambda>k. sq (case sk_state k of
      TCP_ESTABLISHED \<Rightarrow> tcp_set_state sk TCP_CLOSE_WAIT
    | TCP_SYN_RECEIVED \<Rightarrow> tcp_set_state sk TCP_CLOSE_WAIT
    | TCP_FIN_WAIT_1 \<Rightarrow> bnd (isEmpty (write_queue k)) (\<lambda>e.
        if e then tcp_enter_time_wait sk else tcp_set_state sk TCP_CLOSING)
    | TCP_FIN_WAIT_2 \<Rightarrow> tcp_enter_time_wait sk
    | _ \<Rightarrow> skip) (ret (None :: int option))))"
    by (intro keeps_load_state keeps_when_last keeps_when_state keeps_when_if
        keeps_when_bnd [where m = "isEmpty q" for q] R_move keeps_when_any keep) auto
  then show ?thesis unfolding input_fin_def by (auto intro!: keep)
qed

lemma R_tcp_input_state [keep]: "keeps R (tcp_input_state ipo sk p)"
  unfolding tcp_input_state_def
proof (intro keeps_load_state keeps_when_if)
  fix k
  assume "sk_state k = TCP_SYN_SENT"
  then show "keeps_when (in_state sk (sk_state k)) R (tcp_synsent ipo sk p)"
    using R_tcp_synsent by simp
qed (auto intro!: keep keeps_when_any)

lemma R_tcp_close [keep]: "keeps R (tcp_close ipo sk)"
  unfolding tcp_close_def
  by (intro keeps_load_state keeps_when_state R_move_last keeps_when_any keep) auto

lemma R_user_ops [keep]:
  "keeps R (tcp_disconnect sk flags)"
  "keeps R (tcp_write ipo sk bs i)"
  "keeps R (tcp_read sk i)"
  "keeps R (tcp_abort ipo sk)"
  "keeps R (tcp_in ipo p)"
  "keeps R (tcp_linger sk)"
  "keeps R (tcp_user_timeout ipo sk)"
  "keeps R (inet_free p)"
  "keeps R (socket_free p)"
  "keeps R (socket_garbage_collect p)"
  unfolding tcp_disconnect_def tcp_write_def tcp_read_def
    tcp_abort_def tcp_in_def tcp_linger_def tcp_user_timeout_def inet_free_def
    socket_free_def socket_garbage_collect_def
  by (auto intro!: keep)

lemma R_run_handler [keep]: "keeps R (run_handler ipo h)"
  by (cases h) (auto intro!: keep)

lemma R_inet_ops [keep]:
  "keeps R (sk_alloc raw)"
  "keeps R (inet_create raw p i)"
  "keeps R (inet_socket p i)"
  "keeps R (inet_write ipo p bs i)"
  "keeps R (inet_read p i)"
  "keeps R (inet_close ipo p)"
  "keeps R (inet_abort ipo p)"
  "keeps R (inet_getpeername p)"
  "keeps R (inet_getsockname p)"
  unfolding sk_alloc_def inet_create_def inet_socket_def inet_write_def
    inet_read_def inet_close_def inet_abort_def inet_getpeername_def inet_getsockname_def
  by (auto intro!: keep)

lemma R_connect_wait_loop [keep]:
  assumes "keeps R others"
  shows "keeps R (connect_wait_loop others so sk)"
proof (rule connect_wait_loop.fixp_induct [where P = "\<lambda>F. keeps R (F others so sk)"])
  show "option.admissible (\<lambda>F. keeps R ((curry (curry (curry F))) others so sk))"
    using keeps_admissible [of R "\<lambda>_ w. (((others, so), sk), w)"] by (simp add: curry_def)
qed (use assms in \<open>auto simp: socket_sleep_def intro!: keep\<close>)

lemma R_inet_stream_connect [keep]:
  "keeps R others \<Longrightarrow> keeps R (inet_stream_connect ipo others so addr n flags)"
  unfolding inet_stream_connect_def connect_wait_def Let_def by (auto intro!: keep)

lemma R_sys_poll [keep]:
  assumes "keeps R others"
  shows "keeps R (sys_poll others pid fds timeout)"
proof -
  have pass: "keeps R (poll_pass pid ps n)" for ps n
    by (induction ps arbitrary: n) (auto intro!: keep)
  have "\<forall>a. keeps R (sys_poll others pid (fst a) (snd a))"
  proof (rule sys_poll.fixp_induct [where P = "\<lambda>F. \<forall>a. keeps R (F others pid (fst a) (snd a))"])
    show "option.admissible (\<lambda>F. \<forall>a. keeps R ((curry (curry (curry (curry F)))) others pid (fst a) (snd a)))"
      using keeps_admissible [of R "\<lambda>a w. ((((others, pid), fst a), snd a), w)"] by (simp add: curry_def)
  qed (use assms pass in \<open>auto intro!: keep\<close>)
  then show ?thesis by (metis fst_conv snd_conv)
qed

lemma R_with_socket [keep]: "(\<And>so. keeps R (f so)) \<Longrightarrow> keeps R (with_socket pid fd z f)"
  unfolding with_socket_def by (auto intro!: keep)

lemma R_with_ops [keep]: "(\<And>so. keeps R (f so)) \<Longrightarrow> keeps R (with_ops pid fd z f)"
  unfolding with_ops_def by (auto intro!: keep)

lemma R_sys_calls [keep]:
  "keeps R (Socket_new pid)"
  "keeps R (sys_socket raw pid domain ty proto)"
  "keeps R (sys_write ipo pid fd bs n)"
  "keeps R (sys_read pid fd n)"
  "keeps R (sys_close ipo pid fd)"
  "keeps R (sys_getpeername pid fd)"
  "keeps R (sys_getsockname pid fd)"
  "keeps R (sys_fcntl pid fd cmd arg)"
  "keeps R (sys_getsockopt pid fd level optname)"
  "keeps R (abort_sockets ipo)"
  unfolding Socket_new_def sys_socket_def sys_write_def sys_read_def sys_close_def
    sys_getpeername_def sys_getsockname_def sys_fcntl_def sys_getsockopt_def abort_sockets_def
    abort_sockets_body_def
  by (auto intro!: keep)

lemma R_timers_start_round: "keeps R timers_start_round"
  unfolding timers_start_round_def socket_debug_def socket_debug_body_def timer_debug_def
  by (auto intro!: keep)

lemma R_sys_connect [keep]:
  "keeps R others \<Longrightarrow> keeps R (sys_connect ipo others pid fd addr n)"
  unfolding sys_connect_def by (auto intro!: keep)

end

end
