(* ===== verification/Net_Output.thy ===== *)
theory Net_Output
  imports Stack_Rules
begin

text \<open>
  The layers below TCP, on the way out: routes (\<open>src/route.cpp\<close>), network devices and the
  tap (\<open>src/network_device.cpp\<close>, \<open>src/tuntap_interface.cpp\<close>), the ARP table and its
  messages (\<open>src/arp.cpp\<close>), the neighbour lookup (\<open>include/dst.hpp\<close>) and \<open>ip_output\<close>
  (\<open>src/ip.cpp\<close>).

  \<open>tap_out\<close> holds the frames written to the tap, oldest first; \<open>tap_up\<close> says that the
  interface is initialised and \<open>tap_takes\<close> that the kernel accepts writes. \<open>buf_at\<close>
  gives the address of a buffer's bytes and \<open>pad\<close> the two padding bytes of an
  \<open>SkBuff\<close>: \<open>ip_output\<close> sums over the object, so it reads them.
\<close>

unbundle bit_operations_syntax

section \<open>Data\<close>

record rt_entry =
  rt_dev :: ptr
  rt_dest :: u32
  rt_gateway :: u32
  rt_netmask :: u32
  rt_metric :: u32
  rt_flags :: u8

record net_device =
  nd_addr :: u32
  nd_hwaddr :: "u8 list"
  nd_mtu :: u32

record arp_entry =
  ae_hwtype :: u16
  ae_sip :: u32
  ae_smac :: "u8 list"
  ae_state :: u32

record net_world = tcp_world +
  routes :: "ptr \<rightharpoonup> rt_entry"
  rtEntry_queue :: ptr
  devices :: "ptr \<rightharpoonup> net_device"
  loopback :: ptr
  netdev :: ptr
  arps :: "ptr \<rightharpoonup> arp_entry"
  arp_queue :: ptr
  tap_up :: bool
  tap_takes :: bool
  tap_out :: "u8 list list"
  buf_at :: "ptr \<Rightarrow> ptr"
  pad :: u16

lemma upd_net_run [run]:
  "upd (arps_update f) w = Ok () (w\<lparr>arps := f (arps w)\<rparr>)"
  "upd (routes_update r) w = Ok () (w\<lparr>routes := r (routes w)\<rparr>)"
  "upd (tap_out_update g) w = Ok () (w\<lparr>tap_out := g (tap_out w)\<rparr>)"
  by (simp_all add: upd_apply)

lemma qrep_net_upd [simp]:
  "qrep (arps_update f w) q xs = qrep w q xs"
  "qrep (routes_update r w) q xs = qrep w q xs"
  "qrep (tap_out_update g w) q xs = qrep w q xs"
  by (rule qrep_only; simp)+

text \<open>A network state to start examples from.\<close>

definition blank_net :: net_world where
  "blank_net = tcp_world.extend blank (net_world.fields Map.empty 104 Map.empty 0 0 Map.empty 112
     True True [] (\<lambda>p. p) 0)"

definition RT_LOOPBACK :: u8 where "RT_LOOPBACK = 0x01"
definition RT_GATEWAY :: u8 where "RT_GATEWAY = 0x02"
definition RT_HOST :: u8 where "RT_HOST = 0x04"

definition ARP_ETHERNET :: u16 where "ARP_ETHERNET = 0x0001"
definition ARP_IPV4 :: u16 where "ARP_IPV4 = 0x0800"
definition ARP_REPLY :: u16 where "ARP_REPLY = 0x0001"
definition ARP_REQUEST :: u16 where "ARP_REQUEST = 0x0002"
definition ARP_RESOLVED :: u32 where "ARP_RESOLVED = 2"

definition ETH_P_ARP :: u16 where "ETH_P_ARP = 0x0806"
definition ETH_P_IP :: u16 where "ETH_P_IP = 0x0800"
definition ETH_P_IPV6 :: u16 where "ETH_P_IPV6 = 0x86DD"

definition broadcast_hw :: "u8 list" where
  "broadcast_hw = replicate 6 0xff"

section \<open>Routes\<close>

definition Rt_Entry_init :: "u32 \<Rightarrow> u32 \<Rightarrow> u32 \<Rightarrow> u32 \<Rightarrow> u8 \<Rightarrow> ptr \<Rightarrow> rt_entry" where
  "Rt_Entry_init dest gateway netmask metric flags dev = \<lparr>rt_dev = dev, rt_dest = dest,
     rt_gateway = gateway, rt_netmask = netmask, rt_metric = metric, rt_flags = flags\<rparr>"

definition add_route :: "rt_entry \<Rightarrow> ('w net_world_scheme, unit) M" where
  "add_route r = bnd new_addr (\<lambda>p. sq (init_node p)
     (sq (upd (routes_update (\<lambda>h. h(p \<mapsto> r))))
     (bnd (get rtEntry_queue) (\<lambda>q. queue_add_tail q p))))"

text \<open>The argument is the address of the tap, 10.0.0.5, as \<open>parse_ipv4_string\<close> gives it.\<close>

definition init_routes :: "u32 \<Rightarrow> ('w net_world_scheme, unit) M" where
  "init_routes tap_addr = bnd (get loopback) (\<lambda>lo. bnd (get netdev) (\<lambda>nd.
     bnd (load devices lo) (\<lambda>d. sq (add_route (Rt_Entry_init (nd_addr d) 0 0xff000000 (ucast RT_LOOPBACK) 0 lo))
     (bnd (load devices nd) (\<lambda>e. sq (add_route (Rt_Entry_init (nd_addr e) 0 0xffffff00 (ucast RT_HOST) 0 nd))
     (add_route (Rt_Entry_init 0 tap_addr 0 (ucast RT_GATEWAY) 0 nd)))))))"

definition route_lookup_body :: "u32 \<Rightarrow> ptr \<Rightarrow> ptr \<Rightarrow> ('w net_world_scheme, bool \<times> ptr) M" where
  "route_lookup_body da pos u = bnd (load routes (list_entry pos 0)) (\<lambda>r.
     ret (da AND rt_netmask r = rt_dest r AND rt_netmask r, list_entry pos 0))"

definition route_lookup :: "u32 \<Rightarrow> ('w net_world_scheme, ptr) M" where
  "route_lookup da = bnd (get rtEntry_queue) (\<lambda>q. list_for_each q (route_lookup_body da) null)"

definition Rt_Entry_delete :: "ptr \<Rightarrow> ('w net_world_scheme, unit) M" where
  "Rt_Entry_delete p = bnd (load routes p) (\<lambda>_.
     sq (upd (routes_update (\<lambda>h. h(p := None)))) (upd (nodes_update (\<lambda>h. h(p := None)))))"

definition free_routes :: "('w net_world_scheme, unit) M" where
  "free_routes = bnd (get rtEntry_queue) (\<lambda>q. clear_queue q Rt_Entry_delete)"

section \<open>Sending frames\<close>

definition tuntap_write :: "u8 list \<Rightarrow> ('w net_world_scheme, int) M" where
  "tuntap_write bs = bnd (get tap_up) (\<lambda>up. if \<not> up then fail Exit
     else bnd (get tap_takes) (\<lambda>ok. if ok
       then sq (upd (tap_out_update (\<lambda>l. l @ [bs]))) (ret (int (length bs))) else ret (-1)))"

definition netdev_transmit :: "ptr \<Rightarrow> u8 list \<Rightarrow> u16 \<Rightarrow> ('w net_world_scheme, int) M" where
  "netdev_transmit skb dst_hw ethertype = bnd (load skbs skb) (\<lambda>s.
     bnd (push skb 14) (\<lambda>at.
     sq (write_buf skb at dst_hw)
     (bnd (load devices (skb_dev s)) (\<lambda>d. sq (write_buf skb (at + 6) (nd_hwaddr d))
     (sq (write_buf skb (at + 12) (bytes16 (htons ethertype)))
     (bnd (load skbs skb) (\<lambda>s. bnd (read_buf skb (data s) (unat (len s))) tuntap_write)))))))"

definition netdev_get :: "u32 \<Rightarrow> ('w net_world_scheme, ptr) M" where
  "netdev_get sip = bnd (get netdev) (\<lambda>nd. bnd (load devices nd) (\<lambda>d.
     ret (if nd_addr d = sip then nd else null)))"

section \<open>ARP\<close>

text \<open>
  An ARP message lies behind the Ethernet header: \<open>hwtype\<close>, \<open>protype\<close>, \<open>hwsize\<close>
  (a \<open>size_t\<close>, 8 bytes), \<open>prosize\<close>, \<open>opcode\<close>, and from \<open>arp_data_at\<close> on the
  addresses \<open>smac\<close>, \<open>sip\<close>, \<open>dmac\<close>, \<open>dip\<close>.
\<close>

definition Arp_Hdr_size :: nat where "Arp_Hdr_size = 15"
definition Arp_Ipv4_size :: nat where "Arp_Ipv4_size = 20"
definition arp_hdr_at :: int where "arp_hdr_at = 14"
definition arp_data_at :: int where "arp_data_at = 14 + 15"

definition arp_alloc_skb :: "('w net_world_scheme, ptr) M" where
  "arp_alloc_skb = (let room = Eth_Hdr_size + Arp_Hdr_size + Arp_Ipv4_size in
     bnd (SkBuff_new room) (\<lambda>skb. sq (reserve_headroom skb (int room))
       (sq (upd_skb skb (\<lambda>s. s\<lparr>protocol := htons ETH_P_ARP\<rparr>)) (ret skb))))"

text \<open>\<open>ntohs\<close> and \<open>htons\<close> on a 32-bit address: only its low half survives.\<close>

definition swap_low :: "u32 \<Rightarrow> u32" where
  "swap_low a = ucast (htons (ucast a))"

definition read16 :: "ptr \<Rightarrow> int \<Rightarrow> ('w skb_world_scheme, u16) M" where
  "read16 skb at = bnd (read_buf skb at 2) (\<lambda>bs. ret (get16 bs 0))"

definition read32 :: "ptr \<Rightarrow> int \<Rightarrow> ('w skb_world_scheme, u32) M" where
  "read32 skb at = bnd (read_buf skb at 4) (\<lambda>bs. ret (get32 bs 0))"

definition swap16_at :: "ptr \<Rightarrow> int \<Rightarrow> ('w skb_world_scheme, unit) M" where
  "swap16_at skb at = bnd (read16 skb at) (\<lambda>v. write_buf skb at (bytes16 (htons v)))"

definition swap_low_at :: "ptr \<Rightarrow> int \<Rightarrow> ('w skb_world_scheme, unit) M" where
  "swap_low_at skb at = bnd (read32 skb at) (\<lambda>v. write_buf skb at (bytes32 (swap_low v)))"

definition insert_arp_translation_table :: "u16 \<Rightarrow> u32 \<Rightarrow> u8 list \<Rightarrow> ('w net_world_scheme, int) M" where
  "insert_arp_translation_table hwtype sip smac = bnd new_addr (\<lambda>p. sq (init_node p)
     (sq (upd (arps_update (\<lambda>h. h(p \<mapsto> \<lparr>ae_hwtype = hwtype, ae_sip = sip, ae_smac = smac,
           ae_state = ARP_RESOLVED\<rparr>))))
     (bnd (get arp_queue) (\<lambda>q. sq (queue_add_tail q p) (ret 0)))))"

definition update_arp_body :: "u16 \<Rightarrow> u32 \<Rightarrow> u8 list \<Rightarrow> ptr \<Rightarrow> int \<Rightarrow> ('w net_world_scheme, bool \<times> int) M" where
  "update_arp_body hwtype sip smac pos hit = bnd (load arps (list_entry pos 0)) (\<lambda>e.
     if ae_hwtype e = hwtype \<and> ae_sip e = sip
     then sq (upd (arps_update (\<lambda>h. h(list_entry pos 0 \<mapsto> e\<lparr>ae_smac := smac\<rparr>)))) (ret (True, 1))
     else ret (False, hit))"

definition update_arp_translation_table :: "u16 \<Rightarrow> u32 \<Rightarrow> u8 list \<Rightarrow> ('w net_world_scheme, int) M" where
  "update_arp_translation_table hwtype sip smac = bnd (get arp_queue) (\<lambda>q.
     list_for_each q (update_arp_body hwtype sip smac) 0)"

text \<open>A resolved entry is copied to \<open>hwaddr\<close>, which is the null pointer.\<close>

definition arp_get_hwaddr_body :: "u32 \<Rightarrow> ptr \<Rightarrow> unit \<Rightarrow> ('w net_world_scheme, bool \<times> unit) M" where
  "arp_get_hwaddr_body sip pos u = bnd (load arps (list_entry pos 0)) (\<lambda>e.
     if ae_state e = ARP_RESOLVED \<and> ae_sip e = sip then fail NullDeref else ret (False, ()))"

definition arp_get_hwaddr :: "u32 \<Rightarrow> ('w net_world_scheme, u8 list option) M" where
  "arp_get_hwaddr sip = bnd (get arp_queue) (\<lambda>q.
     sq (list_for_each q (arp_get_hwaddr_body sip) ()) (ret None))"

definition arp_request :: "u32 \<Rightarrow> u32 \<Rightarrow> ptr \<Rightarrow> ('w net_world_scheme, int) M" where
  "arp_request sip dip dev = bnd arp_alloc_skb (\<lambda>skb.
     sq (upd_skb skb (\<lambda>s. s\<lparr>skb_dev := dev\<rparr>))
     (bnd (push skb (int Arp_Ipv4_size)) (\<lambda>arpdata. bnd (load devices dev) (\<lambda>d.
     sq (write_buf skb arpdata (nd_hwaddr d @ bytes32 sip @ broadcast_hw @ bytes32 dip))
     (bnd (push skb (int Arp_Hdr_size)) (\<lambda>arphdr.
     sq (write_buf skb arphdr (bytes16 (htons ARP_ETHERNET) @ bytes16 (htons ETH_P_IP)
           @ [6, 0, 0, 0, 0, 0, 0, 0] @ [4] @ bytes16 (htons ARP_REQUEST)))
     (sq (swap_low_at skb (arpdata + 6))
     (sq (swap_low_at skb (arpdata + 16))
     (bnd (netdev_transmit skb broadcast_hw ETH_P_ARP) (\<lambda>rc.
       sq (free_skb skb) (ret rc)))))))))))"

definition arp_reply :: "ptr \<Rightarrow> ptr \<Rightarrow> ('w net_world_scheme, unit) M" where
  "arp_reply skb dev =
     sq (reserve_headroom skb (int (Eth_Hdr_size + Arp_Hdr_size + Arp_Ipv4_size)))
     (sq (push skb (int (Arp_Hdr_size + Arp_Ipv4_size)))
     (bnd (read_buf skb arp_data_at 6) (\<lambda>smac. sq (write_buf skb (arp_data_at + 10) smac)
     (bnd (read_buf skb (arp_data_at + 6) 4) (\<lambda>sip. sq (write_buf skb (arp_data_at + 16) sip)
     (bnd (load devices dev) (\<lambda>d.
     sq (write_buf skb arp_data_at (nd_hwaddr d @ bytes32 (nd_addr d)))
     (sq (write_buf skb (arp_hdr_at + 13) (bytes16 (htons ARP_REPLY)))
     (sq (swap16_at skb arp_hdr_at) (sq (swap16_at skb (arp_hdr_at + 2))
     (bnd (read32 skb (arp_data_at + 6)) (\<lambda>v. sq (write_buf skb (arp_data_at + 6) (bytes32 (htonl v)))
     (bnd (read32 skb (arp_data_at + 16)) (\<lambda>v. sq (write_buf skb (arp_data_at + 16) (bytes32 (htonl v)))
     (sq (upd_skb skb (\<lambda>s. s\<lparr>skb_dev := dev\<rparr>))
     (bnd (read_buf skb (arp_data_at + 10) 6) (\<lambda>dmac.
     sq (netdev_transmit skb dmac ETH_P_ARP) (free_skb skb))))))))))))))))))"

definition arp_rcv :: "ptr \<Rightarrow> ('w net_world_scheme, unit) M" where
  "arp_rcv skb = sq (swap16_at skb arp_hdr_at) (sq (swap16_at skb (arp_hdr_at + 2))
     (sq (swap16_at skb (arp_hdr_at + 13)) (bnd (read16 skb arp_hdr_at) (\<lambda>hwtype.
       if hwtype \<noteq> ARP_ETHERNET then free_skb skb
       else bnd (read16 skb (arp_hdr_at + 2)) (\<lambda>protype.
         if protype \<noteq> ARP_IPV4 then free_skb skb
         else sq (swap_low_at skb (arp_data_at + 6)) (sq (swap_low_at skb (arp_data_at + 16))
           (bnd (read_buf skb arp_data_at 6) (\<lambda>smac. bnd (read32 skb (arp_data_at + 6)) (\<lambda>sip.
           bnd (update_arp_translation_table hwtype sip smac) (\<lambda>merge.
           bnd (read32 skb (arp_data_at + 16)) (\<lambda>dip. bnd (netdev_get dip) (\<lambda>dev.
             if dev = null then free_skb skb
             else bnd (if merge = 0 then bnd (insert_arp_translation_table hwtype sip smac) (\<lambda>r. ret (r = 0))
                 else ret False) (\<lambda>no_room.
               if no_room then free_skb skb
               else bnd (read16 skb (arp_hdr_at + 13)) (\<lambda>opcode.
                 if opcode = ARP_REQUEST then arp_reply skb dev else free_skb skb))))))))))))))"

definition Arp_Cache_Entry_delete :: "ptr \<Rightarrow> ('w net_world_scheme, unit) M" where
  "Arp_Cache_Entry_delete p = bnd (load arps p) (\<lambda>_.
     sq (upd (arps_update (\<lambda>h. h(p := None)))) (upd (nodes_update (\<lambda>h. h(p := None)))))"

definition free_arp :: "('w net_world_scheme, unit) M" where
  "free_arp = bnd (get arp_queue) (\<lambda>q. clear_queue q Arp_Cache_Entry_delete)"

section \<open>IP\<close>

text \<open>The 88 bytes of an \<open>SkBuff\<close> object.\<close>

definition skb_object :: "(ptr \<Rightarrow> ptr) \<Rightarrow> u16 \<Rightarrow> ptr \<Rightarrow> list_head \<Rightarrow> skbuff \<Rightarrow> u8 list" where
  "skb_object at padding p n s = obj_bytes n s @ ptr_bytes (skb_dev s)
     @ bytes32 (word_of_int (refcnt s)) @ bytes16 (protocol s) @ bytes16 padding
     @ bytes32 (len s) @ bytes32 (data_len s) @ bytes32 (seq s) @ bytes32 (end_seq s)
     @ ptr_bytes (at p + word_of_int (data s)) @ ptr_bytes (at p)
     @ ptr_bytes (at p + of_nat (length (buf s)))
     @ ptr_bytes (case payload s of None \<Rightarrow> null | Some o' \<Rightarrow> at p + word_of_int o')"

lemma length_skb_object [simp]: "length (skb_object at padding p n s) = 88"
  by (simp add: skb_object_def obj_bytes_def)

definition object_checksum :: "ptr \<Rightarrow> nat \<Rightarrow> ('w net_world_scheme, u16) M" where
  "object_checksum p n = bnd (load nodes p) (\<lambda>hd. bnd (load skbs p) (\<lambda>s. bnd (get buf_at) (\<lambda>at.
     bnd (get pad) (\<lambda>padding. if 88 < n then fail OutOfBounds
       else ret (checksum (take n (skb_object at padding p hd s)) 0)))))"

definition dst_neigh_output :: "ptr \<Rightarrow> ('w net_world_scheme, int) M" where
  "dst_neigh_output skb = bnd (load_ip_hdr skb) (\<lambda>h. bnd (load skbs skb) (\<lambda>s.
     bnd (load routes (skb_rt s)) (\<lambda>r.
     bnd (ret (if rt_flags r AND RT_GATEWAY \<noteq> 0 then rt_gateway r else ntohl (ih_daddr h))) (\<lambda>da.
     bnd (arp_get_hwaddr da) (\<lambda>dmac. case dmac of
         Some hw \<Rightarrow> netdev_transmit skb hw ETH_P_IP
       | None \<Rightarrow> sq (arp_request (ntohl (ih_saddr h)) da (skb_dev s)) (ret 0))))))"

definition ip_output :: "ptr \<Rightarrow> ptr \<Rightarrow> ('w net_world_scheme, int) M" where
  "ip_output sk skb = bnd (load socks sk) (\<lambda>k. bnd (route_lookup (daddr k)) (\<lambda>rt.
     if rt = null then sq (free_skb skb) (ret 0)
     else bnd (load routes rt) (\<lambda>r.
       sq (upd_skb skb (\<lambda>s. s\<lparr>skb_dev := rt_dev r\<rparr>))
       (sq (upd_skb skb (\<lambda>s. s\<lparr>skb_rt := rt\<rparr>))
       (sq (push skb (int Ip_Hdr_size))
       (bnd (load skbs skb) (\<lambda>s.
       sq (upd_ip_hdr skb (\<lambda>h. h\<lparr>ih_vihl := 0x45, ih_tos := 0, ih_len := ucast (len s),
             ih_frag := 0x4000, ih_ttl := 64, ih_proto := ucast (protocol s)\<rparr>))
       (sq (upd_ip_hdr skb (\<lambda>h. h\<lparr>ih_len := htons (ih_len h), ih_id := htons (ih_id h),
             ih_saddr := htonl (ih_saddr h), ih_daddr := htonl (ih_daddr h),
             ih_csum := htons (ih_csum h), ih_frag := htons (ih_frag h)\<rparr>))
       (bnd (load_ip_hdr skb) (\<lambda>h. bnd (object_checksum skb (unat (ih_len h) * 4)) (\<lambda>c.
       sq (upd_ip_hdr skb (\<lambda>h. h\<lparr>ih_csum := c\<rparr>))
         (dst_neigh_output skb))))))))))))"


section \<open>The layers below TCP as its provider\<close>

text \<open>
  The network layers change two more parts of the state, the ARP table and the tap. They
  only ever enter Ethernet addresses of six bytes into the table, and the only frames they
  write are those of ARP: \<open>arp_get_hwaddr\<close> never has an address for a packet. A relation
  kept by these two changes as well is kept by \<open>ip_output\<close>, so the rules of \<open>Stack_Rules\<close>
  hold with it as the layer below.
\<close>

lemma arp_get_hwaddr_never: "arp_get_hwaddr sip w = Ok hw w' \<Longrightarrow> hw = None"
  by (auto simp: arp_get_hwaddr_def run_basic)

lemma bnd_arp_get_hwaddr:
  "bnd (arp_get_hwaddr sip) (\<lambda>z. case z of None \<Rightarrow> m | Some hw \<Rightarrow> f hw) = sq (arp_get_hwaddr sip) m"
  by (rule ext, rule bnd_cong) (auto dest: arp_get_hwaddr_never)

lemma keeps_read_buf:
  assumes "transp R" and "keeps R (read_buf p i n)" and "\<And>bs. length bs = n \<Longrightarrow> keeps R (f bs)"
  shows "keeps R (bnd (read_buf p i n) f)"
proof (rule keepsI)
  fix w y w'
  assume "bnd (read_buf p i n) f w = Ok y w'"
  then obtain bs u where run: "read_buf p i n w = Ok bs u" "f bs u = Ok y w'" by (elim bnd_OkE)
  then have "length bs = n"
    by (auto simp: read_buf_def bnd_Ok_iff run_basic in_buf_def split: if_splits)
  with run assms show "R w w'" by (metis keepsD transpD)
qed

locale net_out_rel = sock_rel R
  for R :: "'w net_world_scheme \<Rightarrow> 'w net_world_scheme \<Rightarrow> bool" +
  assumes R_arp_new: "length hw = 6 \<Longrightarrow> keeps R (insert_arp_translation_table ARP_ETHERNET sip hw)"
    and R_arp_update: "length hw = 6 \<Longrightarrow> keeps R (update_arp_translation_table ty sip hw)"
    and R_frame: "keeps R (netdev_transmit p dmac ETH_P_ARP)"

context net_out_rel begin

lemmas R_net_rules [keep] = R_arp_new R_arp_update R_frame

lemma R_net_ops [keep]:
  "keeps R (route_lookup da)"
  "keeps R (netdev_get sip)"
  "keeps R arp_alloc_skb"
  "keeps R (read16 p i)"
  "keeps R (read32 p i)"
  "keeps R (swap16_at p i)"
  "keeps R (swap_low_at p i)"
  unfolding route_lookup_def route_lookup_body_def
    netdev_get_def arp_alloc_skb_def read16_def read32_def swap16_at_def swap_low_at_def Let_def
  by (auto intro!: keep)

lemma R_arp_ops [keep]:
  "keeps R (arp_get_hwaddr sip)"
  "keeps R (arp_request sip dip dev)"
  "keeps R (arp_reply p dev)"
  unfolding arp_get_hwaddr_def arp_get_hwaddr_body_def arp_request_def arp_reply_def
  by (auto intro!: keep)

lemma R_arp_rcv [keep]: "keeps R (arp_rcv p)"
  unfolding arp_rcv_def
  by (intro keeps_if keeps_read_buf keep; (simp only: not_not)?; (intro keep)?; simp)

lemma R_ip_output [keep]: "keeps R (ip_output sk p)"
  unfolding ip_output_def dst_neigh_output_def object_checksum_def bnd_arp_get_hwaddr
  by (auto intro!: keep)

end

sublocale net_out_rel < output_rel R ip_output
  by unfold_locales (rule R_ip_output)

end
