(* ===== verification/Net_Input.thy ===== *)
theory Net_Input
  imports Net_Output
begin

text \<open>
  The way in: the dispatch of a received frame (\<open>src/network_device.cpp\<close>), \<open>ip_rcv\<close>
  (\<open>src/ip.cpp\<close>) and ICMP (\<open>src/icmp_v4.cpp\<close>).

  Like \<open>ip_hdr\<close>, the dispatch casts the \<open>SkBuff\<close> object itself: the \<open>ethertype\<close> it
  reads is bytes 12 and 13 of the object, inside its \<open>next\<close> link, and the type of an ICMP
  message is the object's first byte, where \<open>ip_rcv\<close> has just read version and length.
\<close>

unbundle bit_operations_syntax

section \<open>ICMP\<close>

definition zero_sock :: sock where
  "zero_sock = \<lparr>sk_socket = null, receive_queue = null, write_queue = null, sk_protocol = 0,
     sk_state = TCP_LISTEN, sk_err = 0, poll_events = 0, sport = 0, dport = 0, saddr = 0,
     daddr = 0, recv_sleeping = False\<rparr>"

definition Sock_new :: "('w net_world_scheme, ptr) M" where
  "Sock_new = bnd new_addr (\<lambda>p. bnd queue_new (\<lambda>rq. bnd queue_new (\<lambda>wq.
     sq (upd (socks_update (\<lambda>h. h(p \<mapsto> Sock_init zero_sock rq wq)))) (ret p))))"

definition icmpv4_reply :: "ptr \<Rightarrow> ('w net_world_scheme, unit) M" where
  "icmpv4_reply skb = bnd Sock_new (\<lambda>sk. bnd (load_ip_hdr skb) (\<lambda>h.
     bnd (ret (ip_len h)) (\<lambda>icmp_len.
     sq (reserve_headroom skb (int (Eth_Hdr_size + Ip_Hdr_size) + uint icmp_len))
     (sq (push skb (uint icmp_len))
     (sq (upd_ip_hdr skb (\<lambda>h. h\<lparr>ih_vihl := 0, ih_len := 0\<rparr>))
     (bnd (object_checksum skb (unat icmp_len)) (\<lambda>c.
     sq (upd_ip_hdr skb (\<lambda>h. h\<lparr>ih_len := c\<rparr>))
     (sq (upd_skb skb (\<lambda>s. s\<lparr>protocol := 1\<rparr>))
     (bnd (load_ip_hdr skb) (\<lambda>h. sq (upd_sk sk (\<lambda>k. k\<lparr>daddr := ih_saddr h\<rparr>))
     (sq (ip_output sk skb) (free_skb skb))))))))))))"

definition icmpv4_incoming :: "ptr \<Rightarrow> ('w net_world_scheme, unit) M" where
  "icmpv4_incoming skb = bnd (load_ip_hdr skb) (\<lambda>h.
     if ih_vihl h = 0x08 then icmpv4_reply skb else free_skb skb)"

section \<open>IP and the link\<close>

definition ip_rcv :: "ptr \<Rightarrow> ('w net_world_scheme, int) M" where
  "ip_rcv skb = bnd (load_ip_hdr skb) (\<lambda>h.
     if ih_version h \<noteq> 4 then sq (free_skb skb) (ret 0)
     else if ih_ihl h < 5 then sq (free_skb skb) (ret 0)
     else if ih_ttl h = 0 then sq (free_skb skb) (ret 0)
     else bnd (object_checksum skb (ih_ihl h * 4)) (\<lambda>csum.
       if csum \<noteq> 0 then sq (free_skb skb) (ret 0)
       else sq (upd_ip_hdr skb (\<lambda>h. h\<lparr>ih_saddr := ntohl (ih_saddr h), ih_daddr := ntohl (ih_daddr h),
             ih_len := ntohs (ih_len h), ih_id := ntohs (ih_id h)\<rparr>))
         (if ih_proto h = 1 then sq (icmpv4_incoming skb) (ret 0)
          else if ih_proto h = 6 then sq (tcp_in ip_output skb) (ret 0)
          else sq (free_skb skb) (ret 0))))"

definition obj_ethertype :: "list_head \<Rightarrow> skbuff \<Rightarrow> u16" where
  "obj_ethertype n s = get16 (obj_bytes n s) 12"

definition netdev_receive :: "ptr \<Rightarrow> ('w net_world_scheme, int) M" where
  "netdev_receive skb = bnd (load nodes skb) (\<lambda>n. bnd (load skbs skb) (\<lambda>s.
     if obj_ethertype n s = ETH_P_ARP then sq (arp_rcv skb) (ret 0)
     else if obj_ethertype n s = ETH_P_IP then sq (ip_rcv skb) (ret 0)
     else ret 0))"

text \<open>
  One round of \<open>netdev_rx_loop\<close>, with the frame the tap has next (\<open>None\<close>: an error): it is
  read into the buffer, as far as there is room.
\<close>

definition tuntap_read :: "u8 list option \<Rightarrow> nat \<Rightarrow> ('w net_world_scheme, u8 list option) M" where
  "tuntap_read frame n = bnd (get tap_up) (\<lambda>up.
     if \<not> up then fail Exit else ret (map_option (take n) frame))"

definition BUFFLEN :: nat where
  "BUFFLEN = 1600"

definition netdev_rx_step :: "u8 list option \<Rightarrow> ('w net_world_scheme, bool) M" where
  "netdev_rx_step frame = bnd (SkBuff_new BUFFLEN) (\<lambda>skb. bnd (load skbs skb) (\<lambda>s.
     bnd (tuntap_read frame BUFFLEN) (\<lambda>r. case r of
         None \<Rightarrow> sq (free_skb skb) (ret False)
       | Some bs \<Rightarrow> sq (write_buf skb (data s) bs) (sq (netdev_receive skb) (ret True)))))"

text \<open>
  The loop: a round for each answer of the tap while the program runs. \<open>running\<close>, which other
  code clears, is taken to be set before each of the rounds listed and not after the last.
\<close>

fun netdev_rx_loop :: "u8 list option list \<Rightarrow> ('w net_world_scheme, unit) M" where
  "netdev_rx_loop [] = skip"
| "netdev_rx_loop (frame # frames) = bnd (netdev_rx_step frame) (\<lambda>ok.
     if ok then netdev_rx_loop frames else skip)"


section \<open>What arrival keeps\<close>

locale net_rel = net_out_rel R + socket_rel R
  for R :: "'w net_world_scheme \<Rightarrow> 'w net_world_scheme \<Rightarrow> bool" +
  assumes R_sock_new: "keeps R Sock_new"

text \<open>A relation that does not look at the ARP table, the tap and the socks.\<close>

lemma keeps_net_any:
  assumes "reflp R" and "transp R"
    and "\<And>f. keeps R (upd (nodes_update f))" and "\<And>f. keeps R (upd (queues_update f))"
    and "\<And>f. keeps R (upd (skbs_update f))" and "keeps R new_addr"
  shows "(\<And>f. keeps R (upd (arps_update f))) \<Longrightarrow> keeps R (insert_arp_translation_table ty sip hw)"
    and "(\<And>f. keeps R (upd (arps_update f))) \<Longrightarrow> keeps R (update_arp_translation_table ty sip hw)"
    and "(\<And>f. keeps R (upd (tap_out_update f))) \<Longrightarrow> keeps R (netdev_transmit p hw et)"
    and "(\<And>f. keeps R (upd (socks_update f))) \<Longrightarrow> keeps R Sock_new"
  unfolding insert_arp_translation_table_def update_arp_translation_table_def update_arp_body_def
    netdev_transmit_def push_def upd_skb_def write_buf_def read_buf_def tuntap_write_def
    Sock_new_def queue_new_def init_node_def queue_init_def queue_add_tail_def list_add_def
    set_prev_def set_next_def set_len_def
  by (auto intro!: keep assms)

sublocale net_rel < stack_rel R ip_output
  by unfold_locales

context net_rel begin

lemma R_icmp_ops [keep]:
  "keeps R (icmpv4_reply p)"
  "keeps R (icmpv4_incoming p)"
  unfolding icmpv4_reply_def icmpv4_incoming_def object_checksum_def
  by (auto intro!: keep R_sock_new)

lemma R_arrival [keep]:
  "keeps R (ip_rcv p)"
  "keeps R (netdev_receive p)"
  "keeps R (netdev_rx_step frame)"
  unfolding ip_rcv_def netdev_receive_def netdev_rx_step_def tuntap_read_def object_checksum_def
  by (auto intro!: keep)

lemma R_rx_loop [keep]: "keeps R (netdev_rx_loop frames)"
  by (induction frames) (auto intro!: keep)

end

end
