(* ===== verification/Net_Facts.thy ===== *)
theory Net_Facts
  imports Net_Input
begin

text \<open>
  What the layers below TCP do: the choice of a route, the IP header and its checksum, the
  dispatch of incoming frames, the ARP table and the frame of an ARP request.
\<close>

unbundle bit_operations_syntax

section \<open>Routes\<close>

definition route_table :: "'w net_world_scheme \<Rightarrow> ptr list \<Rightarrow> (ptr \<Rightarrow> rt_entry) \<Rightarrow> bool" where
  "route_table w xs T \<longleftrightarrow> qrep w (rtEntry_queue w) xs \<and> (\<forall>x \<in> set xs. routes w x = Some (T x))"

definition routes_to :: "u32 \<Rightarrow> rt_entry \<Rightarrow> bool" where
  "routes_to da r \<longleftrightarrow> da AND rt_netmask r = rt_dest r AND rt_netmask r"

lemma scan_last:
  "scan (\<lambda>x s. (P x, x)) xs s0 = (case find P xs of Some x \<Rightarrow> x | None \<Rightarrow> last (s0 # xs))"
  by (induction xs arbitrary: s0) (auto split: option.split)

lemma route_lookup_scan:
  assumes "route_table w xs T"
  shows "route_lookup da w
    = Ok (case find (\<lambda>x. routes_to da (T x)) xs of Some x \<Rightarrow> x | None \<Rightarrow> last (null # xs)) w"
proof -
  have rep: "qrep w (rtEntry_queue w) xs" and T: "\<And>x. x \<in> set xs \<Longrightarrow> routes w x = Some (T x)"
    using assms by (auto simp: route_table_def)
  have "x \<noteq> null" if "x \<in> set xs" for x using rep that by (auto simp: qrep_def)
  then have "list_for_each (rtEntry_queue w) (route_lookup_body da) null w
      = Ok (scan (\<lambda>x s. (routes_to da (T x), x)) xs null) w"
    using T by (intro list_for_each_pure [OF rep])
      (simp add: route_lookup_body_def list_entry_def run routes_to_def)
  then show ?thesis by (simp add: route_lookup_def run scan_last)
qed

text \<open>
  C19. The route of a destination is the first entry of the table whose network it is in.
  When it is in none of them the look-up does not fail: it returns the last entry of the
  table (and the null pointer only for an empty table).
\<close>

theorem route_lookup_run:
  assumes "route_table w xs T"
  shows "route_lookup da w = Ok (case find (\<lambda>x. routes_to da (T x)) xs of
      Some x \<Rightarrow> x | None \<Rightarrow> if xs = [] then null else last xs) w"
  using route_lookup_scan [OF assms, of da] by (simp split: option.split)

theorem route_lookup_run_witness:
  "\<exists>w. route_lookup 0x0A000001 w = Ok 72 (w :: net_world)"
proof -
  let ?lo = "\<lparr>rt_dev = 8, rt_dest = 0x7F000001, rt_gateway = 0, rt_netmask = 0xff000000, rt_metric = 1, rt_flags = 0\<rparr>"
  let ?w = "put_queue 104 [64, 72] (blank_net\<lparr>routes := [64 \<mapsto> ?lo, 72 \<mapsto> ?lo]\<rparr>)"
  have "route_table ?w [64, 72] (\<lambda>_. ?lo)"
    by (simp add: route_table_def put_queue_def blank_net_def tcp_world.defs net_world.defs blank_def
        qrep_def linked_def nx_def pv_def)
  moreover have "\<not> routes_to 0x0A000001 ?lo" by (simp add: routes_to_def)
  ultimately have "route_lookup 0x0A000001 ?w = Ok 72 ?w"
    using route_lookup_run [of ?w "[64, 72]" "\<lambda>_. ?lo" "0x0A000001"] by simp
  then show ?thesis by blast
qed

section \<open>Releasing the tables\<close>

lemma touches_net:
  assumes "touches q X w w'"
  shows "routes w' = routes w" and "arps w' = arps w"
  using arg_cong [OF touches_outside [OF assms], of routes] arg_cong [OF touches_outside [OF assms], of arps]
  by (simp_all add: outside_queues_def)

lemma free_routes_run:
  assumes "qrep w (rtEntry_queue w) xs" and "\<forall>x \<in> set xs. routes w x \<noteq> None"
  shows "\<exists>w'. free_routes w = Ok () w' \<and> qrep w' (rtEntry_queue w) []
    \<and> (\<forall>p. routes w' p = (if p \<in> set xs then None else routes w p))"
  unfolding free_routes_def bnd_run run_basic andthen_run
  by (rule clear_queue_frees [where obj = routes]) (use assms in \<open>auto simp: Rt_Entry_delete_def run touches_net\<close>)

lemma free_arp_run:
  assumes "qrep w (arp_queue w) xs" and "\<forall>x \<in> set xs. arps w x \<noteq> None"
  shows "\<exists>w'. free_arp w = Ok () w' \<and> qrep w' (arp_queue w) []
    \<and> (\<forall>p. arps w' p = (if p \<in> set xs then None else arps w p))"
  unfolding free_arp_def bnd_run run_basic andthen_run
  by (rule clear_queue_frees [where obj = arps]) (use assms in \<open>auto simp: Arp_Cache_Entry_delete_def run touches_net\<close>)

section \<open>Sending a packet\<close>

lemma route_lookup_picks:
  assumes "route_table w xs T" "xs \<noteq> []"
  obtains x where "route_lookup da w = Ok x w" "x \<in> set xs"
proof (cases "find (\<lambda>x. routes_to da (T x)) xs")
  case None
  then show ?thesis using route_lookup_scan [OF assms(1), of da] assms(2) that [of "last xs"] by simp
next
  case (Some x)
  then have "x \<in> set xs" by (auto simp: find_Some_iff)
  with Some show ?thesis using route_lookup_scan [OF assms(1), of da] that [of x] by simp
qed

lemma upd_ip_hdr_run:
  assumes "p \<noteq> null" and "nodes w p = Some n" and "skbs w p = Some s"
  shows "\<exists>n' r. upd_ip_hdr p f w
      = Ok () (w\<lparr>nodes := (nodes w)(p \<mapsto> n'), skbs := (skbs w)(p \<mapsto> s\<lparr>skb_rt := r\<rparr>)\<rparr>)
    \<and> ip_hdr_of (obj_bytes n' (s\<lparr>skb_rt := r\<rparr>)) = f (ip_hdr_of (obj_bytes n s))"
  using store_ip_hdr_run [OF assms, of "f (ip_hdr_of (obj_bytes n s))"] assms
  by (simp add: upd_ip_hdr_def run)

lemma swapped_length:
  assumes "\<not> 256 dvd unat l"
  shows "88 < unat (htons (ucast (l :: u32))) * 4"
proof -
  have "unat (ucast l :: u16) mod 256 = unat l mod 256"
    by (simp add: unsigned_ucast_eq take_bit_eq_mod mod_mod_cancel)
  then have "unat (ucast l :: u16) mod 256 \<noteq> 0" using assms by (simp add: dvd_eq_mod_eq_0)
  then have "0 < unat (lo8 (ucast l))" by (simp add: unat_halves)
  then show ?thesis by (simp add: htons_def unat_le16)
qed

text \<open>
  C36. \<open>ip_output\<close> sends nothing: it takes the header's checksum over \<open>4 * len\<close> bytes
  of the buffer's object, with \<open>len\<close> already in network order. As soon as there is a route
  at all, a packet whose length is not a multiple of 256 makes that run past the end of the
  object. That is every segment without text, so no connection is ever opened.
\<close>

theorem ip_output_overreads:
  assumes table: "route_table w xs T" "xs \<noteq> []"
    and sk: "sk \<noteq> null" "socks w sk = Some k"
    and skb: "p \<noteq> null" "nodes w p = Some n" "skbs w p = Some s"
    and len: "\<not> 256 dvd unat (len s + 20)"
  shows "ip_output sk p w = Err OutOfBounds"
proof -
  obtain rt where rt: "route_lookup (daddr k) w = Ok rt w" "rt \<in> set xs"
    using route_lookup_picks [OF table] by blast
  with table(1) have rt': "rt \<noteq> null" "routes w rt = Some (T rt)"
    by (auto simp: route_table_def qrep_def)
  let ?s = "s\<lparr>skb_dev := rt_dev (T rt), skb_rt := rt, data := data s - 20, len := len s + 20\<rparr>"
  let ?w = "w\<lparr>skbs := (skbs w)(p \<mapsto> ?s)\<rparr>"
  let ?f = "\<lambda>h. h\<lparr>ih_vihl := 0x45, ih_tos := 0, ih_len := ucast (len ?s), ih_frag := 0x4000, ih_ttl := 64,
    ih_proto := ucast (protocol ?s)\<rparr>"
  let ?g = "\<lambda>h. h\<lparr>ih_len := htons (ih_len h), ih_id := htons (ih_id h), ih_saddr := htonl (ih_saddr h),
    ih_daddr := htonl (ih_daddr h), ih_csum := htons (ih_csum h), ih_frag := htons (ih_frag h)\<rparr>"
  obtain n1 r1 where u1: "upd_ip_hdr p ?f ?w
      = Ok () (?w\<lparr>nodes := (nodes w)(p \<mapsto> n1), skbs := (skbs ?w)(p \<mapsto> ?s\<lparr>skb_rt := r1\<rparr>)\<rparr>)"
    and h1: "ih_len (ip_hdr_of (obj_bytes n1 (?s\<lparr>skb_rt := r1\<rparr>))) = ucast (len s + 20)"
    using upd_ip_hdr_run [of p ?w n ?s ?f] skb by auto
  let ?w1 = "?w\<lparr>nodes := (nodes w)(p \<mapsto> n1), skbs := (skbs ?w)(p \<mapsto> ?s\<lparr>skb_rt := r1\<rparr>)\<rparr>"
  obtain n2 r2 where u2: "upd_ip_hdr p ?g ?w1
      = Ok () (?w1\<lparr>nodes := (nodes ?w1)(p \<mapsto> n2), skbs := (skbs ?w1)(p \<mapsto> ?s\<lparr>skb_rt := r2\<rparr>)\<rparr>)"
    and h2: "ih_len (ip_hdr_of (obj_bytes n2 (?s\<lparr>skb_rt := r2\<rparr>))) = htons (ucast (len s + 20))"
    using upd_ip_hdr_run [of p ?w1 n1 "?s\<lparr>skb_rt := r1\<rparr>" ?g] skb h1 by auto
  have "ip_output sk p w = sq (upd_ip_hdr p ?f) (sq (upd_ip_hdr p ?g)
      (bnd (load_ip_hdr p) (\<lambda>h. bnd (object_checksum p (unat (ih_len h) * 4)) (\<lambda>c.
        sq (upd_ip_hdr p (\<lambda>h. h\<lparr>ih_csum := c\<rparr>)) (dst_neigh_output p))))) ?w"
    using sk skb rt(1) rt' by (simp add: ip_output_def run Ip_Hdr_size_def)
  also have "\<dots> = Err OutOfBounds"
    using u1 u2 h2 skb swapped_length [OF len]
    by (simp add: bnd_run run_basic load_ip_hdr_run object_checksum_def load_run)
  finally show ?thesis .
qed

theorem ip_output_overreads_witness:
  "\<exists>w :: net_world. ip_output 64 128 w = Err OutOfBounds"
proof -
  let ?r = "\<lparr>rt_dev = 8, rt_dest = 0, rt_gateway = 0x0A000005, rt_netmask = 0, rt_metric = 2, rt_flags = 0\<rparr>"
  let ?w = "put_queue 104 [72] (blank_net\<lparr>routes := [72 \<mapsto> ?r], socks := [64 \<mapsto> blank_sk],
    skbs := [128 \<mapsto> (fresh_skb 0 0 0)\<lparr>data := 34, len := 20\<rparr>],
    nodes := [128 \<mapsto> \<lparr>lprev = 128, lnext = 128\<rparr>]\<rparr>)"
  have "route_table ?w [72] (\<lambda>_. ?r)"
    by (simp add: route_table_def put_queue_def blank_net_def tcp_world.defs net_world.defs blank_def
        qrep_def linked_def nx_def pv_def)
  from ip_output_overreads [OF this, of 64 blank_sk 128] have "ip_output 64 128 ?w = Err OutOfBounds"
    by (simp add: put_queue_def blank_net_def tcp_world.defs blank_def)
  then show ?thesis by blast
qed

section \<open>Receiving a frame\<close>

lemma obj_ethertype_next: "obj_ethertype n s = ucast (drop_bit 32 (lnext n))"
proof -
  have "obj_ethertype n s = lo16 (ucast (drop_bit 32 (lnext n)))"
    by (simp add: obj_ethertype_def obj_bytes_def ptr_bytes_def bytes32_def bytes16_def get16_def)
  then show ?thesis
    by (auto simp: lo16_def bit_simps intro!: bit_word_eqI)
qed

lemma netdev_rx_step_run:
  assumes "pool w = p # ps" and "p \<noteq> null" and "tap_up w"
    and "ucast (drop_bit 32 p) \<notin> {ETH_P_ARP, ETH_P_IP}"
  shows "netdev_rx_step (Some frame) w = Ok True (w\<lparr>pool := ps,
    nodes := (nodes w)(p \<mapsto> \<lparr>lprev = p, lnext = p\<rparr>),
    skbs := (skbs w)(p \<mapsto> (SkBuff_init (raw_ptr w) BUFFLEN)\<lparr>buf :=
      take BUFFLEN frame @ replicate (BUFFLEN - length frame) 0\<rparr>)\<rparr>)"
proof -
  have "splice (replicate BUFFLEN 0) 0 (take BUFFLEN frame)
      = take BUFFLEN frame @ replicate (BUFFLEN - length frame) 0"
    by (simp add: splice_def min_def)
  then show ?thesis
    using assms
    by (simp add: netdev_rx_step_def tuntap_read_def run SkBuff_init_def in_buf_def netdev_receive_def obj_ethertype_next)
qed

text \<open>
  C37. What arrives does not matter: the receive loop dispatches on two bytes of the fresh
  buffer's own address. Unless bits 32 to 47 of these addresses happen to spell an Ethernet
  type, whatever frames arrive, each is copied into a new buffer and forgotten there: nothing
  is processed, nothing is sent, and no buffer is ever released, so receiving uses up the
  memory one buffer a frame.
\<close>

theorem frames_are_ignored:
  assumes "pool w = ps @ qs" and "length ps = length frames" and "tap_up w"
    and "\<forall>p \<in> set ps. p \<noteq> null \<and> ucast (drop_bit 32 p) \<notin> {ETH_P_ARP, ETH_P_IP}"
  shows "netdev_rx_loop (map Some frames) w = Ok () (w\<lparr>pool := qs,
    nodes := (nodes w)(ps [\<mapsto>] map (\<lambda>p. \<lparr>lprev = p, lnext = p\<rparr>) ps),
    skbs := (skbs w)(ps [\<mapsto>] map (\<lambda>frame. (SkBuff_init (raw_ptr w) BUFFLEN)\<lparr>buf :=
      take BUFFLEN frame @ replicate (BUFFLEN - length frame) 0\<rparr>) frames)\<rparr>)"
  using assms
proof (induction ps arbitrary: frames w)
  case (Cons p ps)
  then obtain frame fs where "frames = frame # fs" by (cases frames) auto
  with Cons show ?case by (simp add: netdev_rx_step_run [of w p "ps @ qs"] bnd_run)
qed (simp add: run_basic)

theorem frames_are_ignored_witness:
  "\<exists>w'. netdev_rx_loop [Some (replicate 60 0xff), Some []] (blank_net\<lparr>pool := [0x555555554000, 0x555555555000]\<rparr>) = Ok () w'
    \<and> tap_out w' = [] \<and> pool w' = [] \<and> dom (skbs w') = {0x555555554000, 0x555555555000}"
proof -
  have "(ucast (drop_bit 32 (0x555555554000 :: ptr)) :: u16) \<notin> {ETH_P_ARP, ETH_P_IP}"
    "(ucast (drop_bit 32 (0x555555555000 :: ptr)) :: u16) \<notin> {ETH_P_ARP, ETH_P_IP}" by code_simp+
  then show ?thesis
    using frames_are_ignored [of "blank_net\<lparr>pool := [0x555555554000, 0x555555555000]\<rparr>"
        "[0x555555554000, 0x555555555000]" "[]" "[replicate 60 0xff, []]"]
    by (simp add: blank_net_def blank_def tcp_world.defs net_world.defs insert_commute)
qed

end
