(* ===== verification/Calls.thy ===== *)
theory Calls
  imports Stack_Rules
begin

text \<open>
  What the system calls do: creating a socket, unknown descriptors, flags, polling, and
  connecting in blocking mode.
\<close>

unbundle bit_operations_syntax

section \<open>Descriptors\<close>

abbreviation matching :: "(ptr \<Rightarrow> socket) \<Rightarrow> int \<Rightarrow> int \<Rightarrow> ptr \<Rightarrow> bool" where
  "matching S pid fd x \<equiv> so_pid (S x) = pid \<and> so_fd (S x) = fd"

lemma get_socket_run:
  assumes "socket_table w xs S"
  shows "get_socket pid fd w = Ok (found (find (matching S pid fd) xs)) w"
proof -
  have rep: "qrep w (sockets_queue w) xs" and S: "\<And>x. x \<in> set xs \<Longrightarrow> sockets w x = Some (S x)"
    using assms by (auto simp: socket_table_def)
  have "x \<noteq> null" if "x \<in> set xs" for x using rep that by (auto simp: qrep_def)
  then have "list_for_each (sockets_queue w) (get_socket_body pid fd) null w
      = Ok (scan (\<lambda>x s. if matching S pid fd x then (True, x) else (False, s)) xs null) w"
    using S by (intro list_for_each_pure [OF rep]) (simp add: get_socket_body_def list_entry_def run)
  then show ?thesis
    by (simp add: get_socket_def run scan_find)
qed

lemma get_socket_some:
  assumes "socket_table w xs S" and "find (matching S pid fd) xs = Some p"
  shows "get_socket pid fd w = Ok p w" and "p \<noteq> null" and "sockets w p = Some (S p)"
proof -
  show "get_socket pid fd w = Ok p w"
    using get_socket_run [OF assms(1), of pid fd] assms(2) by (simp add: found_def)
  have "p \<in> set xs" using assms(2) by (auto simp: find_Some_iff)
  then show "p \<noteq> null" "sockets w p = Some (S p)"
    using assms(1) by (auto simp: socket_table_def qrep_def)
qed

text \<open>
  A descriptor the process does not have: every call returns its error and leaves the
  whole state as it was.
\<close>

theorem unknown_descriptor:
  assumes "socket_table w xs S" and "\<forall>x \<in> set xs. \<not> matching S pid fd x" and "pf_fd p = fd"
  shows "sys_connect ipo others pid fd addr n w = Ok (-1) w
    \<and> sys_write ipo pid fd bs n w = Ok (-1) w \<and> sys_read pid fd n w = Ok (-1) w
    \<and> sys_close ipo pid fd w = Ok (-1) w \<and> sys_fcntl pid fd cmd arg w = Ok (- EBADF) w
    \<and> sys_getsockopt pid fd level optname w = Ok (- EBADF, None) w
    \<and> sys_getpeername pid fd w = Ok (- EBADF, None) w \<and> sys_getsockname pid fd w = Ok (- EBADF, None) w
    \<and> sys_poll others pid (p # ps) timeout w = Ok (p # ps, - EBADF) w"
proof -
  have "find (matching S pid fd) xs = None" using assms(2) by (simp add: find_None_iff)
  then have g: "get_socket pid fd w = Ok null w"
    using get_socket_run [OF assms(1), of pid fd] by (simp add: found_def)
  then have "sys_poll others pid (p # ps) timeout w = Ok (p # ps, - EBADF) w"
    using assms(3) by (subst sys_poll.simps) (simp add: run)
  with g show ?thesis
    by (simp add: sys_connect_def sys_write_def sys_read_def sys_close_def sys_fcntl_def
        sys_getsockopt_def sys_getpeername_def sys_getsockname_def with_ops_def with_socket_def run)
qed

theorem unknown_descriptor_witness:
  "sys_read 7 5 100 (put_queue 16 [64] (blank\<lparr>sockets := [64 \<mapsto> Socket_init 0 0 7]\<rparr>))
    = Ok (-1) (put_queue 16 [64] (blank\<lparr>sockets := [64 \<mapsto> Socket_init 0 0 7]\<rparr>))"
  (is "sys_read _ _ _ ?w = _")
proof -
  have "socket_table ?w [64] (\<lambda>_. Socket_init 0 0 7)"
    by (simp add: socket_table_def put_queue_def blank_def qrep_def linked_def nx_def pv_def)
  from unknown_descriptor [OF this, of 7 5 "\<lparr>pf_fd = 5, pf_events = 0, pf_revents = 0\<rparr>"]
  show ?thesis by (simp add: Socket_init_def)
qed

lemma unlocked [simp]: "\<not> so_locked s \<Longrightarrow> s\<lparr>so_locked := False\<rparr> = s"
  by simp

text \<open>
  The service's debugging pass. It locks, reads and unlocks every socket, so it changes
  nothing when all are free and attached to a live sock; a socket without one, as between
  its registration and \<open>inet_create\<close>, faults.
\<close>

definition attached :: "'w tcp_world_scheme \<Rightarrow> socket \<Rightarrow> bool" where
  "attached w s \<longleftrightarrow> so_sk s \<noteq> null \<and> (\<exists>k. socks w (so_sk s) = Some k
     \<and> receive_queue k \<noteq> null \<and> queues w (receive_queue k) \<noteq> None
     \<and> write_queue k \<noteq> null \<and> queues w (write_queue k) \<noteq> None)"

lemma socket_debug_body_run:
  assumes "p \<noteq> null" and "sockets w p = Some s" and "\<not> so_locked s" and "0 < so_refcnt s" and "attached w s"
  shows "socket_debug_body p u w = Ok (False, ()) w"
proof -
  have "(sockets w)(p \<mapsto> s) = sockets w" using assms(2) by (intro fun_upd_idem) simp
  then show ?thesis
    using assms by (auto simp: socket_debug_body_def list_entry_def attached_def queue_size_def run)
qed

lemma socket_debug_run:
  assumes "socket_table w xs S" and "\<forall>x \<in> set xs. \<not> so_locked (S x) \<and> 0 < so_refcnt (S x) \<and> attached w (S x)"
  shows "socket_debug w = Ok () w"
proof -
  have rep: "qrep w (sockets_queue w) xs" and nz: "\<And>x. x \<in> set xs \<Longrightarrow> x \<noteq> null"
    using assms(1) by (auto simp: socket_table_def qrep_def)
  have "socket_debug_body x u w = Ok (False, ()) w" if "x \<in> set xs" for x u
    using assms that by (intro socket_debug_body_run [OF nz, of x w "S x"]) (auto simp: socket_table_def)
  then have "list_for_each (sockets_queue w) socket_debug_body () w = Ok (scan (\<lambda>x s. (False, ())) xs ()) w"
    by (rule list_for_each_pure [OF rep])
  then show ?thesis by (simp add: socket_debug_def run)
qed

lemma socket_debug_body_faults:
  assumes "p \<noteq> null" and "sockets w p = Some s" and "\<not> so_locked s" and "so_sk s = null"
  shows "socket_debug_body p u w = Err NullDeref"
  using assms by (simp add: socket_debug_body_def list_entry_def run)

text \<open>
  Flags written with \<open>F_SETFL\<close> are what \<open>F_GETFL\<close> reads, and nothing but the
  flags of that socket has changed; its lock is free again after both calls.
\<close>

theorem fcntl_roundtrip:
  assumes "socket_table w xs S" and "find (matching S pid fd) xs = Some p"
    and "\<not> so_locked (S p)" and "0 < so_refcnt (S p)"
  shows "sq (sys_fcntl pid fd F_SETFL (Some v)) (sys_fcntl pid fd F_GETFL None) w
    = Ok v (w\<lparr>sockets := (sockets w)(p \<mapsto> (S p)\<lparr>so_flags := v\<rparr>)\<rparr>)"
proof -
  note p = get_socket_some [OF assms(1,2)]
  let ?s = "(S p)\<lparr>so_flags := v\<rparr>"
  let ?w = "w\<lparr>sockets := (sockets w)(p \<mapsto> ?s)\<rparr>"
  have set: "sys_fcntl pid fd F_SETFL (Some v) w = Ok 0 ?w"
    using p assms(3,4)
    by (simp add: sys_fcntl_def with_socket_def run F_SETFL_def F_GETFL_def)
  have "socket_table ?w xs (S(p := ?s))"
    using assms(1) by (auto simp: socket_table_def)
  moreover have "matching (S(p := ?s)) pid fd = matching S pid fd" by (auto simp: fun_eq_iff)
  ultimately have "get_socket pid fd ?w = Ok p ?w"
    using get_socket_some(1) [of ?w xs "S(p := ?s)" pid fd p] assms(2) by simp
  then have "sys_fcntl pid fd F_GETFL None ?w = Ok v ?w"
    using p(2) assms(3,4)
    by (simp add: sys_fcntl_def with_socket_def run)
  with set show ?thesis by (simp add: run)
qed

theorem fcntl_roundtrip_witness:
  "\<exists>w'. sq (sys_fcntl 7 4098 F_SETFL (Some O_NONBLOCK)) (sys_fcntl 7 4098 F_GETFL None)
      (put_queue 16 [64] (blank\<lparr>sockets := [64 \<mapsto> Socket_init 0 0 7]\<rparr>)) = Ok O_NONBLOCK w'"
  (is "\<exists>w'. sq _ _ ?w = _")
proof -
  have "socket_table ?w [64] (\<lambda>_. Socket_init 0 0 7)"
    by (simp add: socket_table_def put_queue_def blank_def qrep_def linked_def nx_def pv_def)
  from fcntl_roundtrip [OF this, of 7 4098 64 O_NONBLOCK]
  show ?thesis by (simp add: Socket_init_def)
qed

section \<open>Polling\<close>

definition poll_result :: "(int \<Rightarrow> u16) \<Rightarrow> pollfd \<Rightarrow> pollfd" where
  "poll_result E p = p\<lparr>pf_revents := E (pf_fd p) AND (pf_events p OR POLLHUP OR POLLERR OR POLLNVAL)\<rparr>"

definition ready :: "pollfd list \<Rightarrow> int" where
  "ready ps = int (length (filter (\<lambda>p. 0 < sint (pf_revents p)) ps))"

text \<open>Every descriptor polled is that of a free socket whose sock has the events \<open>E\<close>.\<close>

definition pollable :: "'w sock_world_scheme \<Rightarrow> int \<Rightarrow> pollfd list \<Rightarrow> (int \<Rightarrow> u16) \<Rightarrow> bool" where
  "pollable w pid fds E \<longleftrightarrow> (\<exists>xs S. socket_table w xs S \<and> (\<forall>p \<in> set fds. \<exists>x k.
     find (matching S pid (pf_fd p)) xs = Some x \<and> \<not> so_locked (S x) \<and> 0 < so_refcnt (S x)
     \<and> so_sk (S x) \<noteq> null \<and> socks w (so_sk (S x)) = Some k \<and> poll_events k = E (pf_fd p)))"

lemma pollable_result [simp]: "pollable w pid (map (poll_result E') fds) E = pollable w pid fds E"
  by (simp add: pollable_def poll_result_def)

lemma poll_result_twice [simp]: "poll_result E (poll_result E' p) = poll_result E p"
  by (simp add: poll_result_def)

lemma poll_pass_run:
  "pollable w pid fds E \<Longrightarrow>
     poll_pass pid fds n w = Ok (map (poll_result E) fds, Some (n + ready (map (poll_result E) fds))) w"
proof (induction fds arbitrary: n)
  case (Cons p fds)
  from Cons.prems obtain xs S where t: "socket_table w xs S" and all: "\<forall>p \<in> set (p # fds). \<exists>x k.
      find (matching S pid (pf_fd p)) xs = Some x \<and> \<not> so_locked (S x) \<and> 0 < so_refcnt (S x)
      \<and> so_sk (S x) \<noteq> null \<and> socks w (so_sk (S x)) = Some k \<and> poll_events k = E (pf_fd p)"
    unfolding pollable_def by blast
  from all obtain x k where x: "find (matching S pid (pf_fd p)) xs = Some x" "\<not> so_locked (S x)"
      "0 < so_refcnt (S x)"
    and k: "so_sk (S x) \<noteq> null" "socks w (so_sk (S x)) = Some k" "poll_events k = E (pf_fd p)"
    by auto
  have rest: "pollable w pid fds E" using Cons.prems by (auto simp: pollable_def)
  note g = get_socket_some [OF t x(1)]
  let ?u = "w\<lparr>sockets := (sockets w)(x \<mapsto> (S x)\<lparr>so_locked := True, so_refcnt := so_refcnt (S x) + 1\<rparr>)\<rparr>"
  have acquire: "socket_rd_acquire x w = Ok 0 ?u"
    using g x(2) by (simp add: socket_acquire_run)
  have "(sockets w)(x \<mapsto> S x) = sockets w" using g(3) by auto
  then have release: "socket_release x ?u = Ok 0 w"
    using g(2) x(2,3) by (simp add: socket_release_run)
  have events: "load sockets x ?u = Ok ((S x)\<lparr>so_locked := True, so_refcnt := so_refcnt (S x) + 1\<rparr>) ?u"
    "load socks (so_sk (S x)) ?u = Ok k ?u"
    using g(2) k by simp_all
  show ?case
    using g(2) k(3) release
    by (simp add: bnd_run run_basic g(1) acquire events Cons.IH [OF rest] poll_result_def ready_def)
qed (simp add: run ready_def)



section \<open>Creating a socket\<close>

lemma queue_new_run:
  assumes "pool w = q # ps"
  shows "queue_new w = Ok q (w\<lparr>pool := ps, nodes := (nodes w)(q \<mapsto> \<lparr>lprev = q, lnext = q\<rparr>),
    queues := (queues w)(q \<mapsto> \<lparr>qlen = 0, qoffset = 0\<rparr>)\<rparr>)"
  using assms by (simp add: queue_new_def new_addr_def queue_init_def init_node_def run)

lemma qrep_fresh: "q \<noteq> null \<Longrightarrow> nodes w q = Some \<lparr>lprev = q, lnext = q\<rparr> \<Longrightarrow>
    queues w q = Some \<lparr>qlen = 0, qoffset = 0\<rparr> \<Longrightarrow> qrep w q []"
  by (simp add: qrep_def linked_def nx_def pv_def)

lemma sys_socket_new_run:
  assumes rep: "qrep w (sockets_queue w) xs" and pool: "pool w = [p, s, rq, wq, oq] @ ps"
    and fresh: "distinct ([p, s, rq, wq, oq] @ sockets_queue w # xs)" "null \<notin> {p, s, rq, wq, oq}"
    and ty: "SOCK_STREAM AND short_of_int ty \<noteq> 0"
  shows "\<exists>w' k. sys_socket raw pid 2 ty proto w = Ok 4098 w'
    \<and> qrep w' (sockets_queue w) (xs @ [p])
    \<and> sockets w' = (sockets w)(p \<mapsto> \<lparr>so_fd = 4098, so_pid = pid, so_refcnt = 1, so_state = SS_UNCONNECTED,
        so_type = short_of_int ty, so_flags = 2, so_sk = s, so_ops = True, so_sleeping = False, so_locked = False\<rparr>)
    \<and> socks w' = (socks w)(s \<mapsto> k) \<and> sk_socket k = p \<and> sk_state k = TCP_CLOSE \<and> sk_protocol k = proto
    \<and> poll_events k = 0 \<and> receive_queue k = rq \<and> write_queue k = wq
    \<and> tsks w' = (tsks w)(s \<mapsto> (raw_tsk w)\<lparr>rmss := 1460, smss := 536, sackok := 1, ofo_queue := oq\<rparr>)
    \<and> qrep w' rq [] \<and> qrep w' wq [] \<and> qrep w' oq [] \<and> sock_amount w' = sock_amount w + 1"
proof -
  let ?self = "\<lambda>q. \<lparr>lprev = q, lnext = q\<rparr>" and ?empty = "\<lparr>qlen = 0, qoffset = 0\<rparr>"
  let ?k = "(Sock_init raw rq wq)\<lparr>sk_state := TCP_CLOSE, sk_protocol := proto, sk_socket := p, poll_events := 0\<rparr>"
  let ?s = "(Socket_init (raw_ptr w) 0 pid)\<lparr>so_type := short_of_int ty, so_ops := True, so_sk := s\<rparr>"
  let ?u = "w\<lparr>pool := ps, nodes := (nodes w)(p \<mapsto> ?self p, rq \<mapsto> ?self rq, wq \<mapsto> ?self wq, oq \<mapsto> ?self oq),
    queues := (queues w)(rq \<mapsto> ?empty, wq \<mapsto> ?empty, oq \<mapsto> ?empty),
    sockets := (sockets w)(p \<mapsto> ?s), socks := (socks w)(s \<mapsto> ?k),
    tsks := (tsks w)(s \<mapsto> Tcp_Sock_init (raw_tsk w) oq)\<rparr>"
  have "qrep ?u (sockets_queue w) xs"
    by (rule qrep_cong [OF rep]) (use fresh in auto)
  moreover have "detached ?u p" using fresh by (simp add: detached_def)
  ultimately obtain v where v: "queue_add_tail (sockets_queue w) p ?u = Ok () v"
    "qrep v (sockets_queue w) (xs @ [p])" "touches (sockets_queue w) (insert p (set xs)) ?u v"
    using queue_add_tail_run [of ?u "sockets_queue w" xs p] fresh by auto
  have eq: "v = ?u\<lparr>nodes := nodes v, queues := queues v\<rparr>" by (rule touches_eq [OF v(3)])
  have make: "inet_create raw p proto (w\<lparr>pool := [s, rq, wq, oq] @ ps, nodes := (nodes w)(p \<mapsto> ?self p),
      sockets := (sockets w)(p \<mapsto> (Socket_init (raw_ptr w) 0 pid)\<lparr>so_type := short_of_int ty\<rparr>)\<rparr>) = Ok 0 ?u"
    using fresh ty by (simp add: inet_create_def sk_alloc_def tcp_alloc_sock_def new_addr_def
        queue_new_run sock_init_data_def run)
  let ?w = "v\<lparr>sock_amount := sock_amount w + 1\<rparr>"
  have v_fields: "sockets v = (sockets w)(p \<mapsto> ?s)" "socks v = (socks w)(s \<mapsto> ?k)"
    "tsks v = (tsks w)(s \<mapsto> Tcp_Sock_init (raw_tsk w) oq)" "sock_amount v = sock_amount w"
    by (subst eq, simp)+
  have locked: "socket_rd_acquire p ?w = Ok 0 (?w\<lparr>sockets := (sockets w)(p \<mapsto> ?s\<lparr>so_locked := True, so_refcnt := 2\<rparr>)\<rparr>)"
    using fresh v_fields by (simp add: socket_acquire_run Socket_init_def)
  have released: "socket_release p (?w\<lparr>sockets := (sockets w)(p \<mapsto> ?s\<lparr>so_locked := True, so_refcnt := 2\<rparr>)\<rparr>)
      = Ok 0 (?w\<lparr>sockets := (sockets w)(p \<mapsto> ?s)\<rparr>)"
    using fresh by (simp add: socket_release_run Socket_init_def)
  have same: "?w\<lparr>sockets := (sockets w)(p \<mapsto> ?s)\<rparr> = ?w" by (simp add: v_fields [symmetric])
  have new: "Socket_new pid w = Ok p (w\<lparr>pool := [s, rq, wq, oq] @ ps, nodes := (nodes w)(p \<mapsto> ?self p),
      sockets := (sockets w)(p \<mapsto> Socket_init (raw_ptr w) 0 pid)\<rparr>)"
    using pool by (simp add: Socket_new_def new_addr_def init_node_def run)
  have fd: "so_fd (Socket_init r n pid) = 4098" for r n by (simp add: Socket_init_def)
  have run: "sys_socket raw pid 2 ty proto w = Ok 4098 ?w"
    using fresh make v(1) v_fields(4) locked released [unfolded same]
    by (simp add: sys_socket_def bnd_run run_basic new upd_so_run upd_socks_run load_run AF_INET_def fd)
  have queues: "qrep v rq []" "qrep v wq []" "qrep v oq []"
    by (rule touches_other_queue [OF v(3)]; use fresh in \<open>auto intro: qrep_fresh\<close>)+
  show ?thesis
    by (intro exI [of _ ?w] exI [of _ ?k])
      (use run v(2) v_fields queues in \<open>simp add: Socket_init_def Sock_init_def Tcp_Sock_init_def\<close>)
qed

text \<open>
  C16. A new stream socket: the call answers 4098, the socket joins the end of the table,
  unconnected, free, with one reference, flags \<open>O_RDWR\<close> and its transport side attached;
  that side is closed, has no events, no retransmission limit but the default segment size
  536, and three empty queues.
\<close>

theorem sys_socket_run:
  assumes rep: "qrep w (sockets_queue w) xs" and pool: "pool w = [p, s, rq, wq, oq] @ ps"
    and fresh: "distinct ([p, s, rq, wq, oq] @ sockets_queue w # xs)" "null \<notin> {p, s, rq, wq, oq}"
    and ty: "SOCK_STREAM AND short_of_int ty \<noteq> 0"
  shows "\<exists>w' k. sys_socket raw pid 2 ty proto w = Ok 4098 w'
    \<and> qrep w' (sockets_queue w) (xs @ [p])
    \<and> sockets w' = (sockets w)(p \<mapsto> \<lparr>so_fd = 4098, so_pid = pid, so_refcnt = 1, so_state = SS_UNCONNECTED,
        so_type = short_of_int ty, so_flags = 2, so_sk = s, so_ops = True, so_sleeping = False, so_locked = False\<rparr>)
    \<and> socks w' = (socks w)(s \<mapsto> k) \<and> sk_socket k = p \<and> sk_state k = TCP_CLOSE \<and> sk_protocol k = proto
    \<and> poll_events k = 0 \<and> receive_queue k = rq \<and> write_queue k = wq
    \<and> tsks w' = (tsks w)(s \<mapsto> (raw_tsk w)\<lparr>rmss := 1460, smss := 536, sackok := 1, ofo_queue := oq\<rparr>)
    \<and> qrep w' rq [] \<and> qrep w' wq [] \<and> qrep w' oq [] \<and> sock_amount w' = sock_amount w + 1"
  by (rule sys_socket_new_run [OF assms])

theorem sys_socket_run_witness:
  "\<exists>w'. sys_socket blank_sk 7 2 1 6 (put_queue 16 [] (blank\<lparr>pool := [64, 72, 80, 88, 96]\<rparr>)) = Ok 4098 w'
    \<and> qrep w' 16 [64] \<and> sock_amount w' = 1"
  (is "\<exists>w'. sys_socket _ _ _ _ _ ?w = _ \<and> _")
proof -
  have "qrep ?w (sockets_queue ?w) []"
    by (simp add: put_queue_def blank_def qrep_def linked_def nx_def pv_def)
  moreover have "SOCK_STREAM AND short_of_int 1 \<noteq> 0" by code_simp
  ultimately show ?thesis
    using sys_socket_run [of ?w "[]" 64 72 80 88 96 "[]" 1 blank_sk 7 6]
    by (auto simp: put_queue_def blank_def)
qed

section \<open>Connecting\<close>

text \<open>
  Up to its output TCP does not touch the application's side of a socket: the rules of
  \<open>Stack_Rules\<close>, for the relation that the table of sockets is the same.
\<close>

interpretation same_sockets: sock_rel "same sockets"
proof unfold_locales
  show "keeps (same sockets) (tcp_alloc_sock raw)" for raw
    unfolding tcp_alloc_sock_def new_addr_def queue_new_def queue_init_def init_node_def
    by (auto simp: same_def intro!: keep keeps_upd)
qed (auto simp: same_def upd_tsk_def intro!: keep keeps_upd keeps_new_addr keeps_socks_any)

lemma same_sockets_set_err: "keeps (same sockets) (set_err sk e)"
  unfolding set_err_def by (rule same_sockets.R_sk) simp

lemma tcp_v4_connect_sockets:
  assumes "\<And>sk skb. keeps (same sockets) (ipo sk skb)"
    and "tcp_v4_connect ipo sk port a w = Ok r w'"
  shows "sockets w' = sockets w"
proof -
  have "output_rel (same sockets) ipo" by unfold_locales (rule assms(1))
  from keepsD [OF output_rel.R_connect_ops(2) [OF this] assms(2)]
  show ?thesis by (simp add: same_def)
qed

lemma set_err_run:
  "sk \<noteq> null \<Longrightarrow> socks w sk = Some k \<Longrightarrow>
     set_err sk e w = Ok () (w\<lparr>socks := (socks w)(sk \<mapsto> k\<lparr>sk_err := e\<rparr>)\<rparr>)"
  "set_err null e w = Err NullDeref"
  by (simp_all add: set_err_def upd_sk_def run)

text \<open>What \<open>inet_stream_connect\<close> does after TCP has sent its segment: it stops at the wait.\<close>

definition after_connect :: "'w others \<Rightarrow> ptr \<Rightarrow> ptr \<Rightarrow> ('w tcp_world_scheme, int) M" where
  "after_connect others p sk = sq (upd_so p (\<lambda>s. s\<lparr>so_state := SS_CONNECTING\<rparr>))
    (sq (set_err sk (- EINPROGRESS)) (bnd (load sockets p) (\<lambda>s.
      if so_flags s AND O_NONBLOCK \<noteq> 0 then get_err sk
      else sq (connect_wait others p sk) (sq (socket_wr_acquire p)
        (bnd (get_err sk) (\<lambda>e. if e \<noteq> 0 then ret e
          else sq (upd_so p (\<lambda>s. s\<lparr>so_state := SS_CONNECTED\<rparr>)) (get_err sk)))))))"

lemma after_connect_stuck:
  assumes p: "p \<noteq> null" "sockets v p = Some s" and s: "so_locked s" "so_flags s AND O_NONBLOCK = 0"
  shows "after_connect others p sk v \<noteq> Ok e x"
proof
  assume "after_connect others p sk v = Ok e x"
  then obtain v1 v2 z y where v1: "upd_so p (\<lambda>s. s\<lparr>so_state := SS_CONNECTING\<rparr>) v = Ok () v1"
    and v2: "set_err sk (- EINPROGRESS) v1 = Ok () v2" and z: "sockets v2 p = Some z"
    and rest: "(if so_flags z AND O_NONBLOCK \<noteq> 0 then get_err sk else sq (connect_wait others p sk) y) v2 = Ok e x"
    unfolding after_connect_def by (elim bnd_OkE) (auto simp del: bnd_Ok_iff)
  have "sockets v1 p = Some (s\<lparr>so_state := SS_CONNECTING\<rparr>)" using v1 p by (auto simp: upd_so_run)
  moreover have "sockets v2 = sockets v1"
    using keepsD [OF same_sockets_set_err v2] by (simp add: same_def)
  ultimately have "z = s\<lparr>so_state := SS_CONNECTING\<rparr>" "sockets v2 p = Some z" using z by simp_all
  with rest s p(1) show False by (simp add: connect_wait_def bnd_run load_run run_basic)
qed

lemma inet_stream_connect_stuck:
  assumes p: "p \<noteq> null" "sockets w p = Some s" and s: "so_locked s" "so_flags s AND O_NONBLOCK = 0" "so_state s = SS_UNCONNECTED"
    and sk: "socks w (so_sk s) = Some k" "sk_state k = TCP_CLOSE"
    and addr: "sin_family addr \<noteq> AF_UNSPEC" "2 \<le> n"
    and ipo: "\<And>sk skb. keeps (same sockets) (ipo sk skb)"
  shows "inet_stream_connect ipo others p addr n 0 w \<noteq> Ok e x"
proof -
  let ?v = "w\<lparr>socks := (socks w)(so_sk s \<mapsto> k\<lparr>sk_err := - EISCONN\<rparr>)\<rparr>"
  let ?tcp = "tcp_v4_connect ipo (so_sk s) (sin_port addr) (sin_addr addr)"
  have "inet_stream_connect ipo others p addr n 0 w
      = (if so_sk s = null then Err NullDeref else bnd ?tcp (\<lambda>_. after_connect others p (so_sk s)) ?v)"
    using p s(3) sk addr
    by (cases "so_sk s = null")
      (simp_all add: inet_stream_connect_def bnd_run run_basic load_run set_err_run after_connect_def Let_def
        cong: if_cong cong del: andthen_cong)
  moreover have "after_connect others p (so_sk s) v \<noteq> Ok e x" if "?tcp ?v = Ok c v" for c v
    by (rule after_connect_stuck [OF p(1) _ s(1,2)]) (use tcp_v4_connect_sockets [OF ipo that] p(2) in simp)
  ultimately show ?thesis by (auto split: if_splits)
qed

text \<open>
  C38. A blocking connect never returns: \<open>sys_connect\<close> calls into INET with the
  socket's lock held, and \<open>inet_stream_connect\<close> takes the same lock once more before it
  waits. Whatever the layer below does with the segment (as long as it leaves the sockets
  alone) and whatever other threads do, no such call comes back.
\<close>

theorem blocking_connect_never_returns:
  assumes table: "socket_table w xs S" "find (matching S pid fd) xs = Some p"
    and so: "so_state (S p) = SS_UNCONNECTED" "so_flags (S p) AND O_NONBLOCK = 0"
    and sk: "socks w (so_sk (S p)) = Some k" "sk_state k = TCP_CLOSE"
    and addr: "sin_family addr \<noteq> AF_UNSPEC" "2 \<le> int_of_unsigned n"
    and ipo: "\<And>sk skb. keeps (same sockets) (ipo sk skb)"
  shows "\<nexists>r w'. sys_connect ipo others pid fd addr n w = Ok r w'"
proof
  assume "\<exists>r w'. sys_connect ipo others pid fd addr n w = Ok r w'"
  then obtain r w' where run: "sys_connect ipo others pid fd addr n w = Ok r w'" by blast
  note g = get_socket_some [OF table]
  let ?s = "(S p)\<lparr>so_locked := True, so_refcnt := so_refcnt (S p) + 1\<rparr>"
  let ?u = "w\<lparr>sockets := (sockets w)(p \<mapsto> ?s)\<rparr>"
  have free: "\<not> so_locked (S p)"
    using run g by (auto simp: sys_connect_def bnd_run socket_acquire_run)
  have "inet_stream_connect ipo others p addr (int_of_unsigned n) 0 ?u \<noteq> Ok e x" for e x
    by (rule inet_stream_connect_stuck [of _ _ ?s]) (use g so sk addr ipo in simp_all)
  then have "sys_connect ipo others pid fd addr n w \<noteq> Ok r w'"
    using g free by (auto simp: sys_connect_def bnd_run run_basic socket_acquire_run load_run andthen_def
        split: option.splits sum.splits prod.splits)
  with run show False by simp
qed

theorem blocking_connect_never_returns_witness:
  "\<nexists>r w'. sys_connect (\<lambda>sk skb. ret 0) skip 7 4098 \<lparr>sin_family = 2, sin_port = 80, sin_addr = 1\<rparr> 16
     (put_queue 16 [64] (blank\<lparr>sockets := [64 \<mapsto> (Socket_init 72 0 7)\<lparr>so_ops := True\<rparr>], socks := [72 \<mapsto> blank_sk],
       tsks := [72 \<mapsto> blank_tsk]\<rparr>)) = Ok r w'"
  (is "\<nexists>r w'. sys_connect _ _ _ _ _ _ ?w = _")
proof (rule blocking_connect_never_returns [where k = blank_sk])
  show "socket_table ?w [64] (\<lambda>_. (Socket_init 72 0 7)\<lparr>so_ops := True\<rparr>)"
    by (simp add: socket_table_def put_queue_def blank_def qrep_def linked_def nx_def pv_def)
  show "keeps (same sockets) (ret 0)" by (auto intro!: keep)
  show "2 \<le> int_of_unsigned 16" by code_simp
qed (simp_all add: Socket_init_def put_queue_def O_NONBLOCK_def AF_UNSPEC_def blank_sk_def)

end
