(* ===== verification/Stack.thy ===== *)
theory Stack
  imports Net_Facts Calls
begin

text \<open>
  The whole stack as a transition system: one step is a system call of an application, a
  round of the timer service, a handler it started, or a frame from the tap. Invariants of
  all reachable states follow from the rules of \<open>Stack_Rules\<close>.

  While a call sleeps the other threads make steps of their own: what \<open>others\<close> does in a
  blocking call is any computation whose runs are sequences of steps.
\<close>

section \<open>Steps\<close>

inductive stack_step :: "'w net_world_scheme \<Rightarrow> 'w net_world_scheme \<Rightarrow> bool" where
  Socket: "sys_socket raw pid domain ty proto w = Ok r w' \<Longrightarrow> stack_step w w'"
| Connect: "(\<And>u u'. others u = Ok () u' \<Longrightarrow> stack_step\<^sup>*\<^sup>* u u') \<Longrightarrow>
    sys_connect ip_output others pid fd addr n w = Ok r w' \<Longrightarrow> stack_step w w'"
| Write: "sys_write ip_output pid fd bs n w = Ok r w' \<Longrightarrow> stack_step w w'"
| Read: "sys_read pid fd n w = Ok r w' \<Longrightarrow> stack_step w w'"
| Close: "sys_close ip_output pid fd w = Ok r w' \<Longrightarrow> stack_step w w'"
| Poll: "(\<And>u u'. others u = Ok () u' \<Longrightarrow> stack_step\<^sup>*\<^sup>* u u') \<Longrightarrow>
    sys_poll others pid fds timeout w = Ok q w' \<Longrightarrow> stack_step w w'"
| Fcntl: "sys_fcntl pid fd cmd arg w = Ok r w' \<Longrightarrow> stack_step w w'"
| Sockopt: "sys_getsockopt pid fd level optname w = Ok o' w' \<Longrightarrow> stack_step w w'"
| Peername: "sys_getpeername pid fd w = Ok a w' \<Longrightarrow> stack_step w w'"
| Sockname: "sys_getsockname pid fd w = Ok a w' \<Longrightarrow> stack_step w w'"
| Abort: "abort_sockets ip_output w = Ok () w' \<Longrightarrow> stack_step w w'"
| Tick: "timers_start_round w = Ok () w' \<Longrightarrow> stack_step w w'"
| Handler: "h \<in> set (spawned w) \<Longrightarrow> run_handler ip_output h w = Ok () w' \<Longrightarrow> stack_step w w'"
| Frame: "netdev_rx_step frame w = Ok b w' \<Longrightarrow> stack_step w w'"

inductive_cases stack_stepE: "stack_step w w'"

definition stack_init :: "'w net_world_scheme \<Rightarrow> bool" where
  "stack_init w \<longleftrightarrow> tsks w = Map.empty \<and> sockets w = Map.empty \<and> length (sacks (raw_tsk w)) = 4"

section \<open>Every step keeps what the elementary updates keep\<close>

lemma rtranclp_conj: "(\<lambda>x y. S x y \<and> T x y)\<^sup>*\<^sup>* u u' \<Longrightarrow> T\<^sup>*\<^sup>* u u'"
  by (induction rule: rtranclp_induct) (auto intro: rtranclp.rtrancl_into_rtrancl)

context net_rel begin

lemma keeps_others:
  assumes "\<And>u u'. others u = Ok () u' \<Longrightarrow> R\<^sup>*\<^sup>* u u'"
  shows "keeps R others"
proof (rule keepsI)
  fix u x u'
  assume "others u = Ok x u'"
  then have "R\<^sup>*\<^sup>* u u'" using assms by simp
  then show "R u u'"
    by (induction rule: rtranclp_induct) (use R_refl R_trans in \<open>auto dest: reflpD transpD\<close>)
qed

lemma stack_step_R: "stack_step w w' \<Longrightarrow> R w w'"
proof (induction rule: stack_step.induct)
  case (Connect others pid fd addr n w r w')
  have "keeps R others"
    by (rule keeps_others, rule rtranclp_conj) (rule Connect.IH)
  with Connect.hyps show ?case by (blast intro: keepsD R_sys_connect)
next
  case (Poll others pid fds timeout w q w')
  have "keeps R others"
    by (rule keeps_others, rule rtranclp_conj) (rule Poll.IH)
  with Poll.hyps show ?case by (blast intro: keepsD R_sys_poll)
qed (blast intro: keepsD R_sys_calls R_timers_start_round R_run_handler R_arrival)+

lemma stack_steps_R: "stack_step\<^sup>*\<^sup>* w w' \<Longrightarrow> R w w'"
  by (induction rule: rtranclp_induct) (use R_refl R_trans stack_step_R in \<open>auto dest: reflpD transpD\<close>)

end


section \<open>The invariant\<close>

text \<open>
  In every reachable state each \<open>Tcp_Sock\<close> is well formed (\<open>tsk_ok\<close>) and each socket has
  the descriptor 4098.
\<close>

definition stack_inv :: "'w tcp_world_scheme \<Rightarrow> bool" where
  "stack_inv w \<longleftrightarrow> (\<forall>p t. tsks w p = Some t \<longrightarrow> tsk_ok t)
     \<and> (\<forall>p s. sockets w p = Some s \<longrightarrow> so_fd s = 4098) \<and> length (sacks (raw_tsk w)) = 4"

lemma stack_inv_only:
  "tsks w' = tsks w \<Longrightarrow> sockets w' = sockets w \<Longrightarrow> raw_tsk w' = raw_tsk w \<Longrightarrow> stack_inv w' = stack_inv w"
  by (simp add: stack_inv_def)

definition owned :: "'w tcp_world_scheme \<Rightarrow> (ptr \<rightharpoonup> tcp_sock) \<times> (ptr \<rightharpoonup> socket) \<times> tcp_sock" where
  "owned w = (tsks w, sockets w, raw_tsk w)"

interpretation owned: buffer_rel "same owned"
  by unfold_locales (auto simp: same_def owned_def intro!: keep keeps_upd keeps_new_addr)

lemma keeps_owned_inv: "keeps (same owned) m \<Longrightarrow> keeps (upholds stack_inv) m"
  unfolding keeps_def same_def upholds_def owned_def stack_inv_def by auto

lemma tcp_alloc_sock_inv: "keeps (upholds stack_inv) (tcp_alloc_sock raw)"
proof (rule keepsI, unfold upholds_def, rule impI)
  fix w :: "'a tcp_world_scheme" and p w'
  assume run: "tcp_alloc_sock raw w = Ok p w'" and inv: "stack_inv w"
  have kept: "keeps (same owned) (bnd new_addr (\<lambda>p. bnd queue_new (\<lambda>rq. bnd queue_new (\<lambda>wq.
      bnd queue_new (\<lambda>oq. ret (p, rq, wq, oq))))))"
    unfolding queue_new_def by (auto intro!: keep)
  obtain rq wq oq u where alloc: "bnd new_addr (\<lambda>p. bnd queue_new (\<lambda>rq. bnd queue_new (\<lambda>wq.
      bnd queue_new (\<lambda>oq. ret (p, rq, wq, oq))))) w = Ok (p, rq, wq, oq) u"
    and w': "w' = u\<lparr>socks := (socks u)(p \<mapsto> (Sock_init raw rq wq)\<lparr>sk_state := TCP_CLOSE\<rparr>),
      tsks := (tsks u)(p \<mapsto> Tcp_Sock_init (raw_tsk u) oq)\<rparr>"
    using run by (auto simp: tcp_alloc_sock_def bnd_Ok_iff run_basic upd_apply)
  have "same owned w u" by (rule keepsD [OF kept alloc])
  with inv have "stack_inv u" by (auto simp: same_def owned_def stack_inv_def)
  then show "stack_inv w'"
    by (auto simp: w' stack_inv_def tsk_ok_def Tcp_Sock_init_def)
qed

interpretation inv: net_rel "upholds stack_inv"
proof unfold_locales
  show "keeps (upholds stack_inv) (upd_so p f)" if "\<And>s. so_fd (f s) = so_fd s" for p f
    using that by (auto simp: upd_so_def keeps_def upholds_def stack_inv_def upd_apply split: if_splits)
  show "keeps (upholds stack_inv) (upd_tsk p g)" if "\<And>t. tsk_ok t \<Longrightarrow> tsk_ok (g t)" for p g
    using that by (auto simp: upd_tsk_def keeps_def upholds_def stack_inv_def upd_apply split: if_splits)
  show "keeps (upholds stack_inv) (tcp_alloc_sock raw)" for raw
    by (rule tcp_alloc_sock_inv)
qed (auto simp: upholds_def stack_inv_def Socket_init_def split: if_splits
    intro!: keep keeps_upd keeps_new_addr keeps_socks_any keeps_net_any)



end
