(* ===== verification/State_Machine.thy ===== *)
theory State_Machine
  imports Stack
begin

text \<open>
  What whole runs of the stack do to a connection and to the wire: the state of a sock moves
  along the arcs of \<open>tcp_move\<close>, the ARP table stays well typed, and every frame ever
  written to the tap is an ARP message. Each is an interpretation of \<open>net_rel\<close>.
\<close>

section \<open>The life of a connection\<close>

text \<open>
  As long as the allocator does not hand out the address \<open>p\<close> again, the sock at \<open>p\<close> moves
  along the arcs or is freed for good.
\<close>

definition moves_along :: "ptr \<Rightarrow> 'w sock_world_scheme \<Rightarrow> 'w sock_world_scheme \<Rightarrow> bool" where
  "moves_along p w w' \<longleftrightarrow> (p \<notin> set (pool w) \<longrightarrow> p \<notin> set (pool w') \<and>
     (\<forall>k'. socks w' p = Some k' \<longrightarrow>
       (\<exists>k. socks w p = Some k \<and> tcp_move\<^sup>*\<^sup>* (sk_state k) (sk_state k'))))"

lemma moves_along_unchanged:
  "socks w' p = socks w p \<Longrightarrow> set (pool w') \<subseteq> set (pool w) \<Longrightarrow> moves_along p w w'"
  by (auto simp: moves_along_def)

lemma reflp_moves_along [simp]: "reflp (moves_along p)"
  by (auto simp: reflp_def intro: moves_along_unchanged)

lemma transp_moves_along [simp]: "transp (moves_along p)"
  unfolding transp_def moves_along_def by (meson rtranclp_trans)

lemma new_addr_Ok: "new_addr w = Ok q w' \<longleftrightarrow> (\<exists>ps. pool w = q # ps \<and> w' = w\<lparr>pool := ps\<rparr>)"
  by (auto simp: new_addr_def run split: list.splits)

lemma keeps_moves_new: "keeps (moves_along p) new_addr"
  by (auto simp: keeps_def new_addr_Ok intro: moves_along_unchanged)

lemma keeps_moves_upd:
  "(\<And>w. socks (g w) p = socks w p) \<Longrightarrow> (\<And>w. pool (g w) = pool w) \<Longrightarrow> keeps (moves_along p) (upd g)"
  by (rule keeps_upd) (simp add: moves_along_unchanged)

interpretation moves: buffer_rel "moves_along p" for p
  by unfold_locales (auto intro: keeps_moves_new keeps_moves_upd)

text \<open>A new object does not lie at \<open>p\<close>.\<close>

lemma keeps_moves_alloc:
  assumes "\<And>q. q \<noteq> p \<Longrightarrow> keeps (moves_along p) (f q)"
  shows "keeps (moves_along p) (bnd new_addr f)"
proof (rule keepsI)
  fix w x w'
  assume "bnd new_addr f w = Ok x w'"
  then obtain q u where new: "new_addr w = Ok q u" and f: "f q u = Ok x w'" by (elim bnd_OkE)
  show "moves_along p w w'"
  proof (cases "q = p")
    case True
    with new show ?thesis by (auto simp: new_addr_Ok moves_along_def)
  next
    case False
    from keepsD [OF assms [OF this] f] keepsD [OF keeps_moves_new new] show ?thesis
      by (rule transpD [OF transp_moves_along, rotated])
  qed
qed

lemma keeps_moves_queue_new: "keeps (moves_along p) queue_new"
  unfolding queue_new_def by (auto intro!: keep moves.R_queue_ops moves.R_new)

lemma keeps_moves_state:
  assumes "s = s' \<or> tcp_move s s'"
  shows "keeps_when (in_state q s) (moves_along p) (tcp_set_state q s')"
  using assms
  by (auto simp: keeps_when_def in_state_def moves_along_def tcp_set_state_def upd_sk_def bnd_Ok_iff
      upd_apply simp del: tcp_move_simps split: if_splits)

lemma keeps_moves_sk:
  assumes "\<And>k. sk_state (f k) = sk_state k"
  shows "keeps (moves_along p) (upd_sk q f)"
  using assms
  by (auto simp: keeps_def moves_along_def upd_sk_def bnd_Ok_iff upd_apply split: if_splits)

interpretation moves: net_rel "moves_along p" for p
proof unfold_locales
  show "keeps (moves_along p) (tcp_alloc_sock raw)" for raw
    unfolding tcp_alloc_sock_def
    by (rule keeps_moves_alloc) (auto intro!: keep keeps_moves_queue_new keeps_moves_upd)
  show "keeps (moves_along p) Sock_new"
    unfolding Sock_new_def
    by (rule keeps_moves_alloc) (auto intro!: keep keeps_moves_queue_new keeps_moves_upd)
  show "keeps (moves_along p) (upd (socks_update (\<lambda>h. h(q := None))))" for q
    by (rule keeps_upd) (auto simp: moves_along_def)
qed (auto simp: upd_tsk_def upd_so_def simp del: tcp_move_simps
    intro!: keep keeps_moves_sk keeps_moves_state keeps_moves_upd keeps_net_any keeps_moves_new)

text \<open>Going back is impossible: every arc leads to a later stage of a connection.\<close>

fun stage :: "tcp_state \<Rightarrow> nat" where
  "stage TCP_CLOSE = 0"
| "stage TCP_LISTEN = 0"
| "stage TCP_SYN_SENT = 1"
| "stage TCP_SYN_RECEIVED = 2"
| "stage TCP_ESTABLISHED = 3"
| "stage TCP_FIN_WAIT_1 = 4"
| "stage TCP_CLOSE_WAIT = 4"
| "stage TCP_FIN_WAIT_2 = 5"
| "stage TCP_CLOSING = 5"
| "stage TCP_LAST_ACK = 5"
| "stage TCP_TIME_WAIT = 6"

lemma tcp_move_stage: "tcp_move s t \<Longrightarrow> stage s < stage t"
  by auto

lemma tcp_moves_stage: "tcp_move\<^sup>*\<^sup>* s t \<Longrightarrow> s = t \<or> stage s < stage t"
  by (induction rule: rtranclp_induct) (auto dest: tcp_move_stage simp del: tcp_move_simps)

text \<open>
  C3. A connection follows the TCP diagram. Whatever applications call, whatever arrives and
  however the steps interleave, the state of a sock that is still there has moved along the
  arcs of \<open>tcp_move\<close> only, each an arc of RFC 793, and so never returned to a state it had
  left: a connection that was opened is never CLOSED again, and TIME-WAIT is for ever.
\<close>

theorem connection_follows_diagram:
  assumes "stack_step\<^sup>*\<^sup>* w w'" and "p \<notin> set (pool w)" and "socks w p = Some k" and "socks w' p = Some k'"
  shows "tcp_move\<^sup>*\<^sup>* (sk_state k) (sk_state k')
    \<and> (sk_state k' = sk_state k \<or> stage (sk_state k) < stage (sk_state k'))"
proof -
  have "moves_along p w w'" by (rule moves.stack_steps_R [OF assms(1)])
  then have "tcp_move\<^sup>*\<^sup>* (sk_state k) (sk_state k')" using assms(2-4) by (auto simp: moves_along_def)
  then show ?thesis using tcp_moves_stage by fastforce
qed

text \<open>
  A socket about to connect, without blocking: its \<open>inflight\<close>, which the constructor leaves
  uninitialised, says that data is under way, so the SYN is only queued.
\<close>

definition connecting_net :: net_world where
  "connecting_net = put_queue 40 [] (put_queue 32 [] (put_queue 24 [] (put_queue 104 []
     (put_queue 8 [] (put_queue 16 [64] (blank_net\<lparr>
     pool := [200, 208], next_port := Some 4000, next_iss := 7,
     sockets := [64 \<mapsto> (Socket_init 72 1 7)\<lparr>so_ops := True, so_flags := 0x802\<rparr>],
     socks := [72 \<mapsto> blank_sk\<lparr>sk_socket := 64\<rparr>],
     tsks := [72 \<mapsto> blank_tsk\<lparr>retransmit := 80, inflight := 1\<rparr>],
     timers := [80 \<mapsto> Timer_init 0 0 (Send_Delack 72) Trackable]\<rparr>))))))"

theorem connection_follows_diagram_witness:
  "\<exists>w' k'. stack_step\<^sup>*\<^sup>* connecting_net w' \<and> socks w' 72 = Some k' \<and> sk_state k' = TCP_SYN_SENT
    \<and> tcp_move\<^sup>*\<^sup>* TCP_CLOSE (sk_state k')"
proof -
  let ?call = "sys_connect ip_output skip 7 4098 \<lparr>sin_family = 2, sin_port = 80, sin_addr = 1\<rparr> 16"
  have "case ?call connecting_net of Some (Inr (r, w')) \<Rightarrow> map_option sk_state (socks w' 72) = Some TCP_SYN_SENT
      | _ \<Rightarrow> False"
    by code_simp
  then obtain r w' k' where run: "?call connecting_net = Ok r w'" and k': "socks w' 72 = Some k'" "sk_state k' = TCP_SYN_SENT"
    by (auto split: option.splits sum.splits prod.splits)
  have step: "stack_step\<^sup>*\<^sup>* connecting_net w'"
    by (rule r_into_rtranclp, rule stack_step.Connect [OF _ run]) (simp add: run_basic)
  have "72 \<notin> set (pool connecting_net)" and "socks connecting_net 72 = Some (blank_sk\<lparr>sk_socket := 64\<rparr>)"
    by (simp_all add: connecting_net_def put_queue_def blank_net_def tcp_world.defs)
  from connection_follows_diagram [OF step this k'(1)] step k' show ?thesis
    by (auto simp: blank_sk_def)
qed

section \<open>The table and the wire\<close>

text \<open>
  A well-typed ARP entry: an Ethernet address of six bytes, resolved. \<open>arp_frame\<close>: as far as
  the frame reaches, its Ethernet type is that of ARP.
\<close>

definition arp_entry_ok :: "arp_entry \<Rightarrow> bool" where
  "arp_entry_ok e \<longleftrightarrow> ae_hwtype e = ARP_ETHERNET \<and> length (ae_smac e) = 6 \<and> ae_state e = ARP_RESOLVED"

definition arp_frame :: "u8 list \<Rightarrow> bool" where
  "arp_frame f \<longleftrightarrow> take 2 (drop 12 f) = take (length f - 12) [0x08, 0x06]"

definition arps_ok :: "'w net_world_scheme \<Rightarrow> bool" where
  "arps_ok w \<longleftrightarrow> (\<forall>p e. arps w p = Some e \<longrightarrow> arp_entry_ok e)"

text \<open>What a step may do: keep the table well typed and send ARP frames.\<close>

definition on_wire :: "'w net_world_scheme \<Rightarrow> 'w net_world_scheme \<Rightarrow> bool" where
  "on_wire w w' \<longleftrightarrow> upholds arps_ok w w' \<and> (\<exists>fs. tap_out w' = tap_out w @ fs \<and> list_all arp_frame fs)"

lemma reflp_on_wire [simp]: "reflp on_wire"
  by (auto simp: reflp_def on_wire_def upholds_def)

lemma transp_on_wire [simp]: "transp on_wire"
  unfolding transp_def on_wire_def upholds_def by (metis append.assoc list_all_append)

lemma on_wire_unchanged: "arps w' = arps w \<Longrightarrow> tap_out w' = tap_out w \<Longrightarrow> on_wire w w'"
  by (simp add: on_wire_def upholds_def arps_ok_def)

lemma keeps_wire_same: "keeps (same (\<lambda>w. (arps w, tap_out w))) m \<Longrightarrow> keeps on_wire m"
  unfolding keeps_def same_def by (auto intro: on_wire_unchanged)

lemma keeps_wire_upd:
  "(\<And>w. arps (g w) = arps w) \<Longrightarrow> (\<And>w. tap_out (g w) = tap_out w) \<Longrightarrow> keeps on_wire (upd g)"
  by (rule keeps_upd) (simp add: on_wire_unchanged)

lemma keeps_wire_arp:
  assumes "arp_entry_ok e"
  shows "keeps on_wire (upd (arps_update (\<lambda>h. h(q \<mapsto> e))))"
  using assms by (auto intro!: keeps_upd simp: on_wire_def upholds_def arps_ok_def)

interpretation quiet: buffer_rel "same (\<lambda>w. (arps w, tap_out w))"
  by unfold_locales (auto simp: same_def intro!: keep keeps_upd keeps_new_addr)

lemma buf_ops_Ok:
  "write_buf p i bs w = Ok x w' \<longleftrightarrow> (\<exists>s. p \<noteq> null \<and> skbs w p = Some s \<and> in_buf s i (length bs)
     \<and> w' = w\<lparr>skbs := (skbs w)(p \<mapsto> s\<lparr>buf := splice (buf s) (nat i) bs\<rparr>)\<rparr>)"
  "push p n w = Ok z w' \<longleftrightarrow> (\<exists>s. p \<noteq> null \<and> skbs w p = Some s \<and> z = data s - n
     \<and> w' = w\<lparr>skbs := (skbs w)(p \<mapsto> s\<lparr>data := data s - n, len := len s + word_of_int n\<rparr>)\<rparr>)"
  "read_buf p i m w = Ok b w' \<longleftrightarrow> (\<exists>s. p \<noteq> null \<and> skbs w p = Some s \<and> in_buf s i m
     \<and> b = take m (drop (nat i) (buf s)) \<and> w' = w)"
  by (auto simp: write_buf_def push_def read_buf_def upd_skb_def bnd_Ok_iff run_basic upd_apply
      split: if_splits)

text \<open>The Ethernet type is written last, so it is in the frame whatever the addresses are.\<close>

lemma ethertype_in_frame:
  assumes "14 \<le> i" and "i \<le> int (length ys)" and "i - 14 + int n \<le> int (length ys)"
  shows "arp_frame (take n (drop (nat (i - 14)) (splice ys (nat (i - 2)) (bytes16 (htons ETH_P_ARP)))))"
proof -
  define k where "k = nat (i - 14)"
  let ?ty = "[0x08, 0x06] :: u8 list"
  have ty: "bytes16 (htons ETH_P_ARP) = ?ty" by code_simp
  have k: "nat (i - 2) = k + 12" "k + 14 \<le> length ys" "k + n \<le> length ys"
    using assms by (auto simp: k_def)
  have "drop (k + 12) (splice ys (k + 12) ?ty) = ?ty @ drop (k + 14) ys"
    using k by (simp add: splice_def add.commute)
  then have "drop 12 (take n (drop k (splice ys (k + 12) ?ty))) = take (n - 12) (?ty @ drop (k + 14) ys)"
    by (simp only: drop_take drop_drop add.commute [of k])
  moreover have "length (take n (drop k (splice ys (k + 12) ?ty))) = n"
    using k by (simp add: splice_def)
  ultimately show ?thesis
    unfolding arp_frame_def ty k(1) k_def [symmetric]
    by (simp add: take_append min_def take_Cons' split: nat.splits)
qed

lemma keeps_wire_transmit: "keeps on_wire (netdev_transmit p hw ETH_P_ARP)"
proof (rule keepsI)
  fix w :: "'a net_world_scheme" and r w'
  assume run: "netdev_transmit p hw ETH_P_ARP w = Ok r w'"
  let ?frame = "\<lambda>ys i n. take n (drop (nat (i - 14)) (splice ys (nat (i - 2)) (bytes16 (htons ETH_P_ARP))))"
  obtain ys i n u where u: "arps u = arps w" "tap_out u = tap_out w"
    and room: "14 \<le> i" "i \<le> int (length ys)" "i - 14 + int n \<le> int (length ys)"
    and sent: "tuntap_write (?frame ys i n) u = Ok r w'"
  proof -
    let ?s = "\<lambda>s. s\<lparr>data := data s - 14, len := len s + 14\<rparr>"
    let ?a = "\<lambda>s. splice (buf s) (nat (data s - 14)) hw"
    let ?b = "\<lambda>s d. splice (?a s) (nat (data s - 8)) (nd_hwaddr d)"
    let ?c = "\<lambda>s d. splice (?b s d) (nat (data s - 2)) (bytes16 (htons ETH_P_ARP))"
    from run obtain s :: skbuff and d :: net_device
      where "in_buf (?s s) (data s - 14) (length hw)"
        and "in_buf (?s s\<lparr>buf := ?a s\<rparr>) (data s - 8) (length (nd_hwaddr d))"
        and "in_buf (?s s\<lparr>buf := ?b s d\<rparr>) (data s - 2) 2"
        and "in_buf (?s s\<lparr>buf := ?c s d\<rparr>) (data s - 14) (unat (len s + 14))"
        and "tuntap_write (?frame (?b s d) (data s) (unat (len s + 14)))
          (w\<lparr>skbs := (skbs w)(p \<mapsto> ?s s\<lparr>buf := ?c s d\<rparr>)\<rparr>) = Ok r w'"
      by (clarsimp simp: netdev_transmit_def bnd_Ok_iff buf_ops_Ok)
    then show thesis
      by (intro that [of _ "data s" "?b s d" "unat (len s + 14)"]) (auto simp: in_buf_def)
  qed
  from sent have "arps w' = arps u \<and> tap_out w' \<in> {tap_out u, tap_out u @ [?frame ys i n]}"
    by (auto simp: tuntap_write_def bnd_Ok_iff run_basic upd_apply split: if_splits)
  then show "on_wire w w'"
    using u ethertype_in_frame [OF room] by (auto simp: on_wire_def upholds_def arps_ok_def)
qed

lemma keeps_wire_arp_new:
  assumes "length hw = 6"
  shows "keeps on_wire (insert_arp_translation_table ARP_ETHERNET sip hw)"
  unfolding insert_arp_translation_table_def using assms
  by (auto intro!: keep keeps_wire_arp keeps_wire_same [OF quiet.R_new] keeps_wire_same [OF quiet.R_queue_ops(6)]
      keeps_wire_same [OF quiet.R_queue_ops(10)] simp: arp_entry_ok_def)

lemma keeps_wire_arp_update:
  assumes "length hw = 6"
  shows "keeps on_wire (update_arp_translation_table ty sip hw)"
proof -
  have "keeps on_wire (update_arp_body ty sip hw q n)" for q n
    using assms by (auto simp: update_arp_body_def keeps_def on_wire_def upholds_def arps_ok_def
      arp_entry_ok_def bnd_Ok_iff run_basic upd_apply split: if_splits)
  then show ?thesis unfolding update_arp_translation_table_def by (auto intro!: keep)
qed

interpretation wire: net_rel on_wire
proof unfold_locales
  show "keeps on_wire (tcp_alloc_sock raw)" for raw
    unfolding tcp_alloc_sock_def queue_new_def queue_init_def
    by (rule keeps_wire_same) (auto simp: same_def intro!: keep keeps_upd keeps_new_addr quiet.R_queue_ops)
qed (auto simp: upd_tsk_def upd_so_def split: if_splits
    intro!: keep keeps_wire_upd keeps_new_addr keeps_socks_any keeps_net_any keeps_wire_transmit
      keeps_wire_arp_new keeps_wire_arp_update)

text \<open>
  A neighbour unknown so far asks for the device's address. The buffer of the frame lies where
  bits 32 to 47 of its address spell the type of ARP, and the device's address fits the 16
  bits that the code's conversions leave of it. The neighbour is entered into the table, but
  not answered.
\<close>

definition asked_net :: net_world where
  "asked_net = put_queue 112 [] (blank_net\<lparr>pool := [0x080600000040, 64], netdev := 8,
     devices := [8 \<mapsto> \<lparr>nd_addr = 10, nd_hwaddr = [0, 0x0c, 0x29, 0x6d, 0x50, 0x25], nd_mtu = 1500\<rparr>]\<rparr>)"

definition arp_question :: "u8 list" where
  "arp_question = replicate 12 0 @ [8, 6, 0, 1, 8, 0] @ [6, 0, 0, 0, 0, 0, 0, 0] @ [4, 0, 2]
     @ [1, 2, 3, 4, 5, 6] @ [0, 9, 0, 0] @ replicate 6 0 @ [0, 10, 0, 0]"

lemma asked_net_run:
  "\<exists>w'. stack_step\<^sup>*\<^sup>* asked_net w' \<and> map_option ae_smac (arps w' 64) = Some [1, 2, 3, 4, 5, 6]"
proof -
  have "case netdev_rx_step (Some arp_question) asked_net of
      Some (Inr (b, w')) \<Rightarrow> map_option ae_smac (arps w' 64) = Some [1, 2, 3, 4, 5, 6] | _ \<Rightarrow> False"
    by code_simp
  then obtain b w' where run: "netdev_rx_step (Some arp_question) asked_net = Ok b w'"
    and "map_option ae_smac (arps w' 64) = Some [1, 2, 3, 4, 5, 6]"
    by (auto split: option.splits sum.splits prod.splits)
  then show ?thesis using stack_step.Frame [OF run] by blast
qed

text \<open>
  C20. The ARP table stays well typed: whatever frames arrive and whatever applications do,
  every entry of the table is a resolved Ethernet entry with an address of six bytes.
\<close>

theorem arp_table_typed:
  assumes "stack_step\<^sup>*\<^sup>* w w'" and "arps_ok w"
  shows "arps_ok w'"
  using wire.stack_steps_R [OF assms(1)] assms(2) by (simp add: on_wire_def upholds_def)

theorem arp_table_typed_witness:
  "\<exists>w'. stack_step\<^sup>*\<^sup>* asked_net w' \<and> map_option ae_smac (arps w' 64) = Some [1, 2, 3, 4, 5, 6] \<and> arps_ok w'"
proof -
  have "arps_ok asked_net"
    by (simp add: asked_net_def arps_ok_def put_queue_def blank_net_def tcp_world.defs net_world.defs)
  then show ?thesis using asked_net_run arp_table_typed by blast
qed

text \<open>
  C21. The stack never sends an IP packet: all it adds to the tap, over any run, are frames
  whose Ethernet type is ARP. A resolved neighbour is copied through a null pointer, so
  \<open>arp_get_hwaddr\<close> never gives an address, and each packet becomes one more ARP request.
\<close>

theorem only_arp_on_wire:
  assumes "stack_step\<^sup>*\<^sup>* w w'"
  shows "\<exists>fs. tap_out w' = tap_out w @ fs \<and> list_all arp_frame fs"
  using wire.stack_steps_R [OF assms] by (simp add: on_wire_def)

theorem only_arp_on_wire_witness:
  "\<exists>w'. stack_step\<^sup>*\<^sup>* asked_net w' \<and> arps w' \<noteq> arps asked_net \<and> list_all arp_frame (tap_out w')"
proof -
  obtain w' where "stack_step\<^sup>*\<^sup>* asked_net w'" and "map_option ae_smac (arps w' 64) = Some [1, 2, 3, 4, 5, 6]"
    using asked_net_run by blast
  moreover have "tap_out asked_net = []" "arps asked_net 64 = None"
    by (simp_all add: asked_net_def put_queue_def blank_net_def tcp_world.defs net_world.defs)
  ultimately show ?thesis using only_arp_on_wire [of asked_net w'] by fastforce
qed

end
