(* ===== verification/Operations.thy ===== *)
theory Operations
  imports System_Calls
begin

text \<open>
  The tables of operations through which the layers call each other: \<open>Net_Ops\<close> of a
  protocol (\<open>include/sock.hpp\<close>, \<open>src/tcp.cpp\<close>), \<open>Sock_Ops\<close> and \<open>Sock_Type\<close> of a family's
  sockets (\<open>include/socket.hpp\<close>, \<open>src/inet.cpp\<close>), and the families (\<open>src/socket.cpp\<close>).
  Each table has one filling in the program. The functions of the theories before call the
  entry directly; here every such call is shown to be the call through the table.

  A \<open>std::function\<close> is a function of the model, an empty one \<open>None\<close>.
\<close>

unbundle bit_operations_syntax

section \<open>The tables\<close>

record 'w net_ops =
  no_alloc_sock :: "int \<Rightarrow> ('w tcp_world_scheme, ptr) M"
  no_init :: "ptr \<Rightarrow> ('w tcp_world_scheme, int) M"
  no_connect :: "ptr \<Rightarrow> sockaddr_in \<Rightarrow> int \<Rightarrow> int \<Rightarrow> ('w tcp_world_scheme, int) M"
  no_disconnect :: "ptr \<Rightarrow> int \<Rightarrow> ('w tcp_world_scheme, int) M"
  no_write :: "ptr \<Rightarrow> u8 list \<Rightarrow> int \<Rightarrow> ('w tcp_world_scheme, int) M"
  no_read :: "ptr \<Rightarrow> int \<Rightarrow> ('w tcp_world_scheme, int) M"
  no_recv_notify :: "ptr \<Rightarrow> ('w tcp_world_scheme, int) M"
  no_close :: "ptr \<Rightarrow> ('w tcp_world_scheme, int) M"
  no_abort :: "ptr \<Rightarrow> ('w tcp_world_scheme, int) M"

record 'w sock_ops =
  op_connect :: "ptr \<Rightarrow> sockaddr_in \<Rightarrow> int \<Rightarrow> int \<Rightarrow> ('w tcp_world_scheme, int) M"
  op_write :: "ptr \<Rightarrow> u8 list \<Rightarrow> int \<Rightarrow> ('w tcp_world_scheme, int) M"
  op_read :: "ptr \<Rightarrow> int \<Rightarrow> ('w tcp_world_scheme, int) M"
  op_close :: "ptr \<Rightarrow> ('w tcp_world_scheme, int) M"
  op_free :: "ptr \<Rightarrow> ('w tcp_world_scheme, int) M"
  op_abort :: "ptr \<Rightarrow> ('w tcp_world_scheme, int) M"
  op_poll :: "(ptr \<Rightarrow> ('w tcp_world_scheme, int) M) option"
  op_getpeername :: "ptr \<Rightarrow> ('w tcp_world_scheme, int \<times> sockaddr_in option) M"
  op_getsockname :: "ptr \<Rightarrow> ('w tcp_world_scheme, int \<times> sockaddr_in option) M"

record 'w sock_type =
  st_sock_ops :: "'w sock_ops"
  st_net_ops :: "'w net_ops"
  st_type :: int
  st_protocol :: int

record 'w net_family =
  nf_create :: "ptr \<Rightarrow> int \<Rightarrow> ('w tcp_world_scheme, int) M"

definition IPPROTO_TCP :: int where "IPPROTO_TCP = 6"

section \<open>Their fillings\<close>

definition tcp_init_sock :: "ptr \<Rightarrow> ('w tcp_world_scheme, int) M" where
  "tcp_init_sock sk = ret 0"

definition tcp_v4_init_sock :: "ptr \<Rightarrow> ('w tcp_world_scheme, int) M" where
  "tcp_v4_init_sock sk = sq (tcp_init_sock sk) (ret 0)"

definition tcp_ops :: "sock \<Rightarrow> 'w ip_out \<Rightarrow> 'w net_ops" where
  "tcp_ops raw ipo = \<lparr>
     no_alloc_sock = (\<lambda>protocol. tcp_alloc_sock raw),
     no_init = tcp_v4_init_sock,
     no_connect = (\<lambda>sk addr addr_len flags. tcp_v4_connect ipo sk (sin_port addr) (sin_addr addr)),
     no_disconnect = tcp_disconnect,
     no_write = tcp_write ipo,
     no_read = tcp_read,
     no_recv_notify = tcp_recv_notify,
     no_close = tcp_close ipo,
     no_abort = tcp_abort ipo\<rparr>"

definition inet_stream_ops :: "'w ip_out \<Rightarrow> 'w others \<Rightarrow> 'w sock_ops" where
  "inet_stream_ops ipo others = \<lparr>
     op_connect = inet_stream_connect ipo others,
     op_write = inet_write ipo,
     op_read = inet_read,
     op_close = inet_close ipo,
     op_free = inet_free,
     op_abort = inet_abort ipo,
     op_poll = None,
     op_getpeername = inet_getpeername,
     op_getsockname = inet_getsockname\<rparr>"

definition inet_ops :: "sock \<Rightarrow> 'w ip_out \<Rightarrow> 'w others \<Rightarrow> 'w sock_type list" where
  "inet_ops raw ipo others = [\<lparr>st_sock_ops = inet_stream_ops ipo others, st_net_ops = tcp_ops raw ipo,
     st_type = SOCK_STREAM, st_protocol = IPPROTO_TCP\<rparr>]"

definition inet :: "sock \<Rightarrow> 'w net_family" where
  "inet raw = \<lparr>nf_create = inet_create raw\<rparr>"

definition families :: "sock \<Rightarrow> 'w net_family option list" where
  "families raw = (replicate 128 None)[unat AF_INET := Some (inet raw)]"

section \<open>Calls through them\<close>

text \<open>The search of \<open>inet_create\<close>, and the operations of the row it finds.\<close>

definition find_sock_type :: "'w sock_type list \<Rightarrow> int \<Rightarrow> 'w sock_type option" where
  "find_sock_type table ty = find (\<lambda>t. st_type t AND ty \<noteq> 0) table"

lemma find_sock_type_inet:
  "find_sock_type (inet_ops raw ipo others) ty =
     (if SOCK_STREAM AND ty = 0 then None else Some (hd (inet_ops raw ipo others)))"
  by (simp add: find_sock_type_def inet_ops_def)

lemma inet_row:
  "hd (inet_ops raw ipo others) = \<lparr>st_sock_ops = inet_stream_ops ipo others, st_net_ops = tcp_ops raw ipo,
     st_type = SOCK_STREAM, st_protocol = IPPROTO_TCP\<rparr>"
  by (simp add: inet_ops_def)

lemma length_families: "length (families raw) = 128"
  by (simp add: families_def)

lemma families_nth:
  "0 \<le> d \<Longrightarrow> d < 128 \<Longrightarrow> families raw ! nat d = (if d = 2 then Some (inet raw) else None)"
  by (auto simp: families_def AF_INET_def nth_list_update)

lemma bnd_eqI: "(\<And>x. f x = g x) \<Longrightarrow> bnd m f = bnd m g"
  by presburger

lemma inet_create_by_table:
  "inet_create raw so proto = bnd (load sockets so) (\<lambda>s.
     case find_sock_type (inet_ops raw ipo others) (so_type s) of
       None \<Rightarrow> ret 1
     | Some t \<Rightarrow> sq (upd_so so (\<lambda>s. s\<lparr>so_ops := True\<rparr>))
         (bnd (no_alloc_sock (st_net_ops t) proto) (\<lambda>sk.
         sq (upd_sk sk (\<lambda>k. k\<lparr>sk_protocol := proto\<rparr>))
         (sq (sock_init_data so sk) (sq (no_init (st_net_ops t) sk) (ret 0))))))"
  unfolding inet_create_def
  by (rule bnd_eqI) (simp add: find_sock_type_inet inet_row tcp_ops_def sk_alloc_def
      tcp_v4_init_sock_def tcp_init_sock_def)

text \<open>The accesses \<open>sock->ops->\<dots>\<close> and \<open>sk->ops->\<dots>\<close>.\<close>

definition via_sock_ops :: "'w ip_out \<Rightarrow> 'w others \<Rightarrow> ptr \<Rightarrow>
    ('w sock_ops \<Rightarrow> ptr \<Rightarrow> ('w tcp_world_scheme, 'a) M) \<Rightarrow> ('w tcp_world_scheme, 'a) M" where
  "via_sock_ops ipo others so op = bnd (load sockets so) (\<lambda>s.
     if so_ops s then op (inet_stream_ops ipo others) so else fail NullDeref)"

definition via_net_ops :: "sock \<Rightarrow> 'w ip_out \<Rightarrow> ptr \<Rightarrow>
    ('w net_ops \<Rightarrow> ptr \<Rightarrow> ('w tcp_world_scheme, 'a) M) \<Rightarrow> ('w tcp_world_scheme, 'a) M" where
  "via_net_ops raw ipo sk op = bnd (load socks sk) (\<lambda>_. op (tcp_ops raw ipo) sk)"

lemma load_twice: "sq (load h p) (bnd (load h p) f) = bnd (load h p) f"
  by (auto simp: bnd_def load_def andthen_def fun_eq_iff split: option.splits)

lemma calls_by_sock_ops:
  "sys_write ipo pid fd buff count = with_socket pid fd (-1) (\<lambda>so. via_sock_ops ipo others so
     (\<lambda>o' so. op_write o' so buff (int_of_unsigned count)))"
  "sys_read pid fd count = with_socket pid fd (-1) (\<lambda>so. via_sock_ops ipo others so
     (\<lambda>o' so. op_read o' so (int_of_unsigned count)))"
  "sys_close ipo pid fd = with_socket pid fd (-1) (\<lambda>so. via_sock_ops ipo others so op_close)"
  "sys_getpeername pid fd = with_socket pid fd (- EBADF, None) (\<lambda>so. via_sock_ops ipo others so op_getpeername)"
  "sys_getsockname pid fd = with_socket pid fd (- EBADF, None) (\<lambda>so. via_sock_ops ipo others so op_getsockname)"
  "abort_sockets_body ipo pos u = sq (via_sock_ops ipo others (list_entry pos 0) op_abort) (ret (False, ()))"
  unfolding sys_write_def sys_read_def sys_close_def sys_getpeername_def sys_getsockname_def
    with_ops_def via_sock_ops_def inet_stream_ops_def abort_sockets_body_def bnd_assoc
  by (rule bnd_eqI arg_cong [of _ _ "with_socket _ _ _"] ext | simp)+

lemma calls_by_net_ops:
  "inet_write ipo so buff n = bnd (load sockets so) (\<lambda>s.
     via_net_ops raw ipo (so_sk s) (\<lambda>o' sk. no_write o' sk buff n))"
  "inet_read so n = bnd (load sockets so) (\<lambda>s. via_net_ops raw ipo (so_sk s) (\<lambda>o' sk. no_read o' sk n))"
  "so \<noteq> null \<Longrightarrow> inet_close ipo so = bnd (load sockets so) (\<lambda>s. via_net_ops raw ipo (so_sk s) no_close)"
  by (simp_all add: inet_write_def inet_read_def inet_close_def via_net_ops_def tcp_ops_def
      tcp_write_def tcp_read_def tcp_close_def load_twice)

lemma sys_socket_by_families:
  "sys_socket raw pid domain ty proto = bnd (Socket_new pid) (\<lambda>so.
     sq (upd_so so (\<lambda>s. s\<lparr>so_type := short_of_int ty\<rparr>))
     (if domain < 0 \<or> int (length (families raw)) \<le> domain then fail OutOfBounds
      else case families raw ! nat domain of
        None \<Rightarrow> sq (socket_free so) (ret (-1))
      | Some family \<Rightarrow> bnd (nf_create family so proto) (\<lambda>rc.
        if rc \<noteq> 0 then sq (socket_free so) (ret (-1))
        else bnd (get sockets_queue) (\<lambda>q. sq (queue_add_tail q so)
          (sq (upd (sock_amount_update (\<lambda>n. n + 1)))
          (sq (socket_rd_acquire so)
          (bnd (load sockets so) (\<lambda>s. sq (socket_release so) (ret (so_fd s))))))))))"
  unfolding sys_socket_def
  by (intro bnd_eqI) (simp add: families_nth length_families inet_def AF_INET_def)

end
