(* ===== verification/Ipc.thy ===== *)
theory Ipc
  imports System_Calls Net_Output
begin

text \<open>
  The calls that applications make over a UNIX socket (\<open>src/ipc.cpp\<close>, \<open>include/ipc.hpp\<close>):
  the packed messages with their byte layout, the handler of each call, the dispatch on the
  message type and the loop of a connection's thread.

  The kernel's side of the UNIX socket is part of the state: \<open>ipc_reads\<close> are the answers
  of the next calls of \<open>read\<close>, in order (\<open>None\<close>: an error, the empty list: end of file),
  \<open>ipc_takes\<close> says whether \<open>send\<close> succeeds, \<open>ipc_sent\<close> is what was sent so far, with
  the descriptor it went to, and \<open>ipc_closed\<close> the descriptors closed. \<open>ipc_raw\<close> is what
  fresh memory holds. The listener is in theory \<open>Listener\<close>.
\<close>

unbundle bit_operations_syntax

record ipc_world = net_world +
  ipc_threads :: "ptr \<rightharpoonup> int"
  ipc_queue :: ptr
  socket_count :: int
  ipc_reads :: "u8 list option list"
  ipc_takes :: bool
  ipc_sent :: "(int \<times> u8 list) list"
  ipc_closed :: "int list"
  ipc_raw :: "u8 list"

lemma upd_ipc_run [run]:
  "upd (ipc_threads_update f) w = Ok () (w\<lparr>ipc_threads := f (ipc_threads w)\<rparr>)"
  "upd (socket_count_update c) w = Ok () (w\<lparr>socket_count := c (socket_count w)\<rparr>)"
  "upd (ipc_reads_update r) w = Ok () (w\<lparr>ipc_reads := r (ipc_reads w)\<rparr>)"
  "upd (ipc_sent_update g) w = Ok () (w\<lparr>ipc_sent := g (ipc_sent w)\<rparr>)"
  "upd (ipc_closed_update h) w = Ok () (w\<lparr>ipc_closed := h (ipc_closed w)\<rparr>)"
  by (simp_all add: upd_apply)

lemma qrep_ipc_upd [simp]:
  "qrep (ipc_threads_update f w) q xs = qrep w q xs"
  "qrep (socket_count_update c w) q xs = qrep w q xs"
  "qrep (ipc_closed_update h w) q xs = qrep w q xs"
  by (rule qrep_only; simp)+

section \<open>Messages\<close>

definition IPC_BUFF_LEN :: nat where "IPC_BUFF_LEN = 8192"

definition IPC_SOCKET :: u16 where "IPC_SOCKET = 0x0001"
definition IPC_CONNECT :: u16 where "IPC_CONNECT = 0x0002"
definition IPC_WRITE :: u16 where "IPC_WRITE = 0x0003"
definition IPC_READ :: u16 where "IPC_READ = 0x0004"
definition IPC_CLOSE :: u16 where "IPC_CLOSE = 0x0005"
definition IPC_POLL :: u16 where "IPC_POLL = 0x0006"
definition IPC_FCNTL :: u16 where "IPC_FCNTL = 0x0007"
definition IPC_GETSOCKOPT :: u16 where "IPC_GETSOCKOPT = 0x0008"
definition IPC_SETSOCKOPT :: u16 where "IPC_SETSOCKOPT = 0x0009"
definition IPC_GETPEERNAME :: u16 where "IPC_GETPEERNAME = 0x000A"
definition IPC_GETSOCKNAME :: u16 where "IPC_GETSOCKNAME = 0x000B"

definition bytes_int :: "int \<Rightarrow> u8 list" where
  "bytes_int i = bytes32 (word_of_int i)"

definition int_at :: "u8 list \<Rightarrow> nat \<Rightarrow> int" where
  "int_at bs i = sint (get32 bs i)"

definition size_at :: "u8 list \<Rightarrow> nat \<Rightarrow> nat" where
  "size_at bs i = unat (ptr_of (drop i bs))"

text \<open>
  An \<open>Ipc_Msg\<close> has its type at 0 and the client's process at 2; the call's own structure
  starts at 6. An \<open>Ipc_Err\<close> is a result and an error number.
\<close>

definition Ipc_Msg_size :: nat where "Ipc_Msg_size = 6"
definition Ipc_Err_size :: nat where "Ipc_Err_size = 8"
definition Ipc_Write_size :: nat where "Ipc_Write_size = 12"

definition msg_type :: "u8 list \<Rightarrow> u16" where
  "msg_type msg = get16 msg 0"

definition msg_pid :: "u8 list \<Rightarrow> int" where
  "msg_pid msg = int_at msg 2"

definition ipc_head :: "u16 \<Rightarrow> int \<Rightarrow> u8 list" where
  "ipc_head ty pid = bytes16 ty @ bytes_int pid"

definition ipc_err :: "int \<Rightarrow> ('w, u8 list) M" where
  "ipc_err rc = (if rc < 0 then bnd (arith (- rc)) (\<lambda>e. ret (bytes_int (-1) @ bytes_int e))
     else ret (bytes_int rc @ bytes_int 0))"

section \<open>Talking to the client\<close>

definition ipc_try_send :: "int \<Rightarrow> u8 list \<Rightarrow> ('w ipc_world_scheme, int) M" where
  "ipc_try_send fd bs = bnd (get ipc_takes) (\<lambda>ok.
     if ok then sq (upd (ipc_sent_update (\<lambda>l. l @ [(fd, bs)]))) (ret (int (length bs)))
     else ret (-1))"

definition ipc_kernel_read :: "int \<Rightarrow> nat \<Rightarrow> ('w ipc_world_scheme, u8 list option) M" where
  "ipc_kernel_read fd n = bnd (get ipc_reads) (\<lambda>rs. case rs of [] \<Rightarrow> fail Blocked
     | r # rs' \<Rightarrow> sq (upd (ipc_reads_update (\<lambda>_. rs'))) (ret (map_option (take n) r)))"

definition ipc_send_or_throw :: "string \<Rightarrow> int \<Rightarrow> u8 list \<Rightarrow> ('w ipc_world_scheme, unit) M" where
  "ipc_send_or_throw what fd bs = bnd (ipc_try_send fd bs) (\<lambda>n.
     if n = -1 then fail (Throw what) else skip)"

definition ipc_write_rc :: "int \<Rightarrow> int \<Rightarrow> u16 \<Rightarrow> int \<Rightarrow> ('w ipc_world_scheme, int) M" where
  "ipc_write_rc fd pid ty rc = bnd (ipc_err rc) (\<lambda>e.
     sq (ipc_send_or_throw ''ERR(ipc_try_send from ipc_write_rc)'' fd (ipc_head ty pid @ e)) (ret 0))"

section \<open>The calls\<close>

text \<open>
  \<open>ipc_read\<close> passes the descriptor of the UNIX socket, \<open>fd\<close>, to \<open>sys_read\<close>, not the
  one in the message. A \<open>std::vector\<close> longer than its maximum throws.
\<close>

definition ipc_read :: "int \<Rightarrow> u8 list \<Rightarrow> ('w ipc_world_scheme, int) M" where
  "ipc_read fd msg = bnd (ret (size_at msg 10)) (\<lambda>n.
     if 2 ^ 63 \<le> n then fail (Throw ''length_error'')
     else bnd (sys_read (msg_pid msg) fd (int n)) (\<lambda>rlen.
       if int n < rlen then fail OutOfBounds
       else bnd (arith (- min rlen 0)) (\<lambda>e.
         bnd (ipc_try_send fd (ipc_head IPC_READ (msg_pid msg) @ bytes_int (max (-1) rlen)
             @ bytes_int e @ bytes_int (int_at msg 6) @ ptr_bytes (word_of_int rlen)
             @ replicate (nat rlen) 0)) (\<lambda>sent.
           ret (if sent = -1 then -1 else 0)))))"

definition ipc_write :: "'w ipc_world_ext net_world_ext ip_out \<Rightarrow> int \<Rightarrow> u8 list \<Rightarrow> ('w ipc_world_scheme, int) M" where
  "ipc_write ipo fd msg = bnd (ret (size_at msg 10)) (\<lambda>n.
     bnd (ret (IPC_BUFF_LEN - Ipc_Write_size - Ipc_Msg_size)) (\<lambda>head.
     if 2 ^ 63 \<le> n then fail (Throw ''length_error'')
     else bnd (if n \<le> head then ret (take n (drop 18 msg))
       else bnd (ipc_kernel_read fd (unat (word_of_int (int_of_unsigned (int (n - head))) :: ptr))) (\<lambda>r.
         case r of None \<Rightarrow> fail (Throw ''ERR(ipc_write): Read on IPC payload guard.'')
         | Some bs \<Rightarrow> if n - head < length bs then fail OutOfBounds
             else ret (take head (drop 18 msg) @ bs @ replicate (n - head - length bs) 0))) (\<lambda>buf.
       bnd (sys_write ipo (msg_pid msg) (int_at msg 6) buf (int n)) (\<lambda>rc.
         ipc_write_rc fd (msg_pid msg) IPC_WRITE rc))))"

definition ipc_connect ::
    "'w ipc_world_ext net_world_ext ip_out \<Rightarrow> 'w ipc_world_ext net_world_ext others \<Rightarrow> int \<Rightarrow> u8 list
      \<Rightarrow> ('w ipc_world_scheme, int) M" where
  "ipc_connect ipo others fd msg = bnd (sys_connect ipo others (msg_pid msg) (int_at msg 6)
       \<lparr>sin_family = get16 msg 10, sin_port = get16 msg 12, sin_addr = get32 msg 14\<rparr>
       (uint (get32 msg 26))) (\<lambda>rc.
     ipc_write_rc fd (msg_pid msg) IPC_CONNECT rc)"

definition ipc_socket :: "sock \<Rightarrow> int \<Rightarrow> u8 list \<Rightarrow> ('w ipc_world_scheme, int) M" where
  "ipc_socket raw fd msg = bnd (sys_socket raw (msg_pid msg) (int_at msg 6) (int_at msg 10) (int_at msg 14)) (\<lambda>rc.
     ipc_write_rc fd (msg_pid msg) IPC_SOCKET rc)"

definition ipc_close :: "'w ipc_world_ext net_world_ext ip_out \<Rightarrow> int \<Rightarrow> u8 list \<Rightarrow> ('w ipc_world_scheme, int) M" where
  "ipc_close ipo fd msg = bnd (sys_close ipo (msg_pid msg) (int_at msg 6)) (\<lambda>rc.
     ipc_write_rc fd (msg_pid msg) IPC_CLOSE rc)"

text \<open>The descriptors of a poll message lie from 18 on, 8 bytes each.\<close>

definition pollfd_of :: "u8 list \<Rightarrow> pollfd" where
  "pollfd_of bs = \<lparr>pf_fd = int_at bs 0, pf_events = get16 bs 4, pf_revents = get16 bs 6\<rparr>"

definition pollfd_bytes :: "pollfd \<Rightarrow> u8 list" where
  "pollfd_bytes p = bytes_int (pf_fd p) @ bytes16 (pf_events p) @ bytes16 (pf_revents p)"

definition ipc_poll :: "'w ipc_world_ext net_world_ext others \<Rightarrow> int \<Rightarrow> u8 list \<Rightarrow> ('w ipc_world_scheme, int) M" where
  "ipc_poll others fd msg = bnd (ret (size_at msg 6)) (\<lambda>n.
     if 2 ^ 60 \<le> n then fail (Throw ''length_error'')
     else if length msg < 18 + 8 * n then fail OutOfBounds
     else bnd (sys_poll others (msg_pid msg)
         (map (\<lambda>i. pollfd_of (drop (18 + 8 * i) msg)) [0..<n]) (int_at msg 14)) (\<lambda>(fds, rc).
       bnd (ipc_err rc) (\<lambda>e.
       sq (ipc_send_or_throw ''ERR(ipc_err): Error on writing IPC Poll Response'' fd
         (ipc_head IPC_POLL (msg_pid msg) @ e @ concat (map pollfd_bytes fds))) (ret 0))))"

definition ipc_fcntl :: "int \<Rightarrow> u8 list \<Rightarrow> ('w ipc_world_scheme, int) M" where
  "ipc_fcntl fd msg = bnd (ret (int_at msg 10)) (\<lambda>cmd.
     bnd (if cmd = F_GETFL then sys_fcntl (msg_pid msg) (int_at msg 6) cmd None
       else if cmd = F_SETFL then sys_fcntl (msg_pid msg) (int_at msg 6) cmd (Some (int_at msg 14))
       else ret (- EINVAL)) (\<lambda>rc.
     ipc_write_rc fd (msg_pid msg) IPC_FCNTL rc))"

text \<open>
  The value is written into the message itself, at 22; the answer copies as many bytes from
  there as the length says, the client's own when the call fails.
\<close>

definition ipc_getsockopt :: "int \<Rightarrow> u8 list \<Rightarrow> ('w ipc_world_scheme, int) M" where
  "ipc_getsockopt fd msg = bnd (sys_getsockopt (msg_pid msg) (int_at msg 6) (int_at msg 10) (int_at msg 14)) (\<lambda>(rc, v).
     bnd (ret (case v of None \<Rightarrow> (unat (get32 msg 18), msg)
       | Some e \<Rightarrow> (4, take 22 msg @ bytes_int e @ drop 26 msg))) (\<lambda>(optlen, msg').
     if length msg' < 22 + optlen then fail OutOfBounds
     else bnd (ipc_err rc) (\<lambda>e.
       sq (ipc_send_or_throw ''ERR(ipc_getsockopt): Error on writing IPC getsockopt Response.'' fd
         (ipc_head IPC_GETSOCKOPT (msg_pid msg) @ e @ take 12 (drop 6 msg')
           @ bytes32 (of_nat optlen) @ take optlen (drop 22 msg'))) (ret rc))))"

text \<open>
  An \<open>Ipc_Sock_Name\<close> has 136 bytes: a descriptor, the length and 128 bytes of address. The
  answer is fresh memory of which only what the call returns is written.
\<close>

definition sock_name_bytes :: "u8 list \<Rightarrow> int \<Rightarrow> sockaddr_in option \<Rightarrow> u8 list" where
  "sock_name_bytes raw so name = bytes_int so @ (case name of
       None \<Rightarrow> drop 4 raw
     | Some a \<Rightarrow> bytes32 16 @ bytes16 (sin_family a) @ bytes16 (sin_port a) @ bytes32 (sin_addr a) @ drop 16 raw)"

definition ipc_getpeername :: "int \<Rightarrow> u8 list \<Rightarrow> ('w ipc_world_scheme, int) M" where
  "ipc_getpeername fd msg = bnd (sys_getpeername (msg_pid msg) (int_at msg 6)) (\<lambda>(rc, name).
     bnd (get ipc_raw) (\<lambda>raw. bnd (ipc_err rc) (\<lambda>e.
     sq (ipc_send_or_throw ''ERR(ipc_getpeername): Error on writing IPC getpeername Response.'' fd
       (ipc_head IPC_GETPEERNAME (msg_pid msg) @ e @ sock_name_bytes raw (int_at msg 6) name)) (ret rc))))"

definition ipc_getsockname :: "int \<Rightarrow> u8 list \<Rightarrow> ('w ipc_world_scheme, int) M" where
  "ipc_getsockname fd msg = bnd (sys_getsockname (msg_pid msg) (int_at msg 6)) (\<lambda>(rc, name).
     bnd (get ipc_raw) (\<lambda>raw. bnd (ipc_err rc) (\<lambda>e.
     sq (ipc_send_or_throw ''ERR(ipc_getsockname): Error on writing IPC getsockname Response.'' fd
       (ipc_head IPC_GETSOCKNAME (msg_pid msg) @ e @ sock_name_bytes raw (int_at msg 6) name)) (ret rc))))"

definition demux_ipc_socket_call ::
    "'w ipc_world_ext net_world_ext ip_out \<Rightarrow> 'w ipc_world_ext net_world_ext others \<Rightarrow> sock \<Rightarrow> int \<Rightarrow> u8 list
      \<Rightarrow> ('w ipc_world_scheme, int) M" where
  "demux_ipc_socket_call ipo others raw fd msg =
     (if msg_type msg = IPC_SOCKET then ipc_socket raw fd msg
      else if msg_type msg = IPC_CONNECT then ipc_connect ipo others fd msg
      else if msg_type msg = IPC_WRITE then ipc_write ipo fd msg
      else if msg_type msg = IPC_READ then ipc_read fd msg
      else if msg_type msg = IPC_CLOSE then ipc_close ipo fd msg
      else if msg_type msg = IPC_POLL then ipc_poll others fd msg
      else if msg_type msg = IPC_FCNTL then ipc_fcntl fd msg
      else if msg_type msg = IPC_GETSOCKOPT then ipc_getsockopt fd msg
      else if msg_type msg = IPC_GETPEERNAME then ipc_getpeername fd msg
      else if msg_type msg = IPC_GETSOCKNAME then ipc_getsockname fd msg
      else ret 0)"

section \<open>Threads\<close>

definition Ipc_Thread_new :: "int \<Rightarrow> ('w ipc_world_scheme, ptr) M" where
  "Ipc_Thread_new fd = bnd new_addr (\<lambda>p. sq (init_node p)
     (sq (upd (ipc_threads_update (\<lambda>h. h(p \<mapsto> fd)))) (bnd (get ipc_queue) (\<lambda>q.
     sq (queue_add_tail q p) (sq (upd (socket_count_update (\<lambda>n. n + 1))) (ret p))))))"

definition ipc_free_thread_body :: "ptr \<Rightarrow> int \<Rightarrow> ptr \<Rightarrow> unit \<Rightarrow> ('w ipc_world_scheme, bool \<times> unit) M" where
  "ipc_free_thread_body q fd pos u = bnd (load ipc_threads (list_entry pos 0)) (\<lambda>s.
     if s = fd
     then sq (queue_del q (list_entry pos 0))
       (sq (upd (ipc_closed_update (\<lambda>l. l @ [s])))
       (sq (upd (ipc_threads_update (\<lambda>h. h(list_entry pos 0 := None))))
       (sq (upd (nodes_update (\<lambda>h. h(list_entry pos 0 := None))))
       (sq (upd (socket_count_update (\<lambda>n. n - 1))) (ret (True, ()))))))
     else ret (False, ()))"

definition ipc_free_thread :: "int \<Rightarrow> ('w ipc_world_scheme, unit) M" where
  "ipc_free_thread fd = bnd (get ipc_queue) (\<lambda>q. list_for_each_safe q (ipc_free_thread_body q fd) ())"

text \<open>
  The loop of a connection: \<open>buff\<close> keeps what earlier messages left behind the one just
  read.
\<close>

partial_function (option) socket_ipc_loop ::
    "'w ipc_world_ext net_world_ext ip_out \<Rightarrow> 'w ipc_world_ext net_world_ext others \<Rightarrow> sock \<Rightarrow> int \<Rightarrow> u8 list
      \<Rightarrow> ('w ipc_world_scheme, unit) M" where
  "socket_ipc_loop ipo others raw fd buff w =
     bnd (ipc_kernel_read fd IPC_BUFF_LEN) (\<lambda>r. case r of
         None \<Rightarrow> sq (ipc_free_thread fd) (fail (Throw ''ERR(socket_ipc_open): Socket IPC Read.''))
       | Some bs \<Rightarrow>
         if bs = [] then ipc_free_thread fd
         else bnd (ret (bs @ drop (length bs) buff)) (\<lambda>buff'.
           bnd (demux_ipc_socket_call ipo others raw fd buff') (\<lambda>rc.
             if rc = -1 then upd (ipc_closed_update (\<lambda>l. l @ [fd]))
             else socket_ipc_loop ipo others raw fd buff'))) w"

declare socket_ipc_loop.simps [code]

definition socket_ipc_open ::
    "'w ipc_world_ext net_world_ext ip_out \<Rightarrow> 'w ipc_world_ext net_world_ext others \<Rightarrow> sock \<Rightarrow> int
      \<Rightarrow> ('w ipc_world_scheme, unit) M" where
  "socket_ipc_open ipo others raw fd = socket_ipc_loop ipo others raw fd (replicate IPC_BUFF_LEN 0)"

end
