(* ===== verification/Ipc_Facts.thy ===== *)
theory Ipc_Facts
  imports Net_Input Ipc Calls
begin

text \<open>
  What the server side of the UNIX-socket protocol does: the layout of answers, one answer
  per call, the calls that cannot work, and the list of connections.
\<close>

unbundle bit_operations_syntax

section \<open>Reading messages back\<close>

lemma int_of_bytes_int:
  assumes "- (2 ^ 31) \<le> i" and "i < 2 ^ 31"
  shows "sint (word_of_int i :: u32) = i"
  using assms by (subst signed_of_int) (simp add: signed_take_bit_int_eq_self)

lemma message_parts [simp]:
  "msg_type (bytes16 ty @ rest) = ty"
  "get32 (bytes16 ty @ bytes32 a @ rest) 2 = a"
  "get32 (bytes16 ty @ bytes32 a @ bytes32 b @ rest) 6 = b"
  "get32 (bytes16 ty @ bytes32 a @ bytes32 b @ bytes32 c @ rest) 10 = c"
  "length (bytes16 ty) = 2" "length (bytes32 a) = 4"
  by (simp_all add: msg_type_def get32_def get16_def bytes16_def bytes32_def)

lemma head_type [simp]: "msg_type (ipc_head ty pid @ rest) = ty"
  by (simp add: ipc_head_def)

lemma head_pid [simp]: "msg_pid (ipc_head ty (msg_pid msg) @ rest) = msg_pid msg"
  by (simp add: ipc_head_def msg_pid_def int_at_def bytes_int_def)

text \<open>
  C27. The client reads back what the server answers: 14 bytes with the call's type, the
  client's process, and either the result with error 0 or the result -1 with the positive
  error number.
\<close>

theorem ipc_response_roundtrip:
  assumes "ipc_takes w" and "- (2 ^ 31) \<le> pid" and "pid < 2 ^ 31" and "- (2 ^ 31) < rc" and "rc < 2 ^ 31"
  shows "\<exists>bs. ipc_write_rc fd pid ty rc w = Ok 0 (w\<lparr>ipc_sent := ipc_sent w @ [(fd, bs)]\<rparr>)
    \<and> length bs = 14 \<and> msg_type bs = ty \<and> msg_pid bs = pid
    \<and> int_at bs 6 = (if rc < 0 then -1 else rc) \<and> int_at bs 10 = (if rc < 0 then - rc else 0)"
proof -
  let ?e = "bytes_int (if rc < 0 then -1 else rc) @ bytes_int (if rc < 0 then - rc else 0)"
  let ?bs = "ipc_head ty pid @ ?e"
  have "ipc_err rc w = Ok ?e w" using assms(4,5) by (simp add: ipc_err_def run)
  then have "ipc_write_rc fd pid ty rc w = Ok 0 (w\<lparr>ipc_sent := ipc_sent w @ [(fd, ?bs)]\<rparr>)"
    using assms(1) by (simp add: ipc_write_rc_def ipc_send_or_throw_def ipc_try_send_def run)
  moreover have "length ?bs = 14" "msg_type ?bs = ty" by (simp_all add: ipc_head_def bytes_int_def)
  moreover have "msg_pid ?bs = pid" "int_at ?bs 6 = (if rc < 0 then -1 else rc)"
      "int_at ?bs 10 = (if rc < 0 then - rc else 0)"
    using assms(2-5) int_of_bytes_int [of pid] int_of_bytes_int [of rc] int_of_bytes_int [of "- rc"]
    message_parts(4) [of _ _ _ _ "[]"]
    by (auto simp: ipc_head_def msg_pid_def int_at_def bytes_int_def)
  ultimately show ?thesis by blast
qed

definition blank_ipc :: ipc_world where
  "blank_ipc = net_world.extend blank_net (ipc_world.fields Map.empty 120 0 [] True [] [] [])"

theorem ipc_response_roundtrip_witness:
  "\<exists>bs. ipc_write_rc 5 42 IPC_CLOSE (-9) blank_ipc = Ok 0 (blank_ipc\<lparr>ipc_sent := [(5, bs)]\<rparr>) \<and> int_at bs 10 = 9"
  using ipc_response_roundtrip [of blank_ipc 42 "-9" 5 IPC_CLOSE]
  by (auto simp: blank_ipc_def net_world.defs ipc_world.defs blank_net_def tcp_world.defs)

section \<open>One answer per call\<close>

text \<open>\<open>talk fd w\<close>: what the connection \<open>fd\<close> has been sent, and whether sending works.\<close>

definition answers :: "int \<Rightarrow> 'w ipc_world_scheme \<Rightarrow> u8 list list" where
  "answers fd w = map snd (filter (\<lambda>m. fst m = fd) (ipc_sent w))"

definition talk :: "int \<Rightarrow> 'w ipc_world_scheme \<Rightarrow> bool \<times> u8 list list" where
  "talk fd w = (ipc_takes w, answers fd w)"

lemma upd_talk: "(\<And>w. talk fd (g w) = talk fd w) \<Longrightarrow> keeps (same (talk fd)) (upd g)"
  by (rule keeps_upd) (simp add: same_def)

interpretation silent: net_rel "same (talk fd)" for fd
proof unfold_locales
  show "keeps (same (talk fd)) (tcp_alloc_sock raw)" for raw
    unfolding tcp_alloc_sock_def queue_new_def new_addr_def queue_init_def init_node_def
    by (auto intro!: keep upd_talk simp: same_def talk_def answers_def)
qed (auto simp: same_def talk_def answers_def upd_tsk_def upd_so_def
    intro!: keep keeps_upd keeps_new_addr keeps_socks_any keeps_net_any)

definition once :: "int \<Rightarrow> u16 \<Rightarrow> int \<Rightarrow> ('w ipc_world_scheme, 'a) M \<Rightarrow> bool" where
  "once fd ty pid m \<longleftrightarrow> (\<forall>w x w'. ipc_takes w \<longrightarrow> m w = Ok x w' \<longrightarrow>
     (\<exists>bs. answers fd w' = answers fd w @ [bs] \<and> msg_type bs = ty \<and> msg_pid bs = pid))"

named_theorems answering "rules that find the one answer of a handler"

lemma once_after [answering]:
  assumes "keeps (same (talk fd)) m" and "\<And>x. once fd ty pid (f x)"
  shows "once fd ty pid (bnd m f)"
  unfolding once_def
proof (intro allI impI)
  fix w y w'
  assume takes: "ipc_takes w" and "bnd m f w = Ok y w'"
  then obtain x u where u: "m w = Ok x u" "f x u = Ok y w'" by (elim bnd_OkE)
  with keepsD [OF assms(1)] have "talk fd u = talk fd w" by (simp add: same_def)
  then have "ipc_takes u" "answers fd u = answers fd w" using takes by (simp_all add: talk_def)
  then show "\<exists>bs. answers fd w' = answers fd w @ [bs] \<and> msg_type bs = ty \<and> msg_pid bs = pid"
    using assms(2) [of x] u(2) unfolding once_def by metis
qed

lemma once_cases [answering]:
  "once fd ty pid (fail e)"
  "(c \<Longrightarrow> once fd ty pid m) \<Longrightarrow> (\<not> c \<Longrightarrow> once fd ty pid n) \<Longrightarrow> once fd ty pid (if c then m else n)"
  "(\<And>a b. once fd ty pid (g a b)) \<Longrightarrow> once fd ty pid (case z of (a, b) \<Rightarrow> g a b)"
  by (auto simp: once_def run split: prod.split)

text \<open>The sends of the handlers, without a premise: they are tried before \<open>once_after\<close>.\<close>

lemma once_send [answering]:
  "once fd ty (msg_pid msg) (bnd (ipc_try_send fd (ipc_head ty (msg_pid msg) @ rest)) (\<lambda>n. ret (g n)))"
  "once fd ty (msg_pid msg) (sq (ipc_send_or_throw what fd (ipc_head ty (msg_pid msg) @ rest)) (ret r))"
  by (auto simp: once_def ipc_send_or_throw_def ipc_try_send_def answers_def bnd_Ok_iff run_basic upd_apply
      split: if_splits)

lemma keeps_ipc_err [keep]: "keeps (same (talk fd)) (ipc_err rc)"
  unfolding ipc_err_def by (auto intro!: keep)

lemma keeps_kernel_read [keep]: "keeps (same (talk fd)) (ipc_kernel_read g n)"
  unfolding ipc_kernel_read_def
  by (auto intro!: keep upd_talk simp: talk_def answers_def split: list.split)

lemma once_write_rc [answering]: "once fd ty (msg_pid msg) (ipc_write_rc fd (msg_pid msg) ty rc)"
  unfolding ipc_write_rc_def by (auto intro!: answering keep)

lemma once_handlers:
  "once fd IPC_SOCKET (msg_pid msg) (ipc_socket raw fd msg)"
  "once fd IPC_WRITE (msg_pid msg) (ipc_write ip_output fd msg)"
  "once fd IPC_READ (msg_pid msg) (ipc_read fd msg)"
  "once fd IPC_CLOSE (msg_pid msg) (ipc_close ip_output fd msg)"
  "once fd IPC_FCNTL (msg_pid msg) (ipc_fcntl fd msg)"
  "once fd IPC_GETSOCKOPT (msg_pid msg) (ipc_getsockopt fd msg)"
  "once fd IPC_GETPEERNAME (msg_pid msg) (ipc_getpeername fd msg)"
  "once fd IPC_GETSOCKNAME (msg_pid msg) (ipc_getsockname fd msg)"
  "keeps (same (talk fd)) others \<Longrightarrow> once fd IPC_CONNECT (msg_pid msg) (ipc_connect ip_output others fd msg)"
  "keeps (same (talk fd)) others \<Longrightarrow> once fd IPC_POLL (msg_pid msg) (ipc_poll others fd msg)"
  unfolding ipc_socket_def ipc_write_def ipc_read_def ipc_close_def ipc_fcntl_def ipc_getsockopt_def
    ipc_getpeername_def ipc_getsockname_def ipc_connect_def ipc_poll_def
  by (auto intro!: answering keep simp del: bnd_ret)

definition answered_types :: "u16 set" where
  "answered_types = {IPC_SOCKET, IPC_CONNECT, IPC_WRITE, IPC_READ, IPC_CLOSE, IPC_POLL, IPC_FCNTL,
     IPC_GETSOCKOPT, IPC_GETPEERNAME, IPC_GETSOCKNAME}"

text \<open>
  C7. Every call of the protocol that comes back is answered to the caller, exactly once,
  with the call's type and the caller's process, whatever the call did. A message of any
  other type, \<open>IPC_SETSOCKOPT\<close> included, is not answered at all and changes nothing, so
  its sender waits for ever. \<open>others\<close> is what other threads do while a poll or a connect
  sleeps; they do not write to this connection.
\<close>

theorem call_answered_once:
  assumes "ipc_takes w" and "keeps (same (talk fd)) others"
    and "demux_ipc_socket_call ip_output others raw fd msg w = Ok rc w'"
  shows "if msg_type msg \<in> answered_types
    then \<exists>bs. answers fd w' = answers fd w @ [bs] \<and> msg_type bs = msg_type msg \<and> msg_pid bs = msg_pid msg
    else rc = 0 \<and> w' = w"
proof (cases "msg_type msg \<in> answered_types")
  case True
  have "once fd (msg_type msg) (msg_pid msg) (demux_ipc_socket_call ip_output others raw fd msg)"
    using True assms(2)
    by (auto simp: demux_ipc_socket_call_def answered_types_def once_handlers)
  then show ?thesis using True assms(1,3) unfolding once_def by simp
next
  case False
  then show ?thesis using assms(3) by (auto simp: demux_ipc_socket_call_def answered_types_def run_basic)
qed

theorem call_answered_once_witness:
  "\<exists>w' bs. demux_ipc_socket_call ip_output skip blank_sk 5
      (ipc_head IPC_FCNTL 42 @ bytes_int 4098 @ bytes_int 99) blank_ipc = Ok 0 w'
    \<and> answers 5 w' = [bs] \<and> msg_type bs = IPC_FCNTL"
proof -
  let ?msg = "ipc_head IPC_FCNTL 42 @ bytes_int 4098 @ bytes_int 99"
  have ty: "msg_type ?msg = IPC_FCNTL" by simp
  have cmd: "int_at ?msg 10 = 99"
    using message_parts(4) [of IPC_FCNTL _ _ _ "[]"] by (simp add: int_at_def ipc_head_def bytes_int_def)
  have takes: "ipc_takes blank_ipc" "ipc_sent blank_ipc = []" by (simp_all add: blank_ipc_def net_world.defs ipc_world.defs)
  have run: "\<exists>w'. demux_ipc_socket_call ip_output skip blank_sk 5 ?msg blank_ipc = Ok 0 w'"
    using takes ty cmd
    by (simp add: demux_ipc_socket_call_def ipc_fcntl_def ipc_write_rc_def ipc_err_def ipc_send_or_throw_def
        ipc_try_send_def run F_GETFL_def F_SETFL_def EINVAL_def IPC_FCNTL_def IPC_SOCKET_def IPC_CONNECT_def
        IPC_WRITE_def IPC_READ_def IPC_CLOSE_def IPC_POLL_def)
  then obtain w' where w': "demux_ipc_socket_call ip_output skip blank_sk 5 ?msg blank_ipc = Ok 0 w'" ..
  have "keeps (same (talk 5)) (skip :: (ipc_world, unit) M)" by (auto intro!: keep)
  from call_answered_once [OF takes(1) this w'] obtain bs where
    "answers 5 w' = answers 5 blank_ipc @ [bs]" "msg_type bs = IPC_FCNTL"
    by (auto simp: ty answered_types_def)
  moreover have "answers 5 blank_ipc = []" using takes(2) by (simp add: answers_def)
  ultimately show ?thesis using w' by auto
qed

section \<open>Calls that cannot work\<close>

text \<open>
  Reading through the server never works: \<open>ipc_read\<close> looks for a socket of the client
  under the number of the UNIX connection itself, so as long as none of the client's sockets
  has that number, whatever the message asks for, the answer is the result -1 with error 1.
\<close>

theorem ipc_read_always_fails:
  assumes "socket_table w xs S" and "\<forall>x \<in> set xs. so_fd (S x) \<noteq> fd" and "ipc_takes w" and "size_at msg 10 < 2 ^ 63"
  shows "\<exists>bs. ipc_read fd msg w = Ok 0 (w\<lparr>ipc_sent := ipc_sent w @ [(fd, bs)]\<rparr>)
    \<and> msg_type bs = IPC_READ \<and> msg_pid bs = msg_pid msg \<and> int_at bs 6 = -1 \<and> int_at bs 10 = 1"
proof -
  have "find (matching S (msg_pid msg) fd) xs = None"
    using assms(2) by (simp add: find_None_iff)
  then have "get_socket (msg_pid msg) fd w = Ok null w"
    using get_socket_run [OF assms(1), of "msg_pid msg" fd] by (simp add: found_def)
  then have rd: "sys_read (msg_pid msg) fd n w = Ok (-1) w" for n
    by (simp add: sys_read_def with_ops_def with_socket_def run)
  let ?bs = "ipc_head IPC_READ (msg_pid msg) @ bytes_int (-1) @ bytes_int 1 @ bytes_int (int_at msg 6)
    @ ptr_bytes (word_of_int (-1)) @ []"
  have "ipc_read fd msg w = Ok 0 (w\<lparr>ipc_sent := ipc_sent w @ [(fd, ?bs)]\<rparr>)"
    using assms(3,4) rd by (simp add: ipc_read_def ipc_try_send_def run)
  moreover have "int_at ?bs 6 = -1" "int_at ?bs 10 = 1"
    by (simp_all add: int_at_def ipc_head_def bytes_int_def)
  ultimately show ?thesis by (intro exI [of _ ?bs]) simp
qed

theorem ipc_read_always_fails_witness:
  "\<exists>w w' :: ipc_world. ipc_read 5 (ipc_head IPC_READ 42 @ bytes_int 4098 @ ptr_bytes 100) w = Ok 0 w' \<and> ipc_sent w' \<noteq> []"
proof -
  let ?msg = "ipc_head IPC_READ 42 @ bytes_int 4098 @ ptr_bytes 100"
  let ?w = "put_queue 16 [64] (blank_ipc\<lparr>sockets := [64 \<mapsto> Socket_init 0 0 42]\<rparr>)"
  have tab: "socket_table ?w [64] (\<lambda>_. Socket_init 0 0 42)"
    by (simp add: socket_table_def put_queue_def blank_ipc_def blank_net_def tcp_world.defs net_world.defs
        ipc_world.defs blank_def qrep_def linked_def nx_def pv_def)
  have "drop 10 ?msg = ptr_bytes 100" by (simp add: ipc_head_def bytes_int_def)
  then have "size_at ?msg 10 < 2 ^ 63" by (simp add: size_at_def)
  moreover have "ipc_takes ?w" by (simp add: put_queue_def blank_ipc_def net_world.defs ipc_world.defs)
  ultimately obtain bs where "ipc_read 5 ?msg ?w = Ok 0 (?w\<lparr>ipc_sent := ipc_sent ?w @ [(5, bs)]\<rparr>)"
    using ipc_read_always_fails [OF tab, of 5 ?msg] by (auto simp: Socket_init_def)
  then show ?thesis by (intro exI conjI) auto
qed

lemma ipc_send_run [run]:
  "ipc_takes w \<Longrightarrow> ipc_send_or_throw what fd bs w = Ok () (w\<lparr>ipc_sent := ipc_sent w @ [(fd, bs)]\<rparr>)"
  by (simp add: ipc_send_or_throw_def ipc_try_send_def run)

text \<open>
  A failing \<open>getsockopt\<close> hands out memory: the answer carries as many bytes from behind
  the message as its sender wrote into the length field. Within the connection's buffer
  these are left over from earlier messages; a longer length reads past it.
\<close>

theorem ipc_getsockopt_leaks:
  assumes "socket_table w xs S" and "\<forall>x \<in> set xs. \<not> matching S (msg_pid msg) (int_at msg 6) x" and "ipc_takes w"
  defines "n \<equiv> unat (get32 msg 18)"
  shows "ipc_getsockopt fd msg w = (if length msg < 22 + n then Err OutOfBounds
    else Ok (- EBADF) (w\<lparr>ipc_sent := ipc_sent w @ [(fd, ipc_head IPC_GETSOCKOPT (msg_pid msg)
      @ bytes_int (-1) @ bytes_int EBADF @ take 12 (drop 6 msg) @ bytes32 (get32 msg 18) @ take n (drop 22 msg))]\<rparr>))"
proof -
  have "find (matching S (msg_pid msg) (int_at msg 6)) xs = None"
    using assms(2) by (simp add: find_None_iff)
  then have "get_socket (msg_pid msg) (int_at msg 6) w = Ok null w"
    using get_socket_run [OF assms(1)] by (simp add: found_def)
  then have "sys_getsockopt (msg_pid msg) (int_at msg 6) l m w = Ok (- EBADF, None) w" for l m
    by (simp add: sys_getsockopt_def with_socket_def run)
  then show ?thesis
    using assms(3) by (simp add: ipc_getsockopt_def ipc_err_def run
        EBADF_def n_def)
qed

theorem ipc_getsockopt_leaks_witness:
  "\<exists>w. ipc_getsockopt 5 (ipc_head IPC_GETSOCKOPT 42 @ bytes_int 7 @ bytes_int 1 @ bytes_int 4 @ bytes32 0xffff
      @ replicate 8170 0) (w :: ipc_world) = Err OutOfBounds"
proof -
  let ?msg = "ipc_head IPC_GETSOCKOPT 42 @ bytes_int 7 @ bytes_int 1 @ bytes_int 4 @ bytes32 0xffff @ replicate 8170 0"
  let ?w = "put_queue 16 [] blank_ipc"
  have tab: "socket_table ?w [] (\<lambda>_. Socket_init 0 0 42)"
    by (simp add: socket_table_def put_queue_def blank_ipc_def blank_net_def tcp_world.defs net_world.defs
        ipc_world.defs blank_def qrep_def linked_def nx_def pv_def)
  have len: "get32 ?msg 18 = 0xffff"
    by (simp add: get32_def get16_def bytes16_def bytes32_def ipc_head_def bytes_int_def)
  have takes: "ipc_takes ?w" by (simp add: put_queue_def blank_ipc_def net_world.defs ipc_world.defs)
  have "length ?msg = 8192" by (simp add: ipc_head_def bytes_int_def)
  with len have "length ?msg < 22 + unat (get32 ?msg 18)" by simp
  then have "ipc_getsockopt 5 ?msg ?w = Err OutOfBounds"
    using ipc_getsockopt_leaks [OF tab, of ?msg 5] takes by simp
  then show ?thesis by blast
qed

section \<open>The list of connections\<close>

definition ipc_table :: "'w ipc_world_scheme \<Rightarrow> ptr list \<Rightarrow> (ptr \<Rightarrow> int) \<Rightarrow> bool" where
  "ipc_table w xs F \<longleftrightarrow> qrep w (ipc_queue w) xs \<and> (\<forall>x \<in> set xs. ipc_threads w x = Some (F x))"

lemma ipc_free_thread_body_run:
  assumes "x \<noteq> null" and "ipc_threads w x = Some s"
  shows "s \<noteq> fd \<Longrightarrow> ipc_free_thread_body q fd x u w = Ok (False, ()) w"
    and "s = fd \<Longrightarrow> queue_del q x w = Ok () w1 \<Longrightarrow> ipc_threads w1 = ipc_threads w \<Longrightarrow>
      ipc_free_thread_body q fd x u w = Ok (True, ())
        (w1\<lparr>ipc_closed := ipc_closed w1 @ [fd], ipc_threads := (ipc_threads w)(x := None),
          nodes := (nodes w1)(x := None), socket_count := socket_count w1 - 1\<rparr>)"
  using assms by (simp_all add: ipc_free_thread_body_def run list_entry_def)

lemma ipc_free_thread_hit:
  assumes rep: "qrep w q (ys @ x # zs)" and s: "ipc_threads w x = Some fd"
  shows "\<exists>w'. ipc_free_thread_body q fd x () w = Ok (True, ()) w' \<and> qrep w' q (ys @ zs)
    \<and> ipc_threads w' = (ipc_threads w)(x := None) \<and> ipc_closed w' = ipc_closed w @ [fd]
    \<and> socket_count w' = socket_count w - 1 \<and> ipc_queue w' = ipc_queue w"
proof -
  have x: "x \<noteq> null" "x \<notin> set (q # ys @ zs)" using rep by (auto simp: qrep_def)
  from queue_del_run [OF rep] obtain w1 where
    w1: "queue_del q x w = Ok () w1" "qrep w1 q (ys @ zs)" "touches q (set (ys @ x # zs)) w w1" by blast
  note eq = touches_eq [OF w1(3)]
  have fields: "ipc_threads w1 = ipc_threads w" "ipc_closed w1 = ipc_closed w"
      "socket_count w1 = socket_count w" "ipc_queue w1 = ipc_queue w"
    by (subst eq, simp)+
  define w' where "w' = w1\<lparr>ipc_closed := ipc_closed w1 @ [fd], ipc_threads := (ipc_threads w)(x := None),
      nodes := (nodes w1)(x := None), socket_count := socket_count w1 - 1\<rparr>"
  have "ipc_free_thread_body q fd x () w = Ok (True, ()) w'"
    using ipc_free_thread_body_run(2) [OF x(1) s refl w1(1) fields(1)] by (simp add: w'_def)
  moreover have "qrep w' q (ys @ zs)"
    by (rule qrep_cong [OF w1(2)]) (use x(2) in \<open>auto simp: w'_def\<close>)
  ultimately show ?thesis using fields by (auto simp: w'_def)
qed

lemma ipc_free_thread_find:
  assumes tab: "ipc_table w xs F"
  shows "case find (\<lambda>x. F x = fd) xs of
      None \<Rightarrow> ipc_free_thread fd w = Ok () w
    | Some x \<Rightarrow> \<exists>w'. ipc_free_thread fd w = Ok () w' \<and> ipc_table w' (remove1 x xs) F
        \<and> ipc_threads w' = (ipc_threads w)(x := None) \<and> ipc_closed w' = ipc_closed w @ [fd]
        \<and> socket_count w' = socket_count w - 1"
proof -
  let ?q = "ipc_queue w"
  have rep: "qrep w ?q xs" and F: "\<And>x. x \<in> set xs \<Longrightarrow> ipc_threads w x = Some (F x)"
    using tab by (auto simp: ipc_table_def)
  have nz: "\<And>x. x \<in> set xs \<Longrightarrow> x \<noteq> null" and d: "distinct xs" using rep by (auto simp: qrep_def)
  have pass: "ipc_free_thread_body ?q fd x () w = Ok (False, ()) w" if "x \<in> set xs" "F x \<noteq> fd" for x
    using ipc_free_thread_body_run(1) [OF nz [OF that(1)] F [OF that(1)]] that(2) by simp
  show ?thesis
  proof (cases "find (\<lambda>x. F x = fd) xs")
    case None
    then have "list_for_each_safe ?q (ipc_free_thread_body ?q fd) () w = Ok () w"
      using pass by (intro list_for_each_safe_none [OF rep]) (simp add: find_None_iff)
    with None show ?thesis by (simp add: ipc_free_thread_def run)
  next
    case (Some x)
    then obtain ys zs where xs: "xs = ys @ x # zs" and x: "F x = fd" and ys: "\<forall>y \<in> set ys. F y \<noteq> fd"
      by (rule find_split)
    have rep': "qrep w ?q (ys @ x # zs)" using rep xs by simp
    obtain w' where body: "ipc_free_thread_body ?q fd x () w = Ok (True, ()) w'" "qrep w' ?q (ys @ zs)"
      and w': "ipc_threads w' = (ipc_threads w)(x := None)" "ipc_closed w' = ipc_closed w @ [fd]"
        "socket_count w' = socket_count w - 1" "ipc_queue w' = ?q"
      using ipc_free_thread_hit [OF rep' F] x xs by auto
    have "list_for_each_safe ?q (ipc_free_thread_body ?q fd) () w = Ok () w'"
      using pass ys xs body(1) by (intro list_for_each_safe_first [OF rep']) auto
    moreover have "remove1 x xs = ys @ zs" using d xs by (simp add: remove1_append)
    ultimately show ?thesis
      using Some body(2) w' F d xs by (auto simp: ipc_free_thread_def run ipc_table_def)
  qed
qed

text \<open>
  C28. \<open>ipc_free_thread\<close> takes the first connection with the given descriptor off the list,
  closes that descriptor, forgets the object and counts one connection less; the others stay
  in order. With no such connection it changes nothing.
\<close>

theorem ipc_free_thread_run:
  assumes tab: "ipc_table w xs F"
  shows "case find (\<lambda>x. F x = fd) xs of
      None \<Rightarrow> ipc_free_thread fd w = Ok () w
    | Some x \<Rightarrow> \<exists>w'. ipc_free_thread fd w = Ok () w' \<and> ipc_table w' (remove1 x xs) F
        \<and> ipc_threads w' = (ipc_threads w)(x := None) \<and> ipc_closed w' = ipc_closed w @ [fd]
        \<and> socket_count w' = socket_count w - 1"
  using assms by (rule ipc_free_thread_find)

theorem ipc_free_thread_run_witness:
  "\<exists>w w' :: ipc_world. ipc_free_thread 6 w = Ok () w' \<and> ipc_closed w' = [6] \<and> ipc_table w' [64] (\<lambda>_. 5)"
proof -
  let ?F = "(\<lambda>_ :: ptr. 5)(72 := 6 :: int)"
  let ?w = "put_queue 120 [64, 72] (blank_ipc\<lparr>ipc_threads := [64 \<mapsto> 5, 72 \<mapsto> 6], socket_count := 2\<rparr>)"
  have "ipc_table ?w [64, 72] ?F"
    by (simp add: ipc_table_def put_queue_def blank_ipc_def blank_net_def tcp_world.defs net_world.defs
        ipc_world.defs blank_def qrep_def linked_def nx_def pv_def)
  from ipc_free_thread_run [OF this, of 6] obtain w' where
    "ipc_free_thread 6 ?w = Ok () w'" "ipc_table w' [64] ?F" "ipc_closed w' = ipc_closed ?w @ [6]" by auto
  moreover have "ipc_closed ?w = []" by (simp add: put_queue_def blank_ipc_def net_world.defs ipc_world.defs)
  ultimately show ?thesis by (intro exI [of _ ?w] exI [of _ w']) (simp add: ipc_table_def)
qed

end
