(* ===== verification/Listener.thy ===== *)
theory Listener
  imports Ipc_Facts
begin

text \<open>
  The listener of the UNIX socket, \<open>start_ipc_listener\<close> of \<open>src/ipc.cpp\<close>: the set-up of the
  socket and the loop that accepts connections and starts a thread for each.

  What the kernel answers to the calls of the set-up is the record \<open>unix_calls\<close>; the results
  of \<open>accept\<close> are a list, after which it waits for ever. A started thread is in \<open>started\<close>,
  by the object whose descriptor it is given the address of. \<open>meanwhile\<close> is what the
  other threads, the new one among them, do until the listener goes on.
\<close>

record listen_world = ipc_world +
  unix_path :: "string option"
  started :: "ptr list"

record unix_calls =
  u_socket :: int
  u_bind :: int
  u_listen :: int
  u_chmod :: int

lemma upd_listen_run [run]:
  "upd (unix_path_update f) w = Ok () (w\<lparr>unix_path := f (unix_path w)\<rparr>)"
  "upd (started_update g) w = Ok () (w\<lparr>started := g (started w)\<rparr>)"
  by (simp_all add: upd_apply)

definition sockname :: string where "sockname = ''/tmp/synack.socket''"

definition sun_path_size :: nat where "sun_path_size = 108"

text \<open>The new thread reads the descriptor through the address it was given.\<close>

definition ipc_thread_start ::
    "'w ipc_world_ext net_world_ext ip_out \<Rightarrow> 'w ipc_world_ext net_world_ext others \<Rightarrow> sock \<Rightarrow> ptr
      \<Rightarrow> ('w ipc_world_scheme, unit) M" where
  "ipc_thread_start ipo others raw ipcth = bnd (load ipc_threads ipcth) (socket_ipc_open ipo others raw)"

definition accept_one :: "('w listen_world_scheme, unit) M \<Rightarrow> int \<Rightarrow> ('w listen_world_scheme, unit) M" where
  "accept_one meanwhile datasock =
     (if datasock = -1 then fail (Throw ''ERR(start_ipc_listener): IPC accept.'')
      else bnd (Ipc_Thread_new datasock) (\<lambda>ipcth.
        sq (upd (started_update (\<lambda>l. l @ [ipcth])))
        (sq meanwhile (bnd (load ipc_threads ipcth) (\<lambda>_. skip)))))"

fun accept_loop :: "('w listen_world_scheme, unit) M \<Rightarrow> int list \<Rightarrow> ('w listen_world_scheme, unit) M" where
  "accept_loop meanwhile [] = (\<lambda>w. None)"
| "accept_loop meanwhile (fd # fds) = sq (accept_one meanwhile fd) (accept_loop meanwhile fds)"

definition start_ipc_listener ::
    "unix_calls \<Rightarrow> ('w listen_world_scheme, unit) M \<Rightarrow> int list \<Rightarrow> ('w listen_world_scheme, unit) M" where
  "start_ipc_listener k meanwhile accepts = sq (upd (unix_path_update (\<lambda>_. None)))
     (if sun_path_size \<le> length sockname then fail Exit
      else if u_socket k < 0 then fail (Throw ''ERR(start_ipc_listener): IPC listener UNIX socket.'')
      else if u_bind k = -1 then fail (Throw ''ERR(start_ipc_listener): IPC bind.'')
      else sq (upd (unix_path_update (\<lambda>_. Some sockname)))
        (if u_listen k = -1 then fail Exit
         else if u_chmod k = -1
         then fail (Throw ''ERR(start_ipc_listener): Chmod on lvl-ip IPC UNIX socket failed.'')
         else accept_loop meanwhile accepts))"

section \<open>Accepting\<close>

lemma Ipc_Thread_new_run:
  fixes w :: "'w listen_world_scheme"
  assumes tab: "ipc_table w xs F" and pool: "pool w = p # ps" and p: "p \<noteq> null" "p \<notin> set (ipc_queue w # xs)"
  shows "\<exists>w'. Ipc_Thread_new fd w = Ok p w' \<and> ipc_table w' (xs @ [p]) (F(p := fd))
    \<and> pool w' = ps \<and> socket_count w' = socket_count w + 1 \<and> ipc_queue w' = ipc_queue w
    \<and> started w' = started w"
proof -
  let ?q = "ipc_queue w"
  let ?u = "w\<lparr>pool := ps, nodes := (nodes w)(p \<mapsto> \<lparr>lprev = p, lnext = p\<rparr>), ipc_threads := (ipc_threads w)(p \<mapsto> fd)\<rparr>"
  have rep: "qrep w ?q xs" and F: "\<And>x. x \<in> set xs \<Longrightarrow> ipc_threads w x = Some (F x)"
    using tab by (auto simp: ipc_table_def)
  have "qrep ?u ?q xs" by (rule qrep_cong [OF rep]) (use p in auto)
  moreover have "detached ?u p" using p by (simp add: detached_def)
  ultimately obtain v where v: "queue_add_tail ?q p ?u = Ok () v" "qrep v ?q (xs @ [p])"
    "touches ?q (insert p (set xs)) ?u v"
    using queue_add_tail_run p(2) by blast
  have eq: "v = ?u\<lparr>nodes := nodes v, queues := queues v\<rparr>" by (rule touches_eq [OF v(3)])
  have fields: "ipc_threads v = (ipc_threads w)(p \<mapsto> fd)" "socket_count v = socket_count w"
      "ipc_queue v = ?q" "pool v = ps"
    "started v = started w"
    by (subst eq, simp)+
  have "Ipc_Thread_new fd w = Ok p (v\<lparr>socket_count := socket_count w + 1\<rparr>)"
    using pool v(1) fields(2) by (simp add: Ipc_Thread_new_def new_addr_def init_node_def run)
  then show ?thesis using v(2) fields F by (auto simp: ipc_table_def)
qed

lemma ipc_table_started [simp]: "ipc_table (started_update f w) xs F \<longleftrightarrow> ipc_table w xs F"
  unfolding ipc_table_def using qrep_only [of "started_update f w" w] by simp

text \<open>
  As long as no other thread interferes, every accepted connection is entered at the end of
  the list with its descriptor, counted, and its thread started; then the listener waits for
  the next one.
\<close>

lemma accept_loop_run:
  assumes "ipc_table w xs F" and "pool w = ps @ rest" and "length ps = length fds" and "-1 \<notin> set fds"
    and "distinct (ps @ ipc_queue w # xs)" and "null \<notin> set ps"
  shows "\<exists>w' F'. (\<forall>more. accept_loop skip (fds @ more) w = accept_loop skip more w')
    \<and> ipc_table w' (xs @ ps) F' \<and> map F' (xs @ ps) = map F xs @ fds
    \<and> socket_count w' = socket_count w + int (length fds) \<and> started w' = started w @ ps"
  using assms
proof (induction fds arbitrary: w xs F ps)
  case (Cons fd fds)
  then obtain p ps' where ps: "ps = p # ps'" by (cases ps) auto
  from Cons.prems ps have p: "p \<noteq> null" "p \<notin> set (ipc_queue w # xs)" "pool w = p # ps' @ rest" by auto
  obtain v where v: "Ipc_Thread_new fd w = Ok p v" "ipc_table v (xs @ [p]) (F(p := fd))"
    "pool v = ps' @ rest" "socket_count v = socket_count w + 1" "ipc_queue v = ipc_queue w" "started v = started w"
    using Ipc_Thread_new_run [OF Cons.prems(1) p(3,1,2)] by blast
  let ?u = "v\<lparr>started := started w @ [p]\<rparr>"
  have one: "accept_one skip fd w = Ok () ?u"
    using v Cons.prems(4) p by (auto simp: accept_one_def run ipc_table_def)
  have u: "ipc_table ?u (xs @ [p]) (F(p := fd))" "distinct (ps' @ ipc_queue ?u # xs @ [p])"
    using v(2,5) Cons.prems(5) ps by auto
  with Cons.IH [OF u(1) _ _ _ u(2)] Cons.prems(3,4,6) v ps obtain w' F' where
    IH: "\<forall>more. accept_loop skip (fds @ more) ?u = accept_loop skip more w'"
      "ipc_table w' ((xs @ [p]) @ ps') F'" "map F' ((xs @ [p]) @ ps') = map (F(p := fd)) (xs @ [p]) @ fds"
      "socket_count w' = socket_count ?u + int (length fds)" "started w' = started ?u @ ps'" by auto
  have "map (F(p := fd)) (xs @ [p]) = map F xs @ [fd]" using p(2) by simp
  then show ?case using IH one v(4) ps by (intro exI [of _ w'] exI [of _ F']) (simp add: bnd_run)
qed auto

text \<open>
  A client that hangs up at once: its thread frees the object before the listener stores the
  thread's identity there, a write to freed memory.
\<close>

lemma accept_after_hangup:
  assumes "ipc_table w [] F" and "pool w = [p]" and "p \<noteq> null" and "p \<noteq> ipc_queue w" and "fd \<noteq> -1"
  shows "accept_one (ipc_free_thread fd) fd w = Err BadAccess"
proof -
  obtain v where v: "Ipc_Thread_new fd w = Ok p v" "ipc_table v [p] (F(p := fd))"
    using Ipc_Thread_new_run [of w "[]" F p "[]" fd] assms by auto
  let ?u = "v\<lparr>started := started v @ [p]\<rparr>"
  have "ipc_table ?u [p] (F(p := fd))" using v(2) by simp
  from ipc_free_thread_find [OF this, of fd] show ?thesis
    using v(1) assms(3,5) by (auto simp: accept_one_def run)
qed

end
