(* ===== verification/Messages.thy ===== *)
theory Messages
  imports Ipc_Facts
begin

text \<open>
  The requests of the UNIX-socket protocol as the clients write them: the packed structures of
  \<open>include/ipc.hpp\<close> with their byte layout, and what the server promises for each. A member
  of type \<open>int\<close> is the word of its four bytes, read with its sign.
\<close>

unbundle bit_operations_syntax

section \<open>The structures\<close>

record ipc_socket_msg =
  is_domain :: u32
  is_type :: u32
  is_protocol :: u32

record ipc_connect_msg =
  ic_sockfd :: u32
  ic_addr :: sockaddr_in
  ic_pad :: "u32 \<times> u32"
  ic_addr_len :: u32

record ipc_write_msg =
  iw_sockfd :: u32
  iw_len :: ptr
  iw_buff :: "u8 list"

record ipc_close_msg =
  ix_sockfd :: u32

record ipc_poll_msg =
  ip_nfds :: ptr
  ip_timeout :: u32
  ip_fds :: "pollfd list"

record ipc_fcntl_msg =
  if_sockfd :: u32
  if_cmd :: u32
  if_data :: "u8 list"

record ipc_sock_opt_msg =
  io_fd :: u32
  io_level :: u32
  io_optname :: u32
  io_optlen :: u32
  io_optval :: "u8 list"

definition sockaddr_bytes :: "sockaddr_in \<Rightarrow> u32 \<times> u32 \<Rightarrow> u8 list" where
  "sockaddr_bytes a z = bytes16 (sin_family a) @ bytes16 (sin_port a) @ bytes32 (sin_addr a)
     @ bytes32 (fst z) @ bytes32 (snd z)"

definition ipc_socket_bytes :: "ipc_socket_msg \<Rightarrow> u8 list" where
  "ipc_socket_bytes m = bytes32 (is_domain m) @ bytes32 (is_type m) @ bytes32 (is_protocol m)"

definition ipc_connect_bytes :: "ipc_connect_msg \<Rightarrow> u8 list" where
  "ipc_connect_bytes m = bytes32 (ic_sockfd m) @ sockaddr_bytes (ic_addr m) (ic_pad m) @ bytes32 (ic_addr_len m)"

definition ipc_write_bytes :: "ipc_write_msg \<Rightarrow> u8 list" where
  "ipc_write_bytes m = bytes32 (iw_sockfd m) @ ptr_bytes (iw_len m) @ iw_buff m"

definition ipc_close_bytes :: "ipc_close_msg \<Rightarrow> u8 list" where
  "ipc_close_bytes m = bytes32 (ix_sockfd m)"

definition ipc_poll_bytes :: "ipc_poll_msg \<Rightarrow> u8 list" where
  "ipc_poll_bytes m = ptr_bytes (ip_nfds m) @ bytes32 (ip_timeout m) @ concat (map pollfd_bytes (ip_fds m))"

definition ipc_fcntl_bytes :: "ipc_fcntl_msg \<Rightarrow> u8 list" where
  "ipc_fcntl_bytes m = bytes32 (if_sockfd m) @ bytes32 (if_cmd m) @ if_data m"

definition ipc_sock_opt_bytes :: "ipc_sock_opt_msg \<Rightarrow> u8 list" where
  "ipc_sock_opt_bytes m = bytes32 (io_fd m) @ bytes32 (io_level m) @ bytes32 (io_optname m)
     @ bytes32 (io_optlen m) @ io_optval m"

datatype ipc_request =
    Req_Socket ipc_socket_msg
  | Req_Connect ipc_connect_msg
  | Req_Write ipc_write_msg
  | Req_Close ipc_close_msg
  | Req_Poll ipc_poll_msg
  | Req_Fcntl ipc_fcntl_msg
  | Req_Getsockopt ipc_sock_opt_msg

fun request_type :: "ipc_request \<Rightarrow> u16" where
  "request_type (Req_Socket m) = IPC_SOCKET"
| "request_type (Req_Connect m) = IPC_CONNECT"
| "request_type (Req_Write m) = IPC_WRITE"
| "request_type (Req_Close m) = IPC_CLOSE"
| "request_type (Req_Poll m) = IPC_POLL"
| "request_type (Req_Fcntl m) = IPC_FCNTL"
| "request_type (Req_Getsockopt m) = IPC_GETSOCKOPT"

fun request_data :: "ipc_request \<Rightarrow> u8 list" where
  "request_data (Req_Socket m) = ipc_socket_bytes m"
| "request_data (Req_Connect m) = ipc_connect_bytes m"
| "request_data (Req_Write m) = ipc_write_bytes m"
| "request_data (Req_Close m) = ipc_close_bytes m"
| "request_data (Req_Poll m) = ipc_poll_bytes m"
| "request_data (Req_Fcntl m) = ipc_fcntl_bytes m"
| "request_data (Req_Getsockopt m) = ipc_sock_opt_bytes m"

text \<open>What a client sends: an \<open>Ipc_Msg\<close> with the structure as its data.\<close>

definition ipc_msg_bytes :: "u32 \<Rightarrow> ipc_request \<Rightarrow> u8 list" where
  "ipc_msg_bytes pid r = bytes16 (request_type r) @ bytes32 pid @ request_data r"

text \<open>Lengths that say how much follows are right, and a write fits into one message.\<close>

fun well_formed :: "ipc_request \<Rightarrow> bool" where
  "well_formed (Req_Write m) = (unat (iw_len m) = length (iw_buff m) \<and> length (iw_buff m) \<le> 8174)"
| "well_formed (Req_Poll m) = (unat (ip_nfds m) = length (ip_fds m) \<and> length (ip_fds m) < 2 ^ 60
     \<and> (\<forall>p \<in> set (ip_fds m). - (2 ^ 31) \<le> pf_fd p \<and> pf_fd p < 2 ^ 31))"
| "well_formed (Req_Fcntl m) = (4 \<le> length (if_data m))"
| "well_formed (Req_Getsockopt m) = (unat (io_optlen m) = length (io_optval m) \<and> 4 \<le> length (io_optval m))"
| "well_formed _ = True"

section \<open>What the server promises\<close>

text \<open>
  The promise, without bytes: the system call is run for the client's process with the
  request's members, and its result answered.
\<close>

fun serve :: "'w ipc_world_ext net_world_ext ip_out \<Rightarrow> 'w ipc_world_ext net_world_ext others \<Rightarrow> sock \<Rightarrow> int
    \<Rightarrow> int \<Rightarrow> ipc_request \<Rightarrow> ('w ipc_world_scheme, int) M" where
  "serve ipo others raw fd pid (Req_Socket m) =
     bnd (sys_socket raw pid (sint (is_domain m)) (sint (is_type m)) (sint (is_protocol m)))
       (ipc_write_rc fd pid IPC_SOCKET)"
| "serve ipo others raw fd pid (Req_Connect m) =
     bnd (sys_connect ipo others pid (sint (ic_sockfd m)) (ic_addr m) (uint (ic_addr_len m)))
       (ipc_write_rc fd pid IPC_CONNECT)"
| "serve ipo others raw fd pid (Req_Write m) =
     bnd (sys_write ipo pid (sint (iw_sockfd m)) (iw_buff m) (int (length (iw_buff m))))
       (ipc_write_rc fd pid IPC_WRITE)"
| "serve ipo others raw fd pid (Req_Close m) =
     bnd (sys_close ipo pid (sint (ix_sockfd m))) (ipc_write_rc fd pid IPC_CLOSE)"
| "serve ipo others raw fd pid (Req_Poll m) =
     bnd (sys_poll others pid (ip_fds m) (sint (ip_timeout m))) (\<lambda>(fds, rc). bnd (ipc_err rc) (\<lambda>e.
       sq (ipc_send_or_throw ''ERR(ipc_err): Error on writing IPC Poll Response'' fd
         (ipc_head IPC_POLL pid @ e @ concat (map pollfd_bytes fds))) (ret 0)))"
| "serve ipo others raw fd pid (Req_Fcntl m) =
     bnd (if sint (if_cmd m) = F_GETFL then sys_fcntl pid (sint (if_sockfd m)) F_GETFL None
       else if sint (if_cmd m) = F_SETFL then sys_fcntl pid (sint (if_sockfd m)) F_SETFL (Some (int_at (if_data m) 0))
       else ret (- EINVAL)) (ipc_write_rc fd pid IPC_FCNTL)"
| "serve ipo others raw fd pid (Req_Getsockopt m) =
     bnd (sys_getsockopt pid (sint (io_fd m)) (sint (io_level m)) (sint (io_optname m))) (\<lambda>(rc, v).
       bnd (ipc_err rc) (\<lambda>e. sq (ipc_send_or_throw ''ERR(ipc_getsockopt): Error on writing IPC getsockopt Response.'' fd
         (ipc_head IPC_GETSOCKOPT pid @ e @ ipc_sock_opt_bytes (case v of None \<Rightarrow> m
            | Some x \<Rightarrow> m\<lparr>io_optlen := 4, io_optval := bytes_int x\<rparr>))) (ret rc)))"

section \<open>The bytes are read back\<close>

lemmas layout = msg_type_def msg_pid_def int_at_def get32_def get16_def bytes32_def bytes16_def

lemma message_start:
  "msg_type (bytes16 ty @ bytes32 p @ body) = ty"
  "msg_pid (bytes16 ty @ bytes32 p @ body) = sint p"
  "drop 6 (bytes16 ty @ bytes32 p @ body) = body"
  by (simp_all add: layout)

lemma message_words:
  "int_at (bytes16 ty @ bytes32 p @ bytes32 a @ body) 6 = sint a"
  "int_at (bytes16 ty @ bytes32 p @ bytes32 a @ bytes32 b @ body) 10 = sint b"
  "int_at (bytes16 ty @ bytes32 p @ bytes32 a @ bytes32 b @ bytes32 c @ body) 14 = sint c"
  "get32 (bytes16 ty @ bytes32 p @ bytes32 a @ bytes32 b @ bytes32 c @ bytes32 d @ body) 18 = d"
  by (simp_all add: layout)

lemma demux_type:
  "demux_ipc_socket_call ipo others raw fd (ipc_msg_bytes pid r @ rest) = (case r of
      Req_Socket m \<Rightarrow> ipc_socket raw fd (ipc_msg_bytes pid r @ rest)
    | Req_Connect m \<Rightarrow> ipc_connect ipo others fd (ipc_msg_bytes pid r @ rest)
    | Req_Write m \<Rightarrow> ipc_write ipo fd (ipc_msg_bytes pid r @ rest)
    | Req_Close m \<Rightarrow> ipc_close ipo fd (ipc_msg_bytes pid r @ rest)
    | Req_Poll m \<Rightarrow> ipc_poll others fd (ipc_msg_bytes pid r @ rest)
    | Req_Fcntl m \<Rightarrow> ipc_fcntl fd (ipc_msg_bytes pid r @ rest)
    | Req_Getsockopt m \<Rightarrow> ipc_getsockopt fd (ipc_msg_bytes pid r @ rest))"
  by (cases r) (simp_all add: demux_ipc_socket_call_def ipc_msg_bytes_def message_start
      IPC_SOCKET_def IPC_CONNECT_def IPC_WRITE_def IPC_READ_def IPC_CLOSE_def IPC_POLL_def IPC_FCNTL_def
      IPC_GETSOCKOPT_def)

lemma socket_served:
  "ipc_socket raw fd (ipc_msg_bytes pid (Req_Socket m) @ rest) = serve ipo others raw fd (sint pid) (Req_Socket m)"
  by (simp add: ipc_socket_def ipc_msg_bytes_def ipc_socket_bytes_def message_start message_words)

lemma close_served:
  "ipc_close ipo fd (ipc_msg_bytes pid (Req_Close m) @ rest) = serve ipo others raw fd (sint pid) (Req_Close m)"
  by (simp add: ipc_close_def ipc_msg_bytes_def ipc_close_bytes_def message_start message_words)

lemma connect_served:
  "ipc_connect ipo others fd (ipc_msg_bytes pid (Req_Connect m) @ rest)
    = serve ipo others raw fd (sint pid) (Req_Connect m)"
proof -
  let ?msg = "ipc_msg_bytes pid (Req_Connect m) @ rest"
  have "get16 ?msg 10 = sin_family (ic_addr m)" "get16 ?msg 12 = sin_port (ic_addr m)"
    "get32 ?msg 14 = sin_addr (ic_addr m)" "get32 ?msg 26 = ic_addr_len m"
    by (simp_all add: ipc_msg_bytes_def ipc_connect_bytes_def sockaddr_bytes_def layout)
  then have addr: "\<lparr>sin_family = get16 ?msg 10, sin_port = get16 ?msg 12, sin_addr = get32 ?msg 14\<rparr> = ic_addr m"
    "get32 ?msg 26 = ic_addr_len m" by simp_all
  show ?thesis unfolding ipc_connect_def addr
    by (simp add: ipc_msg_bytes_def ipc_connect_bytes_def message_start message_words)
qed

lemma size_in_message:
  "size_at (bytes16 ty @ bytes32 p @ bytes32 a @ ptr_bytes n @ body) 10 = unat n"
  "size_at (bytes16 ty @ bytes32 p @ ptr_bytes n @ body) 6 = unat n"
  "drop 18 (bytes16 ty @ bytes32 p @ bytes32 a @ ptr_bytes n @ body) = body"
  "drop 14 (bytes16 ty @ bytes32 p @ ptr_bytes n @ body) = body"
proof -
  have "ptr_of (ptr_bytes n @ body) = ptr_of (ptr_bytes n)"
    by (simp add: ptr_of_def ptr_bytes_def bytes16_def bytes32_def get16_def get32_def)
  then have n: "ptr_of (ptr_bytes n @ body) = n" by simp
  have "drop 10 (bytes16 ty @ bytes32 p @ bytes32 a @ ptr_bytes n @ body) = ptr_bytes n @ body"
    "drop 6 (bytes16 ty @ bytes32 p @ ptr_bytes n @ body) = ptr_bytes n @ body"
    by (simp_all add: bytes16_def bytes32_def)
  with n show "size_at (bytes16 ty @ bytes32 p @ bytes32 a @ ptr_bytes n @ body) 10 = unat n"
    "size_at (bytes16 ty @ bytes32 p @ ptr_bytes n @ body) 6 = unat n"
    by (simp_all add: size_at_def)
qed (simp_all add: ptr_bytes_def bytes16_def bytes32_def)

lemma write_served:
  assumes "well_formed (Req_Write m)"
  shows "ipc_write ipo fd (ipc_msg_bytes pid (Req_Write m) @ rest) = serve ipo others raw fd (sint pid) (Req_Write m)"
  using assms
  by (simp add: ipc_write_def ipc_msg_bytes_def ipc_write_bytes_def message_start message_words size_in_message
      IPC_BUFF_LEN_def Ipc_Write_size_def Ipc_Msg_size_def)

lemma fcntl_served:
  assumes "well_formed (Req_Fcntl m)"
  shows "ipc_fcntl fd (ipc_msg_bytes pid (Req_Fcntl m) @ rest) = serve ipo others raw fd (sint pid) (Req_Fcntl m)"
proof -
  have "if_data m \<noteq> []" using assms by auto
  then have "int_at (ipc_msg_bytes pid (Req_Fcntl m) @ rest) 14 = int_at (if_data m) 0"
    using assms by (simp add: ipc_msg_bytes_def ipc_fcntl_bytes_def layout nth_append numeral_2_eq_2 numeral_3_eq_3 Suc_le_eq)
  then show ?thesis
    by (simp add: ipc_fcntl_def) (simp add: ipc_msg_bytes_def ipc_fcntl_bytes_def message_start message_words)
qed

lemma pollfds_read:
  assumes "\<forall>p \<in> set ps. - (2 ^ 31) \<le> pf_fd p \<and> pf_fd p < 2 ^ 31"
  shows "map (\<lambda>i. pollfd_of (drop (8 * i) (concat (map pollfd_bytes ps) @ rest))) [0..<length ps] = ps"
  using assms
proof (induction ps)
  case (Cons p ps)
  have first: "pollfd_of (pollfd_bytes p @ more) = p" for more
    using Cons.prems int_of_bytes_int [of "pf_fd p"]
    by (simp add: pollfd_of_def pollfd_bytes_def bytes_int_def layout)
  have len: "length (pollfd_bytes p) = 8" by (simp add: pollfd_bytes_def bytes_int_def layout)
  have "[0..<length (p # ps)] = 0 # map Suc [0..<length ps]" by (simp only: list.size(4) upt_conv_Cons map_Suc_upt) simp
  with Cons first len show ?case by (simp add: o_def)
qed simp

lemma poll_served:
  assumes "well_formed (Req_Poll m)"
  shows "ipc_poll others fd (ipc_msg_bytes pid (Req_Poll m) @ rest) = serve ipo others raw fd (sint pid) (Req_Poll m)"
proof -
  let ?msg = "ipc_msg_bytes pid (Req_Poll m) @ rest" and ?fds = "concat (map pollfd_bytes (ip_fds m))"
  have msg: "?msg = bytes16 IPC_POLL @ bytes32 pid @ ptr_bytes (ip_nfds m) @ bytes32 (ip_timeout m) @ ?fds @ rest"
    by (simp add: ipc_msg_bytes_def ipc_poll_bytes_def)
  have "length (pollfd_bytes p) = 8" for p by (simp add: pollfd_bytes_def bytes_int_def layout)
  then have "length ?fds = 8 * length (ip_fds m)" by (induction "ip_fds m") (simp_all add: length_concat o_def sum_list_triv)
  moreover have "drop 18 ?msg = ?fds @ rest"
    unfolding msg by (simp add: ptr_bytes_def bytes16_def bytes32_def)
  then have "drop (18 + i) ?msg = drop i (?fds @ rest)" for i
    using drop_drop [of i 18 ?msg] by (simp add: add.commute del: drop_append)
  moreover have "int_at ?msg 14 = sint (ip_timeout m)"
    unfolding msg by (simp add: ptr_bytes_def layout)
  moreover have "length ?msg = 18 + length ?fds + length rest" unfolding msg by (simp add: layout)
  moreover have "size_at ?msg 6 = length (ip_fds m)" "msg_pid ?msg = sint pid"
    using assms unfolding msg by (simp_all add: size_in_message message_start)
  moreover have "map (\<lambda>i. pollfd_of (drop (8 * i) (?fds @ rest))) [0..<length (ip_fds m)] = ip_fds m"
    using assms by (intro pollfds_read) simp
  ultimately show ?thesis using assms by (simp add: ipc_poll_def del: drop_append)
qed

lemma getsockopt_served:
  fixes ipo :: "'w ipc_world_ext net_world_ext ip_out"
  assumes "well_formed (Req_Getsockopt m)"
  shows "ipc_getsockopt fd (ipc_msg_bytes pid (Req_Getsockopt m) @ rest)
    = serve ipo others raw fd (sint pid) (Req_Getsockopt m)"
proof -
  let ?msg = "ipc_msg_bytes pid (Req_Getsockopt m) @ rest"
    and ?ints = "bytes32 (io_fd m) @ bytes32 (io_level m) @ bytes32 (io_optname m)"
  have msg: "?msg = bytes16 IPC_GETSOCKOPT @ bytes32 pid @ bytes32 (io_fd m) @ bytes32 (io_level m)
      @ bytes32 (io_optname m) @ bytes32 (io_optlen m) @ io_optval m @ rest"
    by (simp add: ipc_msg_bytes_def ipc_sock_opt_bytes_def)
  have read: "msg_pid ?msg = sint pid" "int_at ?msg 6 = sint (io_fd m)" "int_at ?msg 10 = sint (io_level m)"
    "int_at ?msg 14 = sint (io_optname m)" "get32 ?msg 18 = io_optlen m"
    unfolding msg by (simp_all add: message_start message_words)
  have len: "length ?msg = 22 + length (io_optval m) + length rest" unfolding msg by (simp add: layout)
  have parts: "take 12 (drop 6 ?msg) = ?ints" "drop 22 ?msg = io_optval m @ rest"
    unfolding msg by (simp_all add: bytes16_def bytes32_def)
  let ?new = "\<lambda>x. take 22 ?msg @ bytes_int x @ drop 26 ?msg"
  have new: "take 12 (drop 6 (?new x)) = ?ints" "take 4 (drop 22 (?new x)) = bytes_int x" "(length (?new x) < 22 + 4) = False" for x
    using parts(1) len by (simp_all add: bytes_int_def drop_take)
  have same: "of_nat (unat (io_optlen m)) = io_optlen m" by simp
  have old: "take (unat (io_optlen m)) (drop 22 ?msg) = io_optval m" "(length ?msg < 22 + unat (io_optlen m)) = False"
    using assms parts(2) len by simp_all
  let ?answer = "\<lambda>rc e optlen msg'. sq (ipc_send_or_throw ''ERR(ipc_getsockopt): Error on writing IPC getsockopt Response.'' fd
    (ipc_head IPC_GETSOCKOPT (sint pid) @ e @ take 12 (drop 6 msg') @ bytes32 (of_nat optlen) @ take optlen (drop 22 msg'))) (ret rc)"
  have "(bnd :: ('w ipc_world_scheme, nat \<times> u8 list) M \<Rightarrow> _) (ret (case v of None \<Rightarrow> (unat (io_optlen m), ?msg) | Some x \<Rightarrow> (4, ?new x))) (\<lambda>(optlen, msg').
      if length msg' < 22 + optlen then fail OutOfBounds else bnd (ipc_err rc) (\<lambda>e. ?answer rc e optlen msg'))
    = bnd (ipc_err rc) (\<lambda>e. sq (ipc_send_or_throw ''ERR(ipc_getsockopt): Error on writing IPC getsockopt Response.'' fd
        (ipc_head IPC_GETSOCKOPT (sint pid) @ e @ ipc_sock_opt_bytes (case v of None \<Rightarrow> m
          | Some x \<Rightarrow> m\<lparr>io_optlen := 4, io_optval := bytes_int x\<rparr>))) (ret rc))" for rc v
  proof (cases v)
    case None
    show ?thesis
      by (simp only: None option.case bnd_ret prod.case old(2) if_False parts(1) old(1) same ipc_sock_opt_bytes_def append_assoc)
  next
    case (Some x)
    show ?thesis
      by (simp only: Some option.case bnd_ret prod.case new(3) if_False new(1,2) ipc_sock_opt_bytes_def
          append_assoc of_nat_numeral) simp
  qed
  then show ?thesis unfolding ipc_getsockopt_def serve.simps read by (simp only:)
qed



end
