(* ===== verification/Startup.thy ===== *)
theory Startup
  imports Net_Input "HOL-Library.Char_ord"
begin

text \<open>
  Start and end of the program: the addresses it is configured with (\<open>src/utils.cpp\<close>), the
  network devices (\<open>src/network_device.cpp\<close>), the tap and the shell commands that set it up
  (\<open>src/tuntap_interface.cpp\<close>, \<open>run_cmd\<close> of \<open>include/utils.hpp\<close>) and the command line
  (\<open>src/cli.cpp\<close>).

  What the operating system answers is a parameter: the record \<open>kernel\<close> for the tap, the
  results of \<open>getaddrinfo\<close> and \<open>getopt\<close> for the other two. \<open>commands\<close> holds the shell
  commands run so far and \<open>closed_fds\<close> the descriptors closed.
\<close>

record host_world = net_world +
  tap_fd :: int
  tap_dev :: string
  tuntap_interface :: ptr
  commands :: "string list"
  closed_fds :: "int list"
  debug :: bool

record kernel =
  k_open :: int
  k_tunsetiff :: "string \<Rightarrow> int \<times> string"
  k_system :: "string \<Rightarrow> int"

lemma upd_host_run [run]:
  "upd (tap_fd_update f) w = Ok () (w\<lparr>tap_fd := f (tap_fd w)\<rparr>)"
  "upd (tap_dev_update g) w = Ok () (w\<lparr>tap_dev := g (tap_dev w)\<rparr>)"
  "upd (tuntap_interface_update h) w = Ok () (w\<lparr>tuntap_interface := h (tuntap_interface w)\<rparr>)"
  "upd (commands_update c) w = Ok () (w\<lparr>commands := c (commands w)\<rparr>)"
  "upd (closed_fds_update d) w = Ok () (w\<lparr>closed_fds := d (closed_fds w)\<rparr>)"
  "upd (debug_update b) w = Ok () (w\<lparr>debug := b (debug w)\<rparr>)"
  by (simp_all add: upd_apply)

lemma upd_net_startup_run [run]:
  "upd (tap_up_update u) w = Ok () (w\<lparr>tap_up := u (tap_up w)\<rparr>)"
  "upd (devices_update v) w = Ok () (w\<lparr>devices := v (devices w)\<rparr>)"
  "upd (loopback_update l) w = Ok () (w\<lparr>loopback := l (loopback w)\<rparr>)"
  "upd (netdev_update m) w = Ok () (w\<lparr>netdev := m (netdev w)\<rparr>)"
  by (simp_all add: upd_apply)

section \<open>Addresses\<close>

definition digit :: "char \<Rightarrow> nat option" where
  "digit c = (if of_char c \<in> {48..57 :: nat} then Some (of_char c - 48) else None)"

definition hex_digit :: "char \<Rightarrow> nat option" where
  "hex_digit c = (let n = of_char c :: nat in
     if n \<in> {48..57} then Some (n - 48) else if n \<in> {97..102} then Some (n - 87)
     else if n \<in> {65..70} then Some (n - 55) else None)"

fun number :: "nat \<Rightarrow> nat list \<Rightarrow> nat" where
  "number base ds = foldl (\<lambda>n d. base * n + d) 0 ds"

fun fields_of :: "char \<Rightarrow> string \<Rightarrow> string list" where
  "fields_of c [] = [[]]"
| "fields_of c (x # xs) = (if x = c then [] # fields_of c xs
     else case fields_of c xs of [] \<Rightarrow> [[x]] | y # ys \<Rightarrow> (x # y) # ys)"

text \<open>
  \<open>inet_pton\<close> for \<open>AF_INET\<close>: four decimal numbers from 0 to 255 of one to three digits,
  without leading zeros, separated by dots.
\<close>

definition octet :: "string \<Rightarrow> nat option" where
  "octet s = (case those (map digit s) of None \<Rightarrow> None
     | Some ds \<Rightarrow> if ds = [] \<or> 3 < length ds \<or> (hd ds = 0 \<and> 1 < length ds) \<or> 255 < number 10 ds
         then None else Some (number 10 ds))"

definition inet_pton :: "string \<Rightarrow> u32 option" where
  "inet_pton s = (case those (map octet (fields_of CHR ''.'' s)) of
       Some [a, b, c, d] \<Rightarrow> Some (get32 [of_nat a, of_nat b, of_nat c, of_nat d] 0)
     | _ \<Rightarrow> None)"

definition parse_ipv4_string :: "string \<Rightarrow> ('w, u32) M" where
  "parse_ipv4_string addr = (case inet_pton addr of
       None \<Rightarrow> fail (Throw ''ERR(utils): During parsing ip'') | Some a \<Rightarrow> ret (ntohl a))"

text \<open>
  \<open>stoi\<close> in base 16, on at most two characters: white space, a sign, digits, and the rest is
  ignored.
\<close>

definition isspace :: "char \<Rightarrow> bool" where
  "isspace c \<longleftrightarrow> of_char c \<in> {9..13 :: nat} \<or> c = CHR '' ''"

definition stoi16 :: "string \<Rightarrow> int option" where
  "stoi16 s = (let t = dropWhile isspace s; neg = (t \<noteq> [] \<and> hd t = CHR ''-'');
     u = (if t \<noteq> [] \<and> hd t \<in> {CHR ''-'', CHR ''+''} then tl t else t);
     ds = map (the \<circ> hex_digit) (takeWhile (\<lambda>c. hex_digit c \<noteq> None) u) in
     if ds = [] then None else Some (if neg then - int (number 16 ds) else int (number 16 ds)))"

text \<open>
  The bytes of a MAC address are written to an array of six on the stack, \<open>ans\<close>, by the
  index \<open>k\<close>; the position in the string advances by three.
\<close>

function parse_mac_loop :: "string \<Rightarrow> nat \<Rightarrow> u8 list \<Rightarrow> ('w, u8 list) M" where
  "parse_mac_loop s k ans = (if s = [] then ret ans
     else case stoi16 (take 2 s) of None \<Rightarrow> fail (Throw ''stoi'')
       | Some v \<Rightarrow> if length ans \<le> k then fail OutOfBounds
           else parse_mac_loop (drop 3 s) (k + 1) (ans[k := word_of_int v]))"
  by auto
termination
  by (relation "measure (\<lambda>(s, k, ans). length s)") auto

declare parse_mac_loop.simps [simp del]

text \<open>
  The function returns the address of its own array. What its caller finds there is left
  open: \<open>stale bs\<close> for an array that held \<open>bs\<close>, \<open>None\<close> when the pointer is null.
\<close>

type_synonym stale = "u8 list \<Rightarrow> u8 list option"

definition parse_MAC_string :: "stale \<Rightarrow> u8 list \<Rightarrow> string \<Rightarrow> ('w, u8 list option) M" where
  "parse_MAC_string stale raw mac_addr = bnd (parse_mac_loop mac_addr 0 raw) (\<lambda>ans. ret (stale ans))"

text \<open>
  \<open>getaddrinfo\<close> answers a status and a list of results, each a family and an address; the
  first one of \<open>AF_INET\<close> is taken.
\<close>

definition AF_INET_family :: int where "AF_INET_family = 2"

definition get_address ::
    "(string \<Rightarrow> string \<Rightarrow> int \<times> (int \<times> 'addr) list) \<Rightarrow> string \<Rightarrow> string \<Rightarrow> int \<times> 'addr option" where
  "get_address getaddrinfo host port = (case getaddrinfo host port of (status, res) \<Rightarrow>
     if status \<noteq> 0 then (-1, None)
     else case find (\<lambda>(family, addr). family = AF_INET_family) res of
         None \<Rightarrow> (-1, None) | Some (family, addr) \<Rightarrow> (0, Some addr))"

section \<open>Network devices\<close>

text \<open>\<open>raw\<close> is what the memory of the new object held.\<close>

definition Network_Device_init ::
    "stale \<Rightarrow> u8 list \<Rightarrow> net_device \<Rightarrow> string \<Rightarrow> string \<Rightarrow> u32 \<Rightarrow> ('w, net_device) M" where
  "Network_Device_init stale stack raw addr hwaddr mtu = bnd (parse_ipv4_string addr) (\<lambda>a.
     bnd (parse_MAC_string stale stack hwaddr) (\<lambda>mac.
       ret (raw\<lparr>nd_addr := a, nd_mtu := mtu,
         nd_hwaddr := (case mac of None \<Rightarrow> nd_hwaddr raw | Some bs \<Rightarrow> bs)\<rparr>)))"

definition new_device ::
    "stale \<Rightarrow> u8 list \<Rightarrow> net_device \<Rightarrow> string \<Rightarrow> string \<Rightarrow> u32 \<Rightarrow> ('w net_world_scheme, ptr) M" where
  "new_device stale stack raw addr hwaddr mtu = bnd new_addr (\<lambda>p.
     bnd (Network_Device_init stale stack raw addr hwaddr mtu) (\<lambda>d.
     sq (upd (devices_update (\<lambda>h. h(p \<mapsto> d)))) (ret p)))"

definition network_device_init :: "stale \<Rightarrow> u8 list \<Rightarrow> net_device \<Rightarrow> ('w net_world_scheme, unit) M" where
  "network_device_init stale stack raw =
     bnd (new_device stale stack raw ''127.0.0.1'' ''00:00:00:00:00:00'' 1500) (\<lambda>lo.
     sq (upd (loopback_update (\<lambda>_. lo)))
     (bnd (new_device stale stack raw ''10.0.0.10'' ''00:0c:29:6d:50:25'' 1500) (\<lambda>nd.
       upd (netdev_update (\<lambda>_. nd)))))"

definition delete_device :: "ptr \<Rightarrow> ('w net_world_scheme, unit) M" where
  "delete_device p = bnd (load devices p) (\<lambda>_. upd (devices_update (\<lambda>h. h(p := None))))"

definition free_netdev :: "('w net_world_scheme, unit) M" where
  "free_netdev = bnd (get loopback) (\<lambda>lo. sq (onlyif (lo \<noteq> null) (delete_device lo))
     (bnd (get netdev) (\<lambda>nd. onlyif (nd \<noteq> null) (delete_device nd))))"

section \<open>The tap\<close>

text \<open>
  \<open>std::vformat\<close> with automatic fields: the next argument for \<open>{}\<close>, doubled braces for one;
  \<open>None\<close> when it throws. Format specifications, which no command uses, count as errors.
\<close>

definition brace :: "char \<Rightarrow> bool" where
  "brace c \<longleftrightarrow> c = CHR 0x7B \<or> c = CHR 0x7D"

fun vformat :: "string \<Rightarrow> string list \<Rightarrow> string option" where
  "vformat [] args = Some []"
| "vformat (c # fmt) args = (if \<not> brace c then map_option ((#) c) (vformat fmt args)
     else case fmt of [] \<Rightarrow> None
       | d # rest \<Rightarrow> if d = c then map_option ((#) c) (vformat rest args)
           else if c = CHR 0x7B \<and> d = CHR 0x7D
           then (case args of [] \<Rightarrow> None | a # args' \<Rightarrow> map_option ((@) a) (vformat rest args'))
           else None)"

definition run_cmd :: "kernel \<Rightarrow> string \<Rightarrow> string list \<Rightarrow> ('w host_world_scheme, int) M" where
  "run_cmd k fmt args = (case vformat fmt args of None \<Rightarrow> ret (-1)
     | Some cmd \<Rightarrow> sq (upd (commands_update (\<lambda>l. l @ [cmd]))) (ret (k_system k cmd)))"

definition set_interface_up :: "kernel \<Rightarrow> string \<Rightarrow> ('w host_world_scheme, int) M" where
  "set_interface_up k dev = run_cmd k ''ip link set dev {} up'' [dev]"

definition set_interface_address :: "kernel \<Rightarrow> string \<Rightarrow> string \<Rightarrow> ('w host_world_scheme, int) M" where
  "set_interface_address k dev addr = run_cmd k ''ip addr add dev {} local {}'' [dev, addr]"

definition set_interface_route :: "kernel \<Rightarrow> string \<Rightarrow> string \<Rightarrow> ('w host_world_scheme, int) M" where
  "set_interface_route k dev route = run_cmd k ''ip route add dev {} {}'' [dev, route]"

definition IFNAMSIZ :: nat where "IFNAMSIZ = 16"
definition tap_addr :: string where "tap_addr = ''10.0.0.5''"
definition tap_route :: string where "tap_route = ''10.0.0.0/24''"

text \<open>The C string in a character array: up to the first zero byte.\<close>

definition c_str :: "string \<Rightarrow> string" where
  "c_str s = takeWhile (\<lambda>c. c \<noteq> CHR 0x00) s"

definition tap_alloc :: "kernel \<Rightarrow> ('w host_world_scheme, int) M" where
  "tap_alloc k = (if k_open k < 0 then fail Exit
     else bnd (get tap_dev) (\<lambda>dev.
       case k_tunsetiff k (take IFNAMSIZ (c_str dev)) of (err, name) \<Rightarrow>
         if err < 0 then sq (upd (closed_fds_update (\<lambda>l. l @ [k_open k]))) (fail Exit)
         else sq (upd (tap_dev_update (\<lambda>_. take IFNAMSIZ (c_str name)))) (ret (k_open k))))"

definition TUNTAP_Interface_init :: "kernel \<Rightarrow> ('w host_world_scheme, unit) M" where
  "TUNTAP_Interface_init k = bnd (get tap_up) (\<lambda>initialised. onlyif (\<not> initialised)
     (sq (upd (tap_up_update (\<lambda>_. True)))
     (sq (upd (tap_dev_update (\<lambda>_. replicate IFNAMSIZ CHR 0x00)))
     (bnd (tap_alloc k) (\<lambda>fd. sq (upd (tap_fd_update (\<lambda>_. fd)))
     (bnd (get tap_dev) (\<lambda>dev. bnd (set_interface_up k dev) (\<lambda>r. if r \<noteq> 0 then fail Exit
     else bnd (set_interface_route k dev tap_route) (\<lambda>r. if r \<noteq> 0 then fail Exit
     else bnd (set_interface_address k dev tap_addr) (\<lambda>r. if r \<noteq> 0 then fail Exit else skip))))))))))"

definition tuntap_interface_init :: "kernel \<Rightarrow> ('w host_world_scheme, unit) M" where
  "tuntap_interface_init k = bnd new_addr (\<lambda>p. sq (TUNTAP_Interface_init k)
     (upd (tuntap_interface_update (\<lambda>_. p))))"

definition free_tuntap_interface :: "('w host_world_scheme, unit) M" where
  "free_tuntap_interface = bnd (get tap_up) (\<lambda>initialised. sq (onlyif initialised
       (bnd (get tap_fd) (\<lambda>fd. sq (upd (closed_fds_update (\<lambda>l. l @ [fd])))
         (upd (tap_up_update (\<lambda>_. False))))))
     (bnd (get tuntap_interface) (\<lambda>p. onlyif (p \<noteq> null) (upd (tuntap_interface_update (\<lambda>_. null))))))"

section \<open>The command line\<close>

text \<open>
  \<open>getopt\<close> answers option letters, \<open>?\<close> for one it does not know, until it is done; then
  \<open>optind\<close> is the index of the first argument that is no option.
\<close>

fun parse_opts_loop :: "char list \<Rightarrow> ('w host_world_scheme, unit) M" where
  "parse_opts_loop [] = skip"
| "parse_opts_loop (opt # opts) = (if opt = CHR ''d''
     then sq (upd (debug_update (\<lambda>_. True))) (parse_opts_loop opts) else fail Exit)"

definition parse_opts :: "char list \<Rightarrow> int \<Rightarrow> int \<Rightarrow> ('w host_world_scheme, int \<times> int) M" where
  "parse_opts opts optind argc = sq (parse_opts_loop opts) (ret (argc - optind, optind))"

definition parse_cli :: "char list \<Rightarrow> int \<Rightarrow> int \<Rightarrow> ('w host_world_scheme, int) M" where
  "parse_cli opts optind argc = bnd (parse_opts opts optind argc) (\<lambda>(argc', _). ret argc')"

end
