(* ===== verification/Startup_Facts.thy ===== *)
theory Startup_Facts
  imports Startup
begin

text \<open>
  What is proved of the start of the program: the addresses \<open>parse_ipv4_string\<close> accepts, the
  commands that set the tap up, and the devices.
\<close>

section \<open>Addresses\<close>

text \<open>The reference: decimal numbers, joined by a separator.\<close>

fun decimal :: "nat \<Rightarrow> string" where
  "decimal n = (if n < 10 then [char_of (48 + n)] else decimal (n div 10) @ [char_of (48 + n mod 10)])"

declare decimal.simps [simp del]

fun joined :: "char \<Rightarrow> string list \<Rightarrow> string" where
  "joined c [] = []"
| "joined c [p] = p"
| "joined c (p # ps) = p @ c # joined c ps"

definition dotted :: "nat list \<Rightarrow> string" where
  "dotted ns = joined CHR ''.'' (map decimal ns)"

lemma fields_of_nonempty [simp]: "fields_of c s \<noteq> []"
  by (induction c s rule: fields_of.induct) (auto split: list.splits)

lemma joined_Cons: "ps \<noteq> [] \<Longrightarrow> joined c (p # ps) = p @ c # joined c ps"
  by (cases ps) simp_all

lemma joined_fields_of: "joined c (fields_of c s) = s"
proof (induction c s rule: fields_of.induct)
  case (2 c x xs)
  obtain y ys where "fields_of c xs = y # ys" by (cases "fields_of c xs") auto
  with 2 show ?case by (cases "x = c"; cases ys) (auto simp: joined_Cons)
qed simp

lemma fields_of_joined:
  assumes "ps \<noteq> []" and "\<forall>p \<in> set ps. c \<notin> set p"
  shows "fields_of c (joined c ps) = ps"
proof -
  have single: "fields_of c p = [p]" if "c \<notin> set p" for p
    using that by (induction p) auto
  have front: "fields_of c (p @ c # s) = p # fields_of c s" if "c \<notin> set p" for p s
    using that by (induction p) auto
  show ?thesis
    using assms
  proof (induction ps)
    case (Cons p ps)
    then show ?case by (cases "ps = []") (auto simp: single front joined_Cons)
  qed simp
qed

lemma digit_char [simp]: "d < 10 \<Longrightarrow> digit (char_of (48 + d)) = Some d"
  by (simp add: digit_def)

lemma decimal_byte:
  assumes "n < 256"
  shows "decimal n = map (\<lambda>d. char_of (48 + d)) (if n < 10 then [n] else if n < 100 then [n div 10, n mod 10]
    else [n div 100, n div 10 mod 10, n mod 10])"
proof -
  consider "n < 10" | "10 \<le> n" "n < 100" | "100 \<le> n" by linarith
  then show ?thesis
  proof cases
    case 3
    then have "\<not> n < 10" "\<not> n div 10 < 10" "n div 10 div 10 < 10" "n div 10 div 10 = n div 100"
      using assms by auto
    with 3 show ?thesis
      by (simp add: decimal.simps [of n] decimal.simps [of "n div 10"] decimal.simps [of "n div 100"] del: div_mult2_eq)
  qed (auto simp: decimal.simps [of n] decimal.simps [of "n div 10"])
qed

lemma those_digits: "\<forall>d \<in> set ds. d < 10 \<Longrightarrow> those (map digit (map (\<lambda>d. char_of (48 + d)) ds)) = Some ds"
  by (induction ds) auto

lemma those_all: "those (map f xs) = Some ys \<Longrightarrow> \<forall>x \<in> set xs. f x \<noteq> None"
  by (induction xs arbitrary: ys) (auto split: option.splits)

lemma octet_decimal:
  assumes "n < 256"
  shows "octet (decimal n) = Some n" and "CHR ''.'' \<notin> set (decimal n)"
proof -
  define ds where "ds = (if n < 10 then [n] else if n < 100 then [n div 10, n mod 10]
    else [n div 100, n div 10 mod 10, n mod 10])"
  have digits: "those (map digit (decimal n)) = Some ds"
    unfolding decimal_byte [OF assms] ds_def using assms by (intro those_digits) auto
  have "10 * (n div 10 div 10) + n div 10 mod 10 = n div 10" by (rule mult_div_mod_eq)
  moreover have "n div 10 div 10 = n div 100" by (simp flip: div_mult2_eq)
  ultimately have three: "10 * (10 * (n div 100) + n div 10 mod 10) + n mod 10 = n" by simp
  have "number 10 ds = n"
    unfolding ds_def by (simp only: number.simps foldl.simps three mult_0_right add_0 mult_div_mod_eq split: if_split) simp
  moreover have "length ds \<le> 3" "ds \<noteq> []" "hd ds = 0 \<longrightarrow> \<not> 1 < length ds"
    by (auto simp: ds_def div_eq_0_iff)
  ultimately show "octet (decimal n) = Some n"
    using assms by (auto simp: octet_def digits simp del: number.simps)
  have "\<forall>c \<in> set (decimal n). digit c \<noteq> None"
    using digits those_all by metis
  moreover have "digit CHR ''.'' = None" by code_simp
  ultimately show "CHR ''.'' \<notin> set (decimal n)" by auto
qed

lemma digit_Some: "digit c = Some d \<Longrightarrow> c = char_of (48 + d) \<and> d < 10"
  by (auto simp: digit_def split: if_splits)

lemma digits_Some: "those (map digit s) = Some ds \<Longrightarrow> s = map (\<lambda>d. char_of (48 + d)) ds \<and> (\<forall>d \<in> set ds. d < 10)"
  by (induction s arbitrary: ds) (auto split: option.splits dest!: digit_Some)

lemma decimal_octet:
  assumes "octet s = Some n"
  shows "n < 256 \<and> s = decimal n"
proof -
  from assms obtain ds where ds: "those (map digit s) = Some ds"
    by (auto simp: octet_def split: option.splits)
  with assms have ok: "ds \<noteq> []" "length ds \<le> 3" "hd ds = 0 \<longrightarrow> \<not> 1 < length ds" "n = number 10 ds" "n < 256"
    by (auto simp: octet_def Suc_le_eq split: if_splits)
  from digits_Some [OF ds] have s: "s = map (\<lambda>d. char_of (48 + d)) ds" and lt: "\<forall>d \<in> set ds. d < 10" by auto
  consider a where "ds = [a]" | a b where "ds = [a, b]" | a b c where "ds = [a, b, c]"
    using ok(1,2) by (cases ds; cases "tl ds"; cases "tl (tl ds)") auto
  then have "(if n < 10 then [n] else if n < 100 then [n div 10, n mod 10]
    else [n div 100, n div 10 mod 10, n mod 10]) = ds"
  proof cases
    case 3
    moreover have "100 * a + 10 * b + c = c + 10 * (10 * a + b)" by simp
    ultimately show ?thesis using ok lt by (auto simp del: distrib_left_numeral)
  qed (use ok lt in auto)
  then show ?thesis using s decimal_byte ok(5) by simp
qed

lemma octet_iff: "octet s = Some n \<longleftrightarrow> n < 256 \<and> s = decimal n"
  using decimal_octet octet_decimal by auto

lemma those_Cons_Some: "those (x # xs) = Some (y # ys) \<longleftrightarrow> x = Some y \<and> those xs = Some ys"
  by (auto split: option.splits)

lemma those_octets: "those (map octet ps) = Some ns \<longleftrightarrow> (\<forall>n \<in> set ns. n < 256) \<and> ps = map decimal ns"
proof (induction ps arbitrary: ns)
  case (Cons p ps)
  show ?case
  proof (cases ns)
    case (Cons n ms)
    then show ?thesis by (simp only: list.map those_Cons_Some octet_iff Cons.IH) auto
  qed (auto split: option.splits)
qed auto

lemma unat_ntohl_get32:
  assumes "a < 256" "b < 256" "c < 256" "d < 256"
  shows "unat (ntohl (get32 [of_nat a, of_nat b, of_nat c, of_nat d] 0)) = ((a * 256 + b) * 256 + c) * 256 + d"
  using assms
  by (simp add: get32_def get16_def htonl_def htons_def unat_le32 unat_le16 unat_of_nat take_bit_eq_mod)

lemma octets_iff:
  assumes "ns \<noteq> []"
  shows "those (map octet (fields_of CHR ''.'' s)) = Some ns \<longleftrightarrow> (\<forall>n \<in> set ns. n < 256) \<and> s = dotted ns"
proof -
  have "fields_of CHR ''.'' s = map decimal ns \<longleftrightarrow> s = dotted ns" if "\<forall>n \<in> set ns. n < 256"
  proof
    show "fields_of CHR ''.'' s = map decimal ns \<Longrightarrow> s = dotted ns"
      unfolding dotted_def by (metis joined_fields_of)
    show "s = dotted ns \<Longrightarrow> fields_of CHR ''.'' s = map decimal ns"
      unfolding dotted_def using that assms octet_decimal(2) by (auto intro!: fields_of_joined)
  qed
  then show ?thesis by (auto simp: those_octets)
qed


section \<open>The tap\<close>

lemma run_cmd_run: "vformat fmt args = Some cmd \<Longrightarrow>
    run_cmd k fmt args w = Ok (k_system k cmd) (w\<lparr>commands := commands w @ [cmd]\<rparr>)"
  by (simp add: run_cmd_def run)

lemma set_interface_run [run]:
  "set_interface_up k d w = (let c = ''ip link set dev '' @ d @ '' up'' in
     Ok (k_system k c) (w\<lparr>commands := commands w @ [c]\<rparr>))"
  "set_interface_route k d r w = (let c = ''ip route add dev '' @ d @ '' '' @ r in
     Ok (k_system k c) (w\<lparr>commands := commands w @ [c]\<rparr>))"
  "set_interface_address k d a w = (let c = ''ip addr add dev '' @ d @ '' local '' @ a in
     Ok (k_system k c) (w\<lparr>commands := commands w @ [c]\<rparr>))"
  unfolding set_interface_up_def set_interface_route_def set_interface_address_def Let_def
  by (rule run_cmd_run; simp add: brace_def)+

text \<open>
  C24. Setting the tap up runs three commands, and only once: the interface the kernel named
  is brought up, routed and given its address, in this order, each with the name cut at its
  first zero byte; if the tap cannot be opened or a command fails the program exits, and
  when the tap is up already nothing is done. Closing it afterwards closes its descriptor.
\<close>

theorem tuntap_setup_run:
  "TUNTAP_Interface_init k w = (if tap_up w then Ok () w
    else case k_tunsetiff k [] of (err, name) \<Rightarrow>
      let dev = take 16 (c_str name);
          cmds = [''ip link set dev '' @ dev @ '' up'', ''ip route add dev '' @ dev @ '' 10.0.0.0/24'',
            ''ip addr add dev '' @ dev @ '' local 10.0.0.5'']
      in if k_open k < 0 \<or> err < 0 \<or> (\<exists>c \<in> set cmds. k_system k c \<noteq> 0) then Err Exit
         else Ok () (w\<lparr>tap_up := True, tap_dev := dev, tap_fd := k_open k, commands := commands w @ cmds\<rparr>))"
proof (cases "tap_up w \<or> k_open k < 0")
  case True
  then show ?thesis
    by (auto simp: TUNTAP_Interface_init_def tap_alloc_def run split: prod.splits)
next
  case False
  obtain err name where ioctl: "k_tunsetiff k [] = (err, name)" by fastforce
  have "c_str (replicate IFNAMSIZ CHR 0x00) = []" by (simp add: c_str_def IFNAMSIZ_def)
  with False ioctl show ?thesis
    by (simp add: TUNTAP_Interface_init_def tap_alloc_def run tap_route_def tap_addr_def IFNAMSIZ_def Let_def)
qed

section \<open>Network devices\<close>

definition hex_char :: "nat \<Rightarrow> char" where
  "hex_char d = char_of (if d < 10 then 48 + d else 87 + d)"

definition hex2 :: "nat \<Rightarrow> string" where
  "hex2 n = [hex_char (n div 16), hex_char (n mod 16)]"

lemma hex_char_read:
  assumes "d < 16"
  shows "hex_digit (hex_char d) = Some d" and "\<not> isspace (hex_char d)"
    and "hex_char d \<noteq> CHR ''-''" and "hex_char d \<noteq> CHR ''+''"
proof -
  have code: "(of_char (hex_char d) :: nat) = (if d < 10 then 48 + d else 87 + d)"
    using assms by (simp add: hex_char_def)
  then show "hex_digit (hex_char d) = Some d"
    using assms by (auto simp: hex_digit_def Let_def)
  have other: "hex_char d \<noteq> c" if "(of_char c :: nat) < 48" for c
    using code that by (auto split: if_splits)
  show "hex_char d \<noteq> CHR ''-''" "hex_char d \<noteq> CHR ''+''" by (rule other, simp)+
  have "hex_char d \<noteq> CHR '' ''" by (rule other) simp
  then show "\<not> isspace (hex_char d)" using code by (simp add: isspace_def)
qed

lemma stoi16_hex2: "n < 256 \<Longrightarrow> stoi16 (hex2 n) = Some (int n)"
  by (simp add: stoi16_def hex2_def hex_char_read less_mult_imp_div_less Let_def)

text \<open>
  A MAC address of any number of bytes is read byte by byte, as long as the array of six has
  room; a seventh byte is written behind its end.
\<close>

lemma parse_mac_loop_run:
  assumes "\<forall>n \<in> set ns. n < 256"
  shows "parse_mac_loop (joined CHR '':'' (map hex2 ns)) k ans w = (if k + length ns \<le> length ans \<or> ns = []
    then Ok (take k ans @ map of_nat ns @ drop (k + length ns) ans) w else Err OutOfBounds)"
  using assms
proof (induction ns arbitrary: k ans)
  case (Cons n ns)
  have split: "take 2 (joined CHR '':'' (map hex2 (n # ns))) = hex2 n"
    "drop 3 (joined CHR '':'' (map hex2 (n # ns))) = joined CHR '':'' (map hex2 ns)"
    "joined CHR '':'' (map hex2 (n # ns)) \<noteq> []"
    by (cases ns; simp add: hex2_def)+
  have "parse_mac_loop (joined CHR '':'' (map hex2 (n # ns))) k ans w = (if length ans \<le> k then Err OutOfBounds
      else parse_mac_loop (joined CHR '':'' (map hex2 ns)) (k + 1) (ans[k := of_nat n]) w)"
    using Cons.prems
    by (subst parse_mac_loop.simps) (simp add: split stoi16_hex2 run_basic del: joined.simps list.map)
  then show ?case
    using Cons.IH Cons.prems by (auto simp: upd_conv_take_nth_drop add.commute simp del: joined.simps)
qed (auto simp: parse_mac_loop.simps run_basic)

text \<open>
  The two devices get their addresses, but their Ethernet addresses do not come from the
  configuration: the pointer that \<open>parse_MAC_string\<close> returns is to its own dead array. Where
  the compiler makes it null (\<open>stale\<close> always \<open>None\<close>), whatever string is given, the device
  keeps what its memory held.
\<close>

lemma network_device_init_run:
  assumes pool: "pool w = p # q # ps" and stack: "length stack = 6"
  shows "network_device_init stale stack raw w = Ok () (w\<lparr>pool := ps, devices := (devices w)
      (p \<mapsto> raw\<lparr>nd_addr := 0x7F000001, nd_mtu := 1500, nd_hwaddr :=
         (case stale (replicate 6 0) of None \<Rightarrow> nd_hwaddr raw | Some bs \<Rightarrow> bs)\<rparr>,
       q \<mapsto> raw\<lparr>nd_addr := 0x0A00000A, nd_mtu := 1500, nd_hwaddr :=
         (case stale [0x00, 0x0c, 0x29, 0x6d, 0x50, 0x25] of None \<Rightarrow> nd_hwaddr raw | Some bs \<Rightarrow> bs)\<rparr>),
      loopback := p, netdev := q\<rparr>)"
proof -
  have ip: "parse_ipv4_string ''127.0.0.1'' u = Ok 0x7F000001 u"
    "parse_ipv4_string ''10.0.0.10'' u = Ok 0x0A00000A u" for u :: "'a net_world_scheme"
    by (simp_all add: octet_def digit_def parse_ipv4_string_def inet_pton_def run_basic
        get32_def get16_def htonl_def htons_def le16_def le32_def lo8_def hi8_def lo16_def hi16_def)
  have hex: "stoi16 ''00'' = Some 0" "stoi16 ''0c'' = Some 12" "stoi16 ''29'' = Some 41"
    "stoi16 ''6d'' = Some 109" "stoi16 ''50'' = Some 80" "stoi16 ''25'' = Some 37"
    by (simp_all add: stoi16_def hex_digit_def isspace_def Let_def)
  obtain a b c d e f where "stack = [a, b, c, d, e, f]"
    using stack by (auto simp: numeral_eq_Suc length_Suc_conv)
  then have mac: "parse_mac_loop ''00:00:00:00:00:00'' 0 stack u = Ok (replicate 6 0) u"
    "parse_mac_loop ''00:0c:29:6d:50:25'' 0 stack u = Ok [0x00, 0x0c, 0x29, 0x6d, 0x50, 0x25] u"
    for u :: "'a net_world_scheme"
    by (simp_all add: parse_mac_loop.simps hex run_basic numeral_eq_Suc)
  show ?thesis
    using pool by (simp add: network_device_init_def new_device_def Network_Device_init_def
        parse_MAC_string_def new_addr_def run ip mac)
qed

end
