(* ===== verification/Network_Tables.thy ===== *)
theory Network_Tables
  imports Net_Facts Startup_Facts
begin

text \<open>
  The two tables of the network layers: the routes that the configured devices lead to
  (\<open>src/route.cpp\<close>, \<open>src/network_device.cpp\<close>), and the ARP table (\<open>src/arp.cpp\<close>) as a
  refinement of a finite map.
\<close>

unbundle bit_operations_syntax

section \<open>The routes of the configured devices\<close>

lemma add_route_run:
  assumes tab: "route_table w xs T" and pool: "pool w = p # ps"
    and p: "p \<noteq> null" "p \<notin> set (rtEntry_queue w # xs)"
  shows "\<exists>w'. add_route r w = Ok () w' \<and> route_table w' (xs @ [p]) (T(p := r)) \<and> pool w' = ps
    \<and> rtEntry_queue w' = rtEntry_queue w \<and> devices w' = devices w"
proof -
  let ?q = "rtEntry_queue w"
  let ?u = "w\<lparr>pool := ps, nodes := (nodes w)(p \<mapsto> \<lparr>lprev = p, lnext = p\<rparr>), routes := (routes w)(p \<mapsto> r)\<rparr>"
  have rep: "qrep w ?q xs" and T: "\<And>x. x \<in> set xs \<Longrightarrow> routes w x = Some (T x)"
    using tab by (auto simp: route_table_def)
  have "qrep ?u ?q xs" by (rule qrep_cong [OF rep]) (use p in auto)
  moreover have "detached ?u p" using p by (simp add: detached_def)
  ultimately obtain v where v: "queue_add_tail ?q p ?u = Ok () v" "qrep v ?q (xs @ [p])"
    "touches ?q (insert p (set xs)) ?u v"
    using queue_add_tail_run p(2) by blast
  have eq: "v = ?u\<lparr>nodes := nodes v, queues := queues v\<rparr>" by (rule touches_eq [OF v(3)])
  have fields: "routes v = (routes w)(p \<mapsto> r)" "pool v = ps" "rtEntry_queue v = ?q" "devices v = devices w"
    by (subst eq, simp)+
  have "add_route r w = Ok () v"
    using pool v(1) by (simp add: add_route_def new_addr_def init_node_def run)
  then show ?thesis using v(2) fields T by (auto simp: route_table_def)
qed

lemma init_routes_run:
  assumes tab: "route_table w [] T" and pool: "pool w = [a, b, c] @ ps"
    and fresh: "distinct [rtEntry_queue w, a, b, c]" "null \<notin> {a, b, c}"
    and dev: "loopback w \<noteq> null" "devices w (loopback w) = Some lo" "netdev w \<noteq> null" "devices w (netdev w) = Some nd"
  shows "\<exists>w'. init_routes gw w = Ok () w' \<and> route_table w' [a, b, c] (T
    (a := Rt_Entry_init (nd_addr lo) 0 0xff000000 (ucast RT_LOOPBACK) 0 (loopback w),
     b := Rt_Entry_init (nd_addr nd) 0 0xffffff00 (ucast RT_HOST) 0 (netdev w),
     c := Rt_Entry_init 0 gw 0 (ucast RT_GATEWAY) 0 (netdev w)))"
proof -
  obtain u where u: "add_route (Rt_Entry_init (nd_addr lo) 0 0xff000000 (ucast RT_LOOPBACK) 0 (loopback w)) w = Ok () u"
    "route_table u [a] (T(a := Rt_Entry_init (nd_addr lo) 0 0xff000000 (ucast RT_LOOPBACK) 0 (loopback w)))"
    "pool u = [b, c] @ ps" "rtEntry_queue u = rtEntry_queue w" "devices u = devices w"
    using add_route_run [OF tab, of a "[b, c] @ ps"] pool fresh by auto
  obtain v where v: "add_route (Rt_Entry_init (nd_addr nd) 0 0xffffff00 (ucast RT_HOST) 0 (netdev w)) u = Ok () v"
    "route_table v [a, b] (T(a := Rt_Entry_init (nd_addr lo) 0 0xff000000 (ucast RT_LOOPBACK) 0 (loopback w),
      b := Rt_Entry_init (nd_addr nd) 0 0xffffff00 (ucast RT_HOST) 0 (netdev w)))"
    "pool v = c # ps" "rtEntry_queue v = rtEntry_queue w"
    using add_route_run [OF u(2), of b "c # ps"] u fresh by auto
  from add_route_run [OF v(2,3), of "Rt_Entry_init 0 gw 0 (ucast RT_GATEWAY) 0 (netdev w)"] v(4) fresh
  show ?thesis using u(1,5) v(1) dev by (auto simp: init_routes_def bnd_run run_basic load_run)
qed

lemma qrep_devices_upd [simp]:
  "qrep (devices_update f w) q xs = qrep w q xs"
  "qrep (loopback_update g w) q xs = qrep w q xs"
  "qrep (netdev_update h w) q xs = qrep w q xs"
  by (rule qrep_only; simp)+

text \<open>
  C17. Where packets go: with the devices and the routes set up as configured, the route of an
  address in 127.0.0.0/8 is that of the loopback device, of one in 10.0.0.0/24 that of the
  tap's own network, and of any other the one over the gateway 10.0.0.5.
\<close>

theorem configured_routing:
  assumes "route_table w [] T" and "pool w = [lo, nd, a, b, c] @ ps"
    and "distinct [rtEntry_queue w, lo, nd, a, b, c]" "null \<notin> {lo, nd, a, b, c}" and "length stack = 6"
  shows "\<exists>w' R. sq (network_device_init stale stack raw) (bnd (parse_ipv4_string tap_addr) init_routes) w = Ok () w'
    \<and> route_table w' [a, b, c] R \<and> rt_dev (R a) = lo \<and> rt_dev (R b) = nd \<and> rt_dev (R c) = nd
    \<and> rt_gateway (R a) = 0 \<and> rt_gateway (R b) = 0 \<and> rt_gateway (R c) = 0x0A000005
    \<and> (\<forall>da. route_lookup da w' = Ok (if da AND 0xff000000 = 0x7F000000 then a
         else if da AND 0xffffff00 = 0x0A000000 then b else c) w')"
proof -
  obtain u where u: "network_device_init stale stack raw w = Ok () u" "pool u = [a, b, c] @ ps"
    "loopback u = lo" "netdev u = nd" "map_option nd_addr (devices u lo) = Some 0x7F000001"
    "map_option nd_addr (devices u nd) = Some 0x0A00000A" "rtEntry_queue u = rtEntry_queue w" "route_table u [] T"
    using network_device_init_run [of w lo nd "[a, b, c] @ ps" stack stale raw] assms
    by (auto simp: route_table_def)
  have gw: "parse_ipv4_string tap_addr u = Ok 0x0A000005 u"
    by (simp add: octet_def digit_def parse_ipv4_string_def inet_pton_def run_basic tap_addr_def
        get32_def get16_def htonl_def htons_def le16_def le32_def lo8_def hi8_def lo16_def hi16_def)
  obtain d e where d: "devices u lo = Some d" "nd_addr d = 0x7F000001" "devices u nd = Some e" "nd_addr e = 0x0A00000A"
    using u(5,6) by auto
  let ?R = "T(a := Rt_Entry_init 0x7F000001 0 0xff000000 (ucast RT_LOOPBACK) 0 lo,
     b := Rt_Entry_init 0x0A00000A 0 0xffffff00 (ucast RT_HOST) 0 nd,
     c := Rt_Entry_init 0 0x0A000005 0 (ucast RT_GATEWAY) 0 nd)"
  obtain w' where w': "init_routes 0x0A000005 u = Ok () w'" "route_table w' [a, b, c] ?R"
    using init_routes_run [OF u(8,2), of d e "0x0A000005"] assms(3,4) u(3,4,7) d by auto
  have "route_lookup da w' = Ok (if da AND 0xff000000 = 0x7F000000 then a
      else if da AND 0xffffff00 = 0x0A000000 then b else c) w'" for da
    using route_lookup_scan [OF w'(2), of da] assms(3) by (auto simp: routes_to_def Rt_Entry_init_def)
  then show ?thesis
    using u(1) gw w' assms(3)
    by (intro exI [of _ w'] exI [of _ ?R]) (auto simp: bnd_run Rt_Entry_init_def)
qed

theorem configured_routing_witness:
  "\<exists>w' :: net_world. route_lookup 0x08080808 w' = Ok 88 w' \<and> route_lookup 0x0A00004D w' = Ok 80 w'"
proof -
  let ?w = "put_queue 104 [] (blank_net\<lparr>pool := [200, 208, 72, 80, 88]\<rparr>)"
  have "route_table ?w [] (\<lambda>_. undefined)"
    by (simp add: route_table_def put_queue_def blank_net_def tcp_world.defs net_world.defs blank_def
        qrep_def linked_def nx_def pv_def)
  then have "\<exists>w' R. sq (network_device_init (\<lambda>_. None) (replicate 6 0) \<lparr>nd_addr = 0, nd_hwaddr = [], nd_mtu = 0\<rparr>)
      (bnd (parse_ipv4_string tap_addr) init_routes) ?w = Ok () w' \<and> route_table w' [72, 80, 88] R
      \<and> rt_dev (R 72) = 200 \<and> rt_dev (R 80) = 208 \<and> rt_dev (R 88) = 208
      \<and> rt_gateway (R 72) = 0 \<and> rt_gateway (R 80) = 0 \<and> rt_gateway (R 88) = 0x0A000005
      \<and> (\<forall>da. route_lookup da w' = Ok (if da AND 0xff000000 = 0x7F000000 then 72
           else if da AND 0xffffff00 = 0x0A000000 then 80 else 88) w')"
    by (rule configured_routing [where ps = "[]"])
      (simp_all add: put_queue_def blank_net_def tcp_world.defs net_world.defs)
  then obtain w' :: net_world where "\<forall>da. route_lookup da w' = Ok (if da AND 0xff000000 = 0x7F000000 then 72
      else if da AND 0xffffff00 = 0x0A000000 then 80 else 88) w'" by (elim exE conjE)
  then show ?thesis by (intro exI [of _ w']) simp
qed

section \<open>The ARP table\<close>

text \<open>
  The table as a finite map, from the type of hardware and the protocol address to the
  hardware address: the first entry for a key counts.
\<close>

definition arp_rep :: "'w net_world_scheme \<Rightarrow> ptr list \<Rightarrow> (ptr \<Rightarrow> arp_entry) \<Rightarrow> bool" where
  "arp_rep w xs E \<longleftrightarrow> qrep w (arp_queue w) xs \<and> (\<forall>x \<in> set xs. arps w x = Some (E x))"

definition arp_key :: "arp_entry \<Rightarrow> u16 \<times> u32" where
  "arp_key e = (ae_hwtype e, ae_sip e)"

definition arp_map :: "(ptr \<Rightarrow> arp_entry) \<Rightarrow> ptr list \<Rightarrow> (u16 \<times> u32 \<rightharpoonup> u8 list)" where
  "arp_map E xs = map_of (map (\<lambda>x. (arp_key (E x), ae_smac (E x))) xs)"

lemma arp_map_None: "arp_map E xs key = None \<longleftrightarrow> (\<forall>x \<in> set xs. arp_key (E x) \<noteq> key)"
  by (auto simp: arp_map_def map_of_eq_None_iff image_iff)

lemma arp_map_cong: "(\<And>x. x \<in> set xs \<Longrightarrow> E x = F x) \<Longrightarrow> arp_map E xs = arp_map F xs"
  by (simp add: arp_map_def cong: map_cong)

lemma arp_map_Cons [simp]: "arp_map E (x # xs) = (arp_map E xs)(arp_key (E x) \<mapsto> ae_smac (E x))"
  by (simp add: arp_map_def)

lemma arp_map_append [simp]: "arp_map E (xs @ ys) = arp_map E ys ++ arp_map E xs"
  by (simp add: arp_map_def)

lemma arp_map_first:
  assumes "distinct (ys @ x # zs)" and "\<forall>y \<in> set ys. arp_key (E y) \<noteq> arp_key (E x)"
  shows "arp_map (E(x := (E x)\<lparr>ae_smac := hw\<rparr>)) (ys @ x # zs) = (arp_map E (ys @ x # zs))(arp_key (E x) \<mapsto> hw)"
proof -
  have "arp_map (E(x := e)) ys = arp_map E ys" "arp_map (E(x := e)) zs = arp_map E zs" for e
    using assms(1) by (auto intro!: arp_map_cong)
  moreover have "arp_map E ys (arp_key (E x)) = None" using assms(2) by (simp add: arp_map_None)
  ultimately show ?thesis by (auto simp: arp_key_def fun_eq_iff map_add_def split: option.splits)
qed

lemma update_arp_run:
  assumes rep: "arp_rep w xs E"
  shows "\<exists>w' E'. update_arp_translation_table ty ip hw w = Ok (if arp_map E xs (ty, ip) = None then 0 else 1) w'
    \<and> arp_rep w' xs E' \<and> arp_map E' xs = (if arp_map E xs (ty, ip) = None then arp_map E xs
        else (arp_map E xs)((ty, ip) \<mapsto> hw)) \<and> pool w' = pool w \<and> arp_queue w' = arp_queue w"
proof -
  have q: "qrep w (arp_queue w) xs" and E: "\<And>x. x \<in> set xs \<Longrightarrow> x \<noteq> null \<and> arps w x = Some (E x)"
    using rep by (auto simp: arp_rep_def qrep_def)
  have body: "update_arp_body ty ip hw x s w = (if arp_key (E x) = (ty, ip)
      then Ok (True, 1) (w\<lparr>arps := (arps w)(x \<mapsto> (E x)\<lparr>ae_smac := hw\<rparr>)\<rparr>) else Ok (False, s) w)" if "x \<in> set xs" for x s
    using E [OF that] by (auto simp: update_arp_body_def list_entry_def run arp_key_def)
  show ?thesis
  proof (cases "find (\<lambda>x. arp_key (E x) = (ty, ip)) xs")
    case None
    then have none: "\<forall>x \<in> set xs. arp_key (E x) \<noteq> (ty, ip)" by (auto simp: find_None_iff)
    have "list_for_each (arp_queue w) (update_arp_body ty ip hw) 0 w = Ok (scan (\<lambda>x s. (False, s)) xs 0) w"
      using none body by (intro list_for_each_pure [OF q]) auto
    moreover have "scan (\<lambda>x s. (False, s)) xs 0 = (0 :: int)" by (induction xs) auto
    ultimately show ?thesis
      using rep none by (intro exI [of _ w] exI [of _ E]) (auto simp: update_arp_translation_table_def run arp_map_None)
  next
    case (Some x)
    then obtain ys zs where xs: "xs = ys @ x # zs" and x: "arp_key (E x) = (ty, ip)"
      and ys: "\<forall>y \<in> set ys. arp_key (E y) \<noteq> (ty, ip)" by (rule find_split)
    let ?w = "w\<lparr>arps := (arps w)(x \<mapsto> (E x)\<lparr>ae_smac := hw\<rparr>)\<rparr>" and ?E = "E(x := (E x)\<lparr>ae_smac := hw\<rparr>)"
    have "list_for_each (arp_queue w) (update_arp_body ty ip hw) 0 w = Ok 1 ?w"
      by (rule list_for_each_first [of _ _ ys x zs]) (use q xs x ys body in auto)
    moreover have "arp_rep ?w xs ?E" using rep by (auto simp: arp_rep_def)
    moreover have "arp_map ?E xs = (arp_map E xs)((ty, ip) \<mapsto> hw)"
      using arp_map_first [of ys x zs E hw] ys x q xs by (simp add: qrep_def)
    moreover have "arp_map E xs (ty, ip) \<noteq> None" using x xs by (auto simp: arp_map_None)
    ultimately show ?thesis
      by (intro exI [of _ ?w] exI [of _ ?E]) (simp add: update_arp_translation_table_def run)
  qed
qed

lemma insert_arp_run:
  assumes rep: "arp_rep w xs E" and pool: "pool w = p # ps" and p: "p \<noteq> null" "p \<notin> set (arp_queue w # xs)"
  shows "\<exists>w' E'. insert_arp_translation_table ty ip hw w = Ok 0 w' \<and> arp_rep w' (xs @ [p]) E'
    \<and> arp_map E' (xs @ [p]) = [(ty, ip) \<mapsto> hw] ++ arp_map E xs"
proof -
  let ?q = "arp_queue w" and ?e = "\<lparr>ae_hwtype = ty, ae_sip = ip, ae_smac = hw, ae_state = ARP_RESOLVED\<rparr>"
  let ?u = "w\<lparr>pool := ps, nodes := (nodes w)(p \<mapsto> \<lparr>lprev = p, lnext = p\<rparr>), arps := (arps w)(p \<mapsto> ?e)\<rparr>"
  have q: "qrep w ?q xs" and E: "\<And>x. x \<in> set xs \<Longrightarrow> arps w x = Some (E x)"
    using rep by (auto simp: arp_rep_def)
  have "qrep ?u ?q xs" by (rule qrep_cong [OF q]) (use p in auto)
  moreover have "detached ?u p" using p by (simp add: detached_def)
  ultimately obtain v where v: "queue_add_tail ?q p ?u = Ok () v" "qrep v ?q (xs @ [p])"
    "touches ?q (insert p (set xs)) ?u v"
    using queue_add_tail_run p(2) by blast
  have eq: "v = ?u\<lparr>nodes := nodes v, queues := queues v\<rparr>" by (rule touches_eq [OF v(3)])
  have fields: "arps v = (arps w)(p \<mapsto> ?e)" "arp_queue v = ?q" by (subst eq, simp)+
  have "insert_arp_translation_table ty ip hw w = Ok 0 v"
    using pool v(1) by (simp add: insert_arp_translation_table_def new_addr_def init_node_def run)
  moreover have "arp_rep v (xs @ [p]) (E(p := ?e))" using v(2) fields E p by (auto simp: arp_rep_def)
  moreover have "arp_map (E(p := ?e)) xs = arp_map E xs" using p by (auto intro: arp_map_cong)
  then have "arp_map (E(p := ?e)) (xs @ [p]) = [(ty, ip) \<mapsto> hw] ++ arp_map E xs"
    by (simp add: arp_map_def [of _ "[]"] arp_key_def)
  ultimately show ?thesis by blast
qed

text \<open>
  C18. The ARP table refines a finite map from addresses to hardware addresses. Updating an
  entry changes the map at its key when the key is there and says so by its result;
  inserting adds a key and never changes one that is there; the two together, as \<open>arp_rcv\<close>
  calls them, are the update of the map.
\<close>

theorem arp_table_refines_map:
  assumes "arp_rep w xs E" and "pool w = p # ps" and "p \<noteq> null" and "p \<notin> set (arp_queue w # xs)"
  shows "(\<exists>w' E'. update_arp_translation_table ty ip hw w = Ok (if (ty, ip) \<in> dom (arp_map E xs) then 1 else 0) w'
      \<and> arp_rep w' xs E' \<and> arp_map E' xs = (arp_map E xs)((ty, ip) := map_option (\<lambda>_. hw) (arp_map E xs (ty, ip)))) \<and>
    (\<exists>w' E'. insert_arp_translation_table ty ip hw w = Ok 0 w'
      \<and> arp_rep w' (xs @ [p]) E' \<and> arp_map E' (xs @ [p]) = [(ty, ip) \<mapsto> hw] ++ arp_map E xs) \<and>
    (\<exists>r w' xs' E'. bnd (update_arp_translation_table ty ip hw)
        (\<lambda>merge. if merge = 0 then insert_arp_translation_table ty ip hw else ret merge) w = Ok r w'
      \<and> arp_rep w' xs' E' \<and> arp_map E' xs' = (arp_map E xs)((ty, ip) \<mapsto> hw))"
proof (intro conjI)
  obtain u E1 where u: "update_arp_translation_table ty ip hw w = Ok (if arp_map E xs (ty, ip) = None then 0 else 1) u"
    "arp_rep u xs E1" "arp_map E1 xs = (if arp_map E xs (ty, ip) = None then arp_map E xs
      else (arp_map E xs)((ty, ip) \<mapsto> hw))" "pool u = p # ps" "arp_queue u = arp_queue w"
    using update_arp_run [OF assms(1), of ty ip hw] assms(2) by auto
  show "\<exists>w' E'. update_arp_translation_table ty ip hw w = Ok (if (ty, ip) \<in> dom (arp_map E xs) then 1 else 0) w'
      \<and> arp_rep w' xs E' \<and> arp_map E' xs = (arp_map E xs)((ty, ip) := map_option (\<lambda>_. hw) (arp_map E xs (ty, ip)))"
    using u by (intro exI [of _ u] exI [of _ E1]) (auto simp: fun_eq_iff)
  show "\<exists>w' E'. insert_arp_translation_table ty ip hw w = Ok 0 w'
      \<and> arp_rep w' (xs @ [p]) E' \<and> arp_map E' (xs @ [p]) = [(ty, ip) \<mapsto> hw] ++ arp_map E xs"
    by (rule insert_arp_run [OF assms])
  show "\<exists>r w' xs' E'. bnd (update_arp_translation_table ty ip hw)
        (\<lambda>merge. if merge = 0 then insert_arp_translation_table ty ip hw else ret merge) w = Ok r w'
      \<and> arp_rep w' xs' E' \<and> arp_map E' xs' = (arp_map E xs)((ty, ip) \<mapsto> hw)"
  proof (cases "arp_map E xs (ty, ip)")
    case None
    from insert_arp_run [OF u(2,4) assms(3), of ty ip hw] assms(4) u(5) obtain v E2 where
      "insert_arp_translation_table ty ip hw u = Ok 0 v" "arp_rep v (xs @ [p]) E2"
      "arp_map E2 (xs @ [p]) = [(ty, ip) \<mapsto> hw] ++ arp_map E1 xs" by auto
    moreover have "[(ty, ip) \<mapsto> hw] ++ arp_map E xs = (arp_map E xs)((ty, ip) \<mapsto> hw)"
      using None by (auto simp: map_add_def fun_eq_iff split: option.splits)
    ultimately show ?thesis using u(1,3) None
      by (intro exI [of _ 0] exI [of _ v] exI [of _ "xs @ [p]"] exI [of _ E2]) (simp add: bnd_run del: arp_map_append)
  next
    case (Some old)
    with u show ?thesis by (auto simp: bnd_run run_basic)
  qed
qed

theorem arp_table_refines_map_witness:
  "\<exists>w' xs E. arp_rep (w' :: net_world) xs E \<and> arp_map E xs = [(1, 0x0A000001) \<mapsto> [6, 5, 4, 3, 2, 1]]"
proof -
  let ?E = "\<lambda>_. \<lparr>ae_hwtype = 1, ae_sip = 0x0A000001, ae_smac = [1, 2, 3, 4, 5, 6], ae_state = ARP_RESOLVED\<rparr>"
  let ?w = "put_queue 112 [64] (blank_net\<lparr>arps := [64 \<mapsto> ?E 64], pool := [72]\<rparr>)"
  have "arp_rep ?w [64] ?E"
    by (simp add: arp_rep_def put_queue_def blank_net_def tcp_world.defs net_world.defs blank_def
        qrep_def linked_def nx_def pv_def)
  from arp_table_refines_map [OF this, of 72 "[]" 1 "0x0A000001" "[6, 5, 4, 3, 2, 1]"]
  obtain w' :: net_world and xs E where "arp_rep w' xs E" "arp_map E xs = (arp_map ?E [64])((1, 0x0A000001) \<mapsto> [6, 5, 4, 3, 2, 1])"
    by (auto simp: put_queue_def blank_net_def tcp_world.defs net_world.defs)
  then show ?thesis by (auto simp: arp_key_def arp_map_def [of _ "[]"])
qed

end
