(* ===== verification/Printing.thy ===== *)
theory Printing
  imports Startup_Facts
begin

text \<open>
  The debugging output: \<open>std::format\<close> as far as the code uses it, and the printers of the
  headers as functions to the text they write. \<open>loc\<close> is the \<open>source_location\<close> of the call,
  a file name and a line. The printers take no part in what the stack does; what is proved
  is that the addresses they print can be read back.
\<close>

unbundle bit_operations_syntax

section \<open>\<open>std::format\<close>\<close>

text \<open>
  The specifications in use are none, \<open>:02x\<close> and \<open>:04x\<close>, the latter for unsigned numbers
  only. The compiler checks a format against its arguments, so \<open>None\<close>, what does not match,
  stands for a program that is refused.
\<close>

datatype fmt_arg = Str string | Num int

definition num :: "'a::len word \<Rightarrow> fmt_arg" where
  "num x = Num (uint x)"

definition show_int :: "int \<Rightarrow> string" where
  "show_int n = (if n < 0 then CHR ''-'' # decimal (nat (- n)) else decimal (nat n))"

fun hexadecimal :: "nat \<Rightarrow> string" where
  "hexadecimal n = (if n < 16 then [hex_char n] else hexadecimal (n div 16) @ [hex_char (n mod 16)])"

declare hexadecimal.simps [simp del]

definition zeros_to :: "nat \<Rightarrow> string \<Rightarrow> string" where
  "zeros_to n s = replicate (n - length s) CHR ''0'' @ s"

definition format_arg :: "string \<Rightarrow> fmt_arg \<Rightarrow> string option" where
  "format_arg spec arg = (case arg of
       Str s \<Rightarrow> if spec = [] then Some s else None
     | Num n \<Rightarrow> if spec = [] then Some (show_int n)
         else if spec = '':02x'' \<and> 0 \<le> n then Some (zeros_to 2 (hexadecimal (nat n)))
         else if spec = '':04x'' \<and> 0 \<le> n then Some (zeros_to 4 (hexadecimal (nat n)))
         else None)"

lemma dropWhile_shorter: "dropWhile P xs = y # ys \<Longrightarrow> length ys < length xs"
  by (metis Suc_le_eq length_Cons length_dropWhile_le)

function std_format :: "string \<Rightarrow> fmt_arg list \<Rightarrow> string option" where
  "std_format [] args = Some []"
| "std_format (c # fmt) args = (if \<not> brace c then map_option ((#) c) (std_format fmt args)
     else if fmt \<noteq> [] \<and> hd fmt = c then map_option ((#) c) (std_format (tl fmt) args)
     else if c = CHR 0x7D then None
     else case (dropWhile (\<lambda>d. d \<noteq> CHR 0x7D) fmt, args) of
         (_ # rest, a # args') \<Rightarrow> (case format_arg (takeWhile (\<lambda>d. d \<noteq> CHR 0x7D) fmt) a of
             None \<Rightarrow> None | Some s \<Rightarrow> map_option ((@) s) (std_format rest args'))
       | _ \<Rightarrow> None)"
  by pat_completeness auto
termination
  by (relation "measure (length \<circ> fst)") (auto dest: dropWhile_shorter [OF sym] intro: less_SucI)

declare std_format.simps(2) [simp del]

text \<open>The text of a literal goes through, a field takes the next argument.\<close>

lemma std_format_plain [simp]:
  "\<not> brace c \<Longrightarrow> std_format (c # fmt) args = map_option ((#) c) (std_format fmt args)"
  by (simp add: std_format.simps(2))

lemma std_format_field [simp]:
  "std_format (CHR 0x7B # CHR 0x7D # fmt) (a # args) =
     (case format_arg [] a of None \<Rightarrow> None | Some s \<Rightarrow> map_option ((@) s) (std_format fmt args))"
  by (simp add: std_format.simps(2) brace_def)

lemma std_format_spec [simp]:
  "\<not> brace x \<Longrightarrow> \<not> brace y \<Longrightarrow> std_format (CHR 0x7B # CHR '':'' # x # y # CHR ''x'' # CHR 0x7D # fmt) (a # args) =
     (case format_arg [CHR '':'', x, y, CHR ''x''] a of
       None \<Rightarrow> None | Some s \<Rightarrow> map_option ((@) s) (std_format fmt args))"
  by (auto simp: std_format.simps(2) brace_def)

section \<open>The printers\<close>

type_synonym location = "string \<times> int"

definition nl :: string where "nl = [CHR 0x0A]"

definition place :: "location \<Rightarrow> fmt_arg list" where
  "place loc = [Str (fst loc), Num (snd loc)]"

text \<open>Several pieces written one after the other.\<close>

definition written :: "string option list \<Rightarrow> string option" where
  "written ps = map_option concat (those ps)"

definition print_debug :: "string \<Rightarrow> location \<Rightarrow> string option" where
  "print_debug msg loc = written [Some msg, Some '' '', std_format ('' - {}:{}'' @ nl) (place loc), Some nl]"

definition netdev_debug :: "string \<Rightarrow> fmt_arg list \<Rightarrow> location \<Rightarrow> string option" where
  "netdev_debug fmt args loc = written [std_format fmt args, std_format ('' - {}:{}'' @ nl) (place loc), Some nl]"

text \<open>The four numbers of an address, by shifts and masks.\<close>

definition quad :: "u32 \<Rightarrow> fmt_arg list" where
  "quad a = [num (drop_bit 24 a AND 0xFF), num (drop_bit 16 a AND 0xFF), num (drop_bit 8 a AND 0xFF), num (a AND 0xFF)]"

definition eth_debug :: "string \<Rightarrow> u8 list \<Rightarrow> u8 list \<Rightarrow> location \<Rightarrow> string option" where
  "eth_debug str dmac smac loc =
     (case (std_format ''{:02x}:{:02x}:{:02x}:{:02x}:{:02x}:{:02x}'' (map num dmac),
            std_format ''{:02x}:{:02x}:{:02x}:{:02x}:{:02x}:{:02x}'' (map num smac)) of
       (Some d, Some s) \<Rightarrow> written [std_format (''Debugging Eth_Hdr!'' @ nl @ ''Dest-MAC: {}'' @ nl
           @ ''Sourc-MAC: {}'' @ nl) [Str d, Str s], Some str, std_format ('' - {}:{}'' @ nl) (place loc), Some nl]
     | _ \<Rightarrow> None)"

record arp_head =
  ah_hwtype :: u16
  ah_protype :: u16
  ah_hwsize :: ptr
  ah_prosize :: u8
  ah_opcode :: u16

record arp_data =
  ad_smac :: "u8 list"
  ad_sip :: u32
  ad_dmac :: "u8 list"
  ad_dip :: u32

definition arp_debug :: "string \<Rightarrow> arp_head \<Rightarrow> location \<Rightarrow> string option" where
  "arp_debug str hdr loc = std_format (''ARP {} (hwtype: {}, protype: {:04x}, hwsize: {}, prosize: {}, opcode: {:04x}) - {}:{}'' @ nl)
     ([Str str, num (ah_hwtype hdr), num (ah_protype hdr), num (ah_hwsize hdr), num (ah_prosize hdr),
       num (ah_opcode hdr)] @ place loc)"

definition arpdata_debug :: "string \<Rightarrow> arp_data \<Rightarrow> location \<Rightarrow> string option" where
  "arpdata_debug str d loc = std_format (''ARP data {} (smac: {:02x}:{:02x}:{:02x}:{:02x}:{:02x}:{:02x}, sip: {}.{}.{}.{}, ''
       @ ''dmac: {:02x}:{:02x}:{:02x}:{:02x}:{:02x}:{:02x}, dip: {}.{}.{}.{}) - {}:{}'' @ nl)
     ([Str str] @ map num (take 6 (ad_smac d)) @ quad (ad_sip d) @ map num (take 6 (ad_dmac d)) @ quad (ad_dip d)
       @ place loc)"

definition arpcache_debug :: "string \<Rightarrow> arp_entry \<Rightarrow> location \<Rightarrow> string option" where
  "arpcache_debug str e loc = std_format (''ARP cache {} (hwtype: {}, sip: {}.{}.{}.{}, ''
       @ ''smac: {:02x}:{:02x}:{:02x}:{:02x}:{:02x}:{:02x}, state: {}) - {}:{}'' @ nl)
     ([Str str, num (ae_hwtype e)] @ quad (ae_sip e) @ map num (take 6 (ae_smac e)) @ [num (ae_state e)] @ place loc)"

definition ip_debug :: "string \<Rightarrow> ip_hdr \<Rightarrow> location \<Rightarrow> string option" where
  "ip_debug str h loc = std_format (''IP {} (ihl: {} version: {} tos: {} len {} id: {} frag_offset: {} ttl: {} ''
       @ ''proto: {} csum: {:04x} saddr: {}.{}.{}.{} daddr: {}.{}.{}.{}) - {}:{}'' @ nl)
     ([Str str, Num (int (ih_ihl h)), Num (int (ih_version h)), num (ih_tos h), num (ih_len h), num (ih_id h),
       num (ih_frag h), num (ih_ttl h), num (ih_proto h), num (ih_csum h)] @ quad (ih_saddr h) @ quad (ih_daddr h)
       @ place loc)"

text \<open>
  The line of a segment that \<open>tcp_transmit_skb\<close> leaves in \<open>tcp_out\<close>, and the one of a segment
  that arrives: its ends the other way round and its numbers from the other's first ones.
\<close>

definition flag_bit :: "u8 \<Rightarrow> nat \<Rightarrow> fmt_arg" where
  "flag_bit f n = Num (of_bool (bit f n))"

definition trace_text :: "trace \<Rightarrow> string option" where
  "trace_text tr = std_format
     (''TCP {}.{}.{}.{}.{} > {}.{}.{}.{}.{}: Flags [S{}A{}P{}F{}R{}], seq {}:{}, ack {}, win {} rto {} boff {}'')
     (quad (fst (tr_src tr)) @ [num (snd (tr_src tr))] @ quad (fst (tr_dst tr)) @ [num (snd (tr_dst tr))]
       @ map (flag_bit (tr_flags tr)) [1, 4, 3, 0, 2]
       @ [num (tr_seq tr), num (tr_end tr), num (tr_ack tr), num (tr_win tr), num (tr_rto tr), num (tr_backoff tr)])"

definition in_trace :: "sock \<Rightarrow> tcp_sock \<Rightarrow> tcp_hdr \<Rightarrow> u32 \<Rightarrow> trace" where
  "in_trace k t h n = \<lparr>tr_src = (daddr k, dport k), tr_dst = (saddr k, sport k),
     tr_flags = th_flags h, tr_seq = th_seq h - irs (tcb t), tr_end = th_seq h + n - irs (tcb t),
     tr_ack = th_ack_seq h - iss (tcb t), tr_win = th_win h, tr_rto = rto t, tr_backoff = backoff t\<rparr>"

definition tcp_in_dbg :: "tcp_hdr \<Rightarrow> sock \<Rightarrow> tcp_sock \<Rightarrow> u32 \<Rightarrow> location \<Rightarrow> string option" where
  "tcp_in_dbg h k t n loc = (case trace_text (in_trace k t h n) of None \<Rightarrow> None | Some s \<Rightarrow> print_debug s loc)"

definition tcp_dbg_states :: "string list" where
  "tcp_dbg_states = [''TCP_LISTEN'', ''TCP_SYN_SENT'', ''TCP_SYN_RECEIVED'', ''TCP_ESTABLISHED'',
     ''TCP_FIN_WAIT_1'', ''TCP_FIN_WAIT_2'', ''TCP_CLOSE'', ''TCP_CLOSE_WAIT'',
     ''TCP_CLOSING'', ''TCP_LAST_ACK'', ''TCP_TIME_WAIT'']"

text \<open>The lengths of the two queues are given: \<open>r\<close> of those to be read, \<open>s\<close> of those to be sent.\<close>

definition tcpsock_dbg :: "string \<Rightarrow> sock \<Rightarrow> tcp_sock \<Rightarrow> int \<Rightarrow> int \<Rightarrow> location \<Rightarrow> string option" where
  "tcpsock_dbg msg k t r s loc = (case std_format
     (''TCP x:{} > {}.{}.{}.{}.{} (snd_una {}, snd_nxt {}, snd_wnd {}, snd_wl1 {}, snd_wl2 {}, ''
       @ ''rcv_nxt {}, rcv_wnd {} recv-q {} send-q {} rto {} boff {}) state {}: {}'')
     ([num (sport k)] @ quad (daddr k) @ [num (dport k), num (snd_una (tcb t) - iss (tcb t)),
       num (snd_nxt (tcb t) - iss (tcb t)), num (snd_wnd (tcb t)), num (snd_wl1 (tcb t)), num (snd_wl2 (tcb t)),
       num (rcv_nxt (tcb t) - irs (tcb t)), num (rcv_wnd (tcb t)), Num r, Num s, num (rto t), num (backoff t),
       Str (tcp_dbg_states ! tcp_state_code (sk_state k)), Str msg])
     of None \<Rightarrow> None | Some text \<Rightarrow> print_debug text loc)"

definition socket_state_code :: "socket_state \<Rightarrow> int" where
  "socket_state_code s = (case s of SS_FREE \<Rightarrow> 0 | SS_UNCONNECTED \<Rightarrow> 1 | SS_CONNECTING \<Rightarrow> 2
     | SS_CONNECTED \<Rightarrow> 3 | SS_DISCONNECTING \<Rightarrow> 4)"

definition socket_dbg :: "socket \<Rightarrow> sock \<Rightarrow> int \<Rightarrow> int \<Rightarrow> string \<Rightarrow> location \<Rightarrow> string option" where
  "socket_dbg so k r s msg loc = std_format
     (''Socket fd {} pid {} state {} sk_state {} flags {} poll {} sport {} dport {} recv-q {} send-q {}: {} - {}:{}'' @ nl)
     ([Num (so_fd so), Num (so_pid so), Num (socket_state_code (so_state so)), Num (int (tcp_state_code (sk_state k))),
       Num (so_flags so), Num (sint (poll_events k)), num (sport k), num (dport k), Num r, Num s, Str msg]
      @ place loc)"

definition ipc_dbg :: "string \<Rightarrow> int \<Rightarrow> int \<Rightarrow> string \<Rightarrow> location \<Rightarrow> string option" where
  "ipc_dbg msg count sock tid loc = (case std_format ''IPC sockets count-{}, current sock-{}, tid {}: {}''
     [Num count, Num sock, Str tid, Str msg] of None \<Rightarrow> None | Some text \<Rightarrow> print_debug text loc)"

section \<open>Reading back\<close>

lemma format_arg_simps [simp]:
  "format_arg [] (Str s) = Some s"
  "format_arg [] (Num n) = Some (show_int n)"
  "format_arg [] (num x) = Some (decimal (unat x))"
  by (simp_all add: format_arg_def show_int_def num_def)

lemma format_arg_hex2 [simp]:
  "format_arg '':02x'' (num (x :: u8)) = Some (hex2 (unat x))"
proof -
  have "CHR ''0'' = char_of (48 :: nat)" by code_simp
  moreover have "unat x < 256" using unsigned_less [of x, where ?'a = nat] by simp
  ultimately have "zeros_to 2 (hexadecimal (unat x)) = hex2 (unat x)"
    by (auto simp: zeros_to_def hex2_def hexadecimal.simps [of "unat x"] hexadecimal.simps [of "unat x div 16"]
        hex_char_def)
  then show ?thesis by (simp add: format_arg_def num_def)
qed

lemma format_arg_hex4 [simp]:
  "format_arg '':04x'' (num x) = Some (zeros_to 4 (hexadecimal (unat x)))"
  by (simp add: format_arg_def num_def)

text \<open>The state printed is the state.\<close>

lemma tcp_dbg_states_names:
  "map (\<lambda>s. tcp_dbg_states ! tcp_state_code s) [TCP_LISTEN, TCP_SYN_SENT, TCP_SYN_RECEIVED, TCP_ESTABLISHED,
     TCP_FIN_WAIT_1, TCP_FIN_WAIT_2, TCP_CLOSE, TCP_CLOSE_WAIT, TCP_CLOSING, TCP_LAST_ACK, TCP_TIME_WAIT]
   = tcp_dbg_states"
  by (simp add: tcp_dbg_states_def)

lemma tcp_dbg_states_inj: "tcp_dbg_states ! tcp_state_code s = tcp_dbg_states ! tcp_state_code t \<Longrightarrow> s = t"
  by (cases s; cases t) (simp_all add: tcp_dbg_states_def)

section \<open>Addresses read back\<close>

definition quad_of :: "u32 \<Rightarrow> nat list" where
  "quad_of a = map (\<lambda>n. unat (drop_bit n a AND 0xFF)) [24, 16, 8, 0]"

lemma unat_byte_of:
  "unat (drop_bit n a AND 0xFF :: u32) = unat a div 2 ^ n mod 256"
proof -
  have "drop_bit n a AND 0xFF = take_bit 8 (drop_bit n a)" by (simp add: take_bit_eq_mask mask_eq_exp_minus_1)
  moreover have "unat (take_bit 8 (drop_bit n a)) = take_bit 8 (unat (drop_bit n a))" by (rule unsigned_take_bit_eq)
  moreover have "unat (drop_bit n a) = unat a div 2 ^ n"
    unfolding unat_drop_bit_eq by (rule drop_bit_eq_div)
  ultimately show ?thesis by (simp only: take_bit_eq_mod) simp
qed

lemma quad_of_value:
  "\<exists>a b c d. quad_of x = [a, b, c, d] \<and> {a, b, c, d} \<subseteq> {..<256} \<and> unat x = ((a * 256 + b) * 256 + c) * 256 + d"
proof -
  let ?y = "unat x" and ?y1 = "unat x div 256"
  let ?y2 = "?y1 div 256"
  let ?y3 = "?y2 div 256"
  have lt: "?y < 4294967296" using unsigned_less [of x, where ?'a = nat] by simp
  have "?y div 16777216 = ?y3" "?y div 65536 = ?y2" by (simp_all flip: div_mult2_eq)
  then have quad: "quad_of x = [?y3 mod 256, ?y2 mod 256, ?y1 mod 256, ?y mod 256]"
    unfolding quad_of_def by (simp only: list.map unat_byte_of) simp
  have "?y3 < 256" using lt by simp
  then have "?y3 mod 256 = ?y3" by simp
  then have "?y = ((?y3 mod 256 * 256 + ?y2 mod 256) * 256 + ?y1 mod 256) * 256 + ?y mod 256"
    by (simp only: div_mult_mod_eq)
  with quad show ?thesis by auto
qed

lemma parse_ipv4_quad: "parse_ipv4_string (dotted (quad_of x)) w = Ok x w"
proof -
  obtain a b c d where q: "quad_of x = [a, b, c, d]" "{a, b, c, d} \<subseteq> {..<256}"
    "unat x = ((a * 256 + b) * 256 + c) * 256 + d"
    using quad_of_value by blast
  then have "those (map octet (fields_of CHR ''.'' (dotted (quad_of x)))) = Some [a, b, c, d]"
    by (subst octets_iff) auto
  moreover have "ntohl (get32 [of_nat a, of_nat b, of_nat c, of_nat d] 0) = x"
    using q by (simp add: word_unat_eq_iff [of _ x] unat_ntohl_get32)
  ultimately show ?thesis by (simp add: parse_ipv4_string_def inet_pton_def run_basic)
qed

definition colons :: "u8 list \<Rightarrow> string" where
  "colons hw = joined CHR '':'' (map (hex2 \<circ> unat) hw)"

lemma parse_mac_colons:
  assumes "length hw = length raw"
  shows "parse_mac_loop (colons hw) 0 raw w = Ok hw w"
proof -
  have "\<forall>n \<in> set (map unat hw). n < 256"
    using unsigned_less [where ?'a = nat and ?'b = 8] by auto
  from parse_mac_loop_run [OF this, of 0 raw w] assms show ?thesis
    by (cases "hw = []") (simp_all add: colons_def o_def)
qed

lemma not_brace [simp]: "of_char c \<notin> {123, 125 :: nat} \<Longrightarrow> \<not> brace c"
  by (auto simp: brace_def)

lemma quad_num: "quad a = map (\<lambda>n. Num (int n)) (quad_of a)"
  by (simp add: quad_def quad_of_def num_def)

lemma show_int_nat [simp]:
  "show_int (int n) = decimal n"
  "show_int (uint x) = decimal (unat x)"
  by (simp_all add: show_int_def)

lemma written_simps [simp]:
  "written [] = Some []"
  "written (Some s # ps) = map_option ((@) s) (written ps)"
  by (simp_all add: written_def option.map_comp o_def)

definition mac_fmt :: string where
  "mac_fmt = ''{:02x}:{:02x}:{:02x}:{:02x}:{:02x}:{:02x}''"

lemma length6: "length hw = 6 \<Longrightarrow> \<exists>a b c d e f. hw = [a, b, c, d, e, f]"
  by (auto simp: numeral_eq_Suc length_Suc_conv)

lemma std_format_mac:
  assumes "length hw = 6"
  shows "std_format (mac_fmt @ fmt) (map num hw @ args) = map_option ((@) (colons hw)) (std_format fmt args)"
proof -
  obtain a b c d e f where "hw = [a, b, c, d, e, f]" using length6 [OF assms] by blast
  then show ?thesis
    by (cases "std_format fmt args") (simp_all add: mac_fmt_def colons_def brace_def)
qed

lemma std_format_quad:
  "std_format (''{}.{}.{}.{}'' @ fmt) (quad a @ args) = map_option ((@) (dotted (quad_of a))) (std_format fmt args)"
  by (cases "std_format fmt args") (simp_all add: quad_num quad_of_def dotted_def brace_def)

text \<open>A piece of a format without fields, and the place of the call at its end.\<close>

lemma std_format_text: "\<forall>c \<in> set s. \<not> brace c \<Longrightarrow> std_format (s @ fmt) args = map_option ((@) s) (std_format fmt args)"
  by (induction s; cases "std_format fmt args") auto

lemma std_format_place:
  "std_format ('' - {}:{}'' @ nl) (place loc) = Some ('' - '' @ fst loc @ '':'' @ show_int (snd loc) @ nl)"
  by (simp add: place_def nl_def brace_def)

text \<open>The other formats match their arguments.\<close>

lemma printers_defined:
  "\<exists>s. print_debug msg loc = Some s"
  "\<exists>s. arp_debug msg hdr loc = Some s"
  "\<exists>s. ip_debug msg h loc = Some s"
  "length (ae_smac e) = 6 \<Longrightarrow> \<exists>s. arpcache_debug msg e loc = Some s"
  "\<exists>s. socket_dbg so k m n msg loc = Some s"
proof -
  show "\<exists>s. print_debug msg loc = Some s"
    by (simp add: print_debug_def place_def brace_def nl_def)
  show "\<exists>s. arp_debug msg hdr loc = Some s"
    by (simp add: arp_debug_def place_def brace_def nl_def)
  show "\<exists>s. ip_debug msg h loc = Some s"
    by (simp add: ip_debug_def quad_def place_def brace_def nl_def)
  show "\<exists>s. arpcache_debug msg e loc = Some s" if "length (ae_smac e) = 6"
    using length6 [OF that] by (auto simp: arpcache_debug_def quad_def place_def brace_def nl_def)
  show "\<exists>s. socket_dbg so k m n msg loc = Some s"
    by (simp add: socket_dbg_def place_def brace_def nl_def)
qed

lemma tcp_printers_defined:
  "\<exists>s. trace_text tr = Some s"
  "\<exists>s. tcp_in_dbg h k t n loc = Some s"
  "\<exists>s. tcpsock_dbg msg k t l m loc = Some s"
  "\<exists>s. ipc_dbg msg c sock tid loc = Some s"
proof -
  show line: "\<exists>s. trace_text tr = Some s" for tr
    by (simp add: trace_text_def quad_def flag_bit_def brace_def)
  show "\<exists>s. tcp_in_dbg h k t n loc = Some s"
    using line [of "in_trace k t h n"] printers_defined(1) [of _ loc] by (auto simp: tcp_in_dbg_def)
  show "\<exists>s. tcpsock_dbg msg k t l m loc = Some s"
    using printers_defined(1) by (simp add: tcpsock_dbg_def quad_def brace_def)
  show "\<exists>s. ipc_dbg msg c sock tid loc = Some s"
    using printers_defined(1) by (simp add: ipc_dbg_def brace_def)
qed

lemma eth_debug_run:
  assumes "length dmac = 6" and "length smac = 6"
  shows "eth_debug str dmac smac loc = Some (''Debugging Eth_Hdr!'' @ nl @ ''Dest-MAC: '' @ colons dmac @ nl
    @ ''Sourc-MAC: '' @ colons smac @ nl @ str @ '' - '' @ fst loc @ '':'' @ show_int (snd loc) @ nl @ nl)"
  using std_format_mac [OF assms(1), of "[]" "[]"] std_format_mac [OF assms(2), of "[]" "[]"]
  by (simp add: eth_debug_def nl_def place_def brace_def
      flip: mac_fmt_def)

lemma arpdata_debug_run:
  assumes "length (ad_smac d) = 6" and "length (ad_dmac d) = 6"
  shows "arpdata_debug str d loc = Some (''ARP data '' @ str @ '' (smac: '' @ colons (ad_smac d) @ '', sip: ''
    @ dotted (quad_of (ad_sip d)) @ '', dmac: '' @ colons (ad_dmac d) @ '', dip: '' @ dotted (quad_of (ad_dip d))
    @ '') - '' @ fst loc @ '':'' @ show_int (snd loc) @ nl)"
proof -
  have fmt: "''ARP data {} (smac: {:02x}:{:02x}:{:02x}:{:02x}:{:02x}:{:02x}, sip: {}.{}.{}.{}, ''
       @ ''dmac: {:02x}:{:02x}:{:02x}:{:02x}:{:02x}:{:02x}, dip: {}.{}.{}.{}) - {}:{}'' @ nl
    = ''ARP data {} (smac: '' @ mac_fmt @ '', sip: '' @ ''{}.{}.{}.{}'' @ '', dmac: '' @ mac_fmt
       @ '', dip: '' @ ''{}.{}.{}.{}'' @ '')'' @ '' - {}:{}'' @ nl"
    by (simp add: mac_fmt_def)
  have pieces: "std_format ('', dip: '' @ f) xs = map_option ((@) '', dip: '') (std_format f xs)"
    "std_format ('', dmac: '' @ f) xs = map_option ((@) '', dmac: '') (std_format f xs)"
    "std_format ('', sip: '' @ f) xs = map_option ((@) '', sip: '') (std_format f xs)"
    "std_format ('')'' @ f) xs = map_option ((@) '')'') (std_format f xs)" for f xs
    by (rule std_format_text, simp add: brace_def)+
  have head: "std_format (''ARP data {} (smac: '' @ f) ([Str str] @ xs)
      = map_option ((@) (''ARP data '' @ str @ '' (smac: '')) (std_format f xs)" for f xs
    by (cases "std_format f xs") (simp_all add: brace_def)
  show ?thesis
    unfolding arpdata_debug_def fmt using assms
    by (simp only: head take_all order_refl std_format_mac std_format_quad pieces std_format_place option.map) simp
qed



end
