(* ===== verification/Clients.thy ===== *)
theory Clients
  imports Socks
begin

text \<open>
  The two example clients, \<open>app/sync_conn.cpp\<close> and \<open>app/async_conn.cpp\<close>: fetch a page over
  a socket of the operating system, with blocking reads or by polling. What the system answers
  is the record \<open>os\<close>; after the answers listed for reading or polling the call waits for ever.
  The exit code is the result of \<open>main\<close>.
\<close>

unbundle bit_operations_syntax

type_synonym sockaddr_raw = "u8 list"

record client =
  stdout :: string
  requests :: "string list"
  closed :: "int list"

record os =
  o_getaddrinfo :: "string \<Rightarrow> string \<Rightarrow> int \<times> sockaddr_raw list"
  o_socket :: int
  o_connect :: "sockaddr_raw \<Rightarrow> int \<times> int"
  o_write :: "string \<Rightarrow> int"
  o_nonblock :: int
  o_poll :: "int \<times> u16"

lemma upd_client_run [run]:
  "upd (stdout_update f) w = Ok () (w\<lparr>stdout := f (stdout w)\<rparr>)"
  "upd (requests_update g) w = Ok () (w\<lparr>requests := g (requests w)\<rparr>)"
  "upd (closed_update h) w = Ok () (w\<lparr>closed := h (closed w)\<rparr>)"
  by (simp_all add: upd_apply)

definition MAX_HOSTNAME :: nat where "MAX_HOSTNAME = 50"
definition RLEN :: nat where "RLEN = 4096"
definition EXIT_SUCCESS :: int where "EXIT_SUCCESS = 0"
definition EXIT_FAILURE :: int where "EXIT_FAILURE = 1"
definition EINPROGRESS_errno :: int where "EINPROGRESS_errno = 115"

section \<open>What both share\<close>

definition resolve :: "os \<Rightarrow> string \<Rightarrow> string \<Rightarrow> (client, int \<times> sockaddr_raw) M" where
  "resolve k host port = (case o_getaddrinfo k host port of (s, res) \<Rightarrow>
     if s \<noteq> 0 then fail Exit
     else case res of a # _ \<Rightarrow> ret (0, a) | [] \<Rightarrow> ret (1, []))"

definition client_close :: "int \<Rightarrow> int \<Rightarrow> (client, int) M" where
  "client_close fd status = sq (upd (closed_update (\<lambda>l. l @ [fd]))) (ret status)"

text \<open>
  The checks of the arguments, the look-up and the new socket; \<open>go\<close> is the rest of \<open>main\<close>.
\<close>

definition with_connection ::
    "os \<Rightarrow> string list \<Rightarrow> (string \<Rightarrow> string \<Rightarrow> sockaddr_raw \<Rightarrow> int \<Rightarrow> (client, int) M) \<Rightarrow> (client, int) M" where
  "with_connection k argv go = (case argv of
       [app, host, port] \<Rightarrow>
         if MAX_HOSTNAME \<le> length host then ret EXIT_FAILURE
         else if 6 \<le> length port then ret EXIT_FAILURE
         else bnd (resolve k host port) (\<lambda>(r, addr). if r \<noteq> 0 then ret EXIT_FAILURE
           else if o_socket k = -1 then ret EXIT_FAILURE
           else go host port addr (o_socket k))
     | _ \<Rightarrow> ret EXIT_FAILURE)"

definition crlf :: string where "crlf = [CHR 0x0D, CHR 0x0A]"

definition request :: "string \<Rightarrow> string \<Rightarrow> string" where
  "request host port = ''GET / HTTP/1.1'' @ crlf @ ''Host: '' @ host @ '':'' @ port @ crlf
     @ ''Connection: close'' @ crlf @ crlf"

definition send_request :: "os \<Rightarrow> int \<Rightarrow> string \<Rightarrow> (client, int) M \<Rightarrow> (client, int) M" where
  "send_request k fd req go = sq (upd (requests_update (\<lambda>l. l @ [req])))
     (if o_write k req \<noteq> int (length req) then client_close fd EXIT_FAILURE else go)"

section \<open>The blocking client\<close>

text \<open>The answers of \<open>read\<close>: \<open>None\<close> for an error, the empty string at the end.\<close>

fun read_loop :: "string option list \<Rightarrow> (client, int) M" where
  "read_loop [] = (\<lambda>w. None)"
| "read_loop (None # rds) = ret EXIT_FAILURE"
| "read_loop (Some bs # rds) = (if bs = [] then ret EXIT_SUCCESS
     else sq (upd (stdout_update (\<lambda>out. out @ take RLEN bs))) (read_loop rds))"

definition sync_main :: "os \<Rightarrow> string option list \<Rightarrow> string list \<Rightarrow> (client, int) M" where
  "sync_main k rds argv = with_connection k argv (\<lambda>host port addr sock.
     if fst (o_connect k addr) = -1 then client_close sock EXIT_FAILURE
     else send_request k sock (request host port) (bnd (read_loop rds) (client_close sock)))"

section \<open>The polling client\<close>

text \<open>One round: what \<open>poll\<close> returns, the events it reports, what \<open>read\<close> gives if it is called.\<close>

type_synonym round = "int \<times> u16 \<times> string option"

fun poll_loop :: "round list \<Rightarrow> (client, int) M" where
  "poll_loop [] = (\<lambda>w. None)"
| "poll_loop ((r, revents, rd) # rounds) = (if r < 0 then ret EXIT_FAILURE
     else if revents AND POLLIN \<noteq> 0 \<and> rd = None then ret EXIT_FAILURE
     else if revents AND POLLIN \<noteq> 0 \<and> rd = Some [] then ret EXIT_SUCCESS
     else sq (onlyif (revents AND POLLIN \<noteq> 0) (upd (stdout_update (\<lambda>out. out @ take RLEN (the rd)))))
       (if revents AND (POLLHUP OR POLLERR) \<noteq> 0 then ret EXIT_SUCCESS else poll_loop rounds))"

definition async_main :: "os \<Rightarrow> round list \<Rightarrow> string list \<Rightarrow> (client, int) M" where
  "async_main k rounds argv = with_connection k argv (\<lambda>host port addr sock.
     if o_nonblock k = -1 then client_close sock EXIT_FAILURE
     else if fst (o_connect k addr) = -1 \<and> snd (o_connect k addr) \<noteq> EINPROGRESS_errno
     then client_close sock EXIT_FAILURE
     else if fst (o_poll k) < 1 then client_close sock EXIT_FAILURE
     else if snd (o_poll k) AND POLLOUT = 0 then fail (Throw ''Assertion'')
     else send_request k sock (request host port) (bnd (poll_loop rounds) (client_close sock)))"

section \<open>What the clients do\<close>

lemma read_loop_run:
  assumes "\<forall>bs \<in> set bss. bs \<noteq> [] \<and> length bs \<le> RLEN"
  shows "read_loop (map Some bss @ rds) w = read_loop rds (w\<lparr>stdout := stdout w @ concat bss\<rparr>)"
  using assms by (induction bss arbitrary: w) (simp_all add: run)

text \<open>
  Whatever the system answers, a client that returns has closed the socket it opened, once,
  and its exit code is one of the two.
\<close>

definition socket_opened :: "os \<Rightarrow> string list \<Rightarrow> bool" where
  "socket_opened k argv \<longleftrightarrow> (case argv of
       [app, host, port] \<Rightarrow> length host < MAX_HOSTNAME \<and> length port < 6
         \<and> snd (o_getaddrinfo k host port) \<noteq> [] \<and> o_socket k \<noteq> -1
     | _ \<Rightarrow> False)"

definition closes :: "int list \<Rightarrow> (client, int) M \<Rightarrow> bool" where
  "closes fds m \<longleftrightarrow> (\<forall>w r w'. m w = Ok r w' \<longrightarrow> r \<in> {EXIT_SUCCESS, EXIT_FAILURE} \<and> closed w' = closed w @ fds)"

lemma closes_ret: "r \<in> {EXIT_SUCCESS, EXIT_FAILURE} \<Longrightarrow> closes [] (ret r)"
  by (simp add: closes_def run_basic)

lemma closes_close: "r \<in> {EXIT_SUCCESS, EXIT_FAILURE} \<Longrightarrow> closes [fd] (client_close fd r)"
  by (auto simp: closes_def client_close_def run)

lemma closes_fail: "closes fds (fail e)"
  by (simp add: closes_def run_basic)

lemma closes_loops:
  "closes [] (read_loop rds)" "closes [] (poll_loop rounds)"
proof -
  show "closes [] (read_loop rds)"
    by (induction rds rule: read_loop.induct) (auto simp: closes_def run)
  show "closes [] (poll_loop rounds)"
    by (induction rounds rule: poll_loop.induct) (auto simp: closes_def bnd_Ok_iff run_basic onlyif_run upd_apply split: if_splits)
qed

lemma closes_then_close: "closes [] m \<Longrightarrow> closes [fd] (bnd m (client_close fd))"
  using closes_close unfolding closes_def by fastforce

lemma closes_send: "closes [fd] go \<Longrightarrow> closes [fd] (send_request k fd req go)"
  using closes_close [of EXIT_FAILURE fd] unfolding send_request_def closes_def by (auto simp: run)

lemma closes_with_connection:
  assumes "\<And>host port addr. closes [o_socket k] (go host port addr (o_socket k))"
  shows "closes (if socket_opened k argv then [o_socket k] else []) (with_connection k argv go)"
  using assms closes_ret [of EXIT_FAILURE]
  by (auto simp: with_connection_def socket_opened_def resolve_def closes_def bnd_Ok_iff run_basic
      split: list.split prod.split)

lemma clients_close:
  "closes (if socket_opened k argv then [o_socket k] else []) (sync_main k rds argv)"
  "closes (if socket_opened k argv then [o_socket k] else []) (async_main k rounds argv)"
  unfolding sync_main_def async_main_def
  by (rule closes_with_connection; simp add: closes_close closes_send closes_then_close closes_loops closes_fail)+

text \<open>
  The polling client is the blocking one whenever each poll reports data and nothing else:
  the same output, the same request, the same exit code.
\<close>

lemma poll_loop_reads: "poll_loop (map (\<lambda>rd. (1, POLLIN, rd)) rds) = read_loop rds"
proof (induction rds rule: read_loop.induct)
  case (3 bs rds)
  then show ?case by (auto simp: POLLIN_def POLLHUP_def POLLERR_def onlyif_def)
qed (simp_all add: POLLIN_def)

lemma async_is_sync:
  assumes "o_nonblock k \<noteq> -1" and "fst (o_connect k addr) \<noteq> -1" and "0 < fst (o_poll k)"
    and "snd (o_poll k) AND POLLOUT \<noteq> 0" and "\<And>host port. o_getaddrinfo k host port = (0, [addr])"
  shows "async_main k (map (\<lambda>rd. (1, POLLIN, rd)) rds) argv = sync_main k rds argv"
  using assms by (simp add: async_main_def sync_main_def with_connection_def resolve_def poll_loop_reads
      split: list.split)

text \<open>
  When the peer has hung up the polling client stops after one more read: what is still
  unread is lost, and it exits with success.
\<close>

lemma hangup_truncates:
  "bs \<noteq> [] \<Longrightarrow> poll_loop ((1, POLLIN OR POLLHUP, Some bs) # rounds) w
    = Ok EXIT_SUCCESS (w\<lparr>stdout := stdout w @ take RLEN bs\<rparr>)"
  by (simp add: POLLIN_def POLLHUP_def POLLERR_def run)

end
