(* ===== verification/Spec2Isabelle.thy ===== *)
theory Spec2Isabelle
  imports Queue_Refinement Tcp_Send Tcp_Facts State_Machine Operations Listener Messages
    Network_Tables Printing Clients
begin

text \<open>
  A user-space TCP/IP stack over a tap device, written in C++ (\<open>include/\<close>, \<open>src/\<close>).

  \<^bold>\<open>The program.\<close> Applications talk to the stack over a UNIX socket (\<open>src/ipc.cpp\<close>); each
  connection has a thread that reads messages and runs the system calls of
  \<open>src/socket.cpp\<close> for the client's process. A \<open>Socket\<close> belongs to the family INET
  (\<open>src/inet.cpp\<close>), whose operations work on a \<open>Sock\<close>, the head of a \<open>Tcp_Sock\<close>
  (\<open>src/tcp.cpp\<close>). TCP cuts what is written into segments and hands them to the IP layer
  (\<open>src/tcp_output.cpp\<close>, \<open>src/ip.cpp\<close>), which chooses a route (\<open>src/route.cpp\<close>), asks
  ARP for the neighbour's address (\<open>src/arp.cpp\<close>, \<open>include/dst.hpp\<close>) and writes a frame
  to the tap (\<open>src/network_device.cpp\<close>). Frames from the tap go up through the same
  layers to \<open>tcp_in\<close> and the state machine of \<open>src/tcp_input.cpp\<close>, which queues text
  (\<open>src/tcp_data.cpp\<close>). A timer service (\<open>src/timer.cpp\<close>) starts handlers in threads of
  their own. Everything is kept in intrusive doubly linked queues
  (\<open>include/intrusive_queue.hpp\<close>), and packets are reference-counted buffers
  (\<open>include/socket_buffer.hpp\<close>). The program starts by creating its devices and setting up
  the tap with shell commands (\<open>src/tuntap_interface.cpp\<close>, \<open>src/utils.cpp\<close>,
  \<open>src/cli.cpp\<close>), and \<open>app/\<close> holds two example clients.

  \<^bold>\<open>How it is modelled.\<close> A function with effects is a computation \<open>('w, 'a) M\<close>
  (theory \<open>Prelude\<close>): from a state, no result when it never returns, a fault
  (null dereference, access out of bounds, double lock, exception, \<dots>), or a value with the
  state after it. The state is a chain of records, each layer extending the one below:
  \<open>qworld\<close> (list nodes and queue headers by address), \<open>skb_world\<close> (buffers and the
  allocator), \<open>timer_world\<close>, \<open>sock_world\<close> (socks and sockets), \<open>tcp_world\<close>,
  \<open>net_world\<close> (routes, devices, the ARP table, the tap), \<open>ipc_world\<close> (connections and the
  kernel's side of them). Objects are maps from 64-bit addresses to records, so aliasing is
  as in the code; machine integers are words of their width, and \<open>int\<close> results are checked
  for signed overflow. A \<open>list_head\<close> is the first member of every class, so a node and its
  object have the same address. Loops over data are recursion with a termination proof;
  loops that may run for ever are \<open>partial_function (option)\<close>, with \<open>None\<close> for
  divergence, so no fuel is chosen anywhere.

  \<^bold>\<open>The theories.\<close>
  \<^item> \<open>Prelude\<close>: the monad, the collection \<open>run\<close> that runs a computation, the collection
    \<open>keep\<close> that shows what it keeps.
  \<^item> \<open>Intrusive_Queue\<close>, \<open>Queue_Interface\<close>, \<open>Queue_Refinement\<close>: the queue, its
    representation predicate \<open>qrep\<close>, rules for the traversals, the locale \<open>fifo\<close>, and the
    refinement of a list of nodes.
  \<^item> \<open>Bytes\<close>, \<open>Sk_Buff\<close>, \<open>Timers\<close>, \<open>Socks\<close>: the checksum, the buffers, the timer
    service, the socket objects with locking and look-up.
  \<^item> \<open>Tcp_Types\<close>, \<open>Ip_Header\<close>, \<open>Tcp_Core\<close>, \<open>Tcp_Output\<close>, \<open>Tcp_Data\<close>,
    \<open>Tcp_Input\<close>, \<open>Tcp_User\<close>: one theory for each source file of TCP (\<open>Tcp_Core\<close> and
    \<open>Tcp_User\<close> share \<open>src/tcp.cpp\<close>). The IP layer below is the parameter \<open>ipo\<close> there.
    \<open>Tcp_Send\<close> and \<open>Tcp_Facts\<close> hold what is proved of sending and receiving.
  \<^item> \<open>System_Calls\<close>, \<open>Calls\<close>: \<open>src/inet.cpp\<close> and \<open>src/socket.cpp\<close> and what is proved of
    them. What other threads do while a call sleeps is the parameter \<open>others\<close>.
    \<open>Operations\<close>: the tables \<open>Net_Ops\<close>, \<open>Sock_Ops\<close>, \<open>Sock_Type\<close> and the families; every
    call made directly in the other theories is the call through its table.
  \<^item> \<open>Net_Output\<close>, \<open>Net_Input\<close>, \<open>Net_Facts\<close>, \<open>Network_Tables\<close>: routes, ARP, IP, ICMP, the
    devices, out and in; what the configured routes and the ARP table amount to.
  \<^item> \<open>Stack_Rules\<close>, \<open>Stack\<close>, \<open>State_Machine\<close>: the locales \<open>buffer_rel\<close>, \<open>sock_rel\<close>, \<open>output_rel\<close>,
    \<open>socket_rel\<close>, \<open>stack_rel\<close> and \<open>net_rel\<close> (a relation kept by the elementary updates of
    the state is kept by all of TCP, the socket layer and the network layers), and the whole
    stack as a step relation whose reachable states satisfy an invariant. What the elementary
    updates are is stated once, in the assumptions: among them that TCP changes the state of a
    sock only along an arc of \<open>tcp_move\<close>, and that frames are written to the tap only as ARP.
    Each interpretation proves a property of whole runs: the typing invariant (\<open>Stack\<close>),
    the connection's state machine, the ARP table and the wire (\<open>State_Machine\<close>), the one
    answer of a call (\<open>Ipc_Facts\<close>).
  \<^item> \<open>Ipc\<close>, \<open>Ipc_Facts\<close>, \<open>Messages\<close>, \<open>Listener\<close>: the server side of the UNIX-socket protocol,
    the structures clients send with the promise \<open>serve\<close> made for each, and the listener that
    starts it.
  \<^item> \<open>Startup\<close>, \<open>Startup_Facts\<close>: addresses, devices, the tap and its shell commands, the
    command line. \<open>Printing\<close>: \<open>std::format\<close> and the debugging lines of the headers.
    \<open>Clients\<close>: the two programs of \<open>app/\<close>.

  \<^bold>\<open>What is proved.\<close> The queue refines a list, and releasing a queue of buffers, a timer
  tick, the look-ups and the connection list are described exactly. The header codec and the
  answers of the server round-trip. The checksum verifies what it was computed for and
  detects any single changed word. The estimator is RFC 6298's, the acknowledgement blocks
  are the maximal runs of the out-of-order queue, an acknowledgement removes exactly the
  acknowledged prefix, reading options always ends within bounds, and the user gets the
  bytes of the stream in order. Every reachable state of the stack satisfies the bounds of
  \<open>stack_inv\<close>; every connection moves along the TCP diagram only, whatever the steps; the ARP
  table stays well typed and refines a finite map; the configured routes send each address
  where it is meant to go. Each call of the protocol that comes back is answered exactly once,
  and each request of \<open>Messages\<close>, as bytes, is decoded to the system call it stands for.
  Exactly the dotted decimal addresses are parsed, each to its value, the addresses in
  debugging lines parse back, and setting the tap up runs three commands in order, once. The clients close what they open.

  Much of the stack does not work, and this is proved as well, on the functions as they are:
  armed timers never fire, teardown faults, a long write never returns, an insertion in
  front of a queued segment loses the segments behind it, a packet is checksummed past its
  object, frames are dispatched on an address, a blocking connect waits for itself, no
  handshake completes, no IP packet is ever written to the tap, and reads through the server
  always fail.

  \<^bold>\<open>Modelling choices.\<close> Values the code never initialises are parameters of the state
  (\<open>raw_ptr\<close>, \<open>raw_tsk\<close>, \<open>ipc_raw\<close>). Random numbers are what the state holds next
  (\<open>next_iss\<close>, \<open>next_port\<close>). Debugging output has no place in the state except the trace of
  segments, \<open>tcp_out\<close>; its texts are functions of \<open>Printing\<close>. Where the code does not compile (the traversal's body in
  \<open>abort_sockets\<close> and \<open>arp_get_hwaddr\<close> returns nothing) the body is read as never
  leaving the loop; where it does not link, the one definition meant is taken.

  The operating system is a parameter or part of the state: what \<open>getaddrinfo\<close>,
  \<open>getopt\<close>, the tap's \<open>ioctl\<close>, the shell and the socket calls answer (records
  \<open>kernel\<close>, \<open>unix_calls\<close> and \<open>os\<close>), in lists where a call is made repeatedly; after the last
  answer listed a call waits for ever.

  \<^bold>\<open>Not modelled.\<close> What goes to the error stream: \<open>print_err\<close>, \<open>usage\<close>'s text and \<open>perror\<close>.
  When each debugging line is printed is not part of the state either. The structures of
  headers that no code uses (\<open>ICMPv4_Echo\<close>, \<open>ICMPv4_Dest_Unreachable\<close>) have no model. There is no \<open>main\<close> of the stack in the repository, so the order in
  which the parts are started is not modelled either. Threads are interleaved at the granularity of a step
  of \<open>stack_step\<close>: the scoped mutex guards inside one step (such as that of
  \<open>timers_tick\<close>) are left out, while the locks that a thread holds across calls, those of
  the socket and of the wait conditions, are state.
\<close>

end
